(* ===== verification/Prelude.thy ===== *)
theory Prelude
  imports Main "HOL-Library.Word" "HOL-Library.Signed_Division" "HOL-Library.Monad_Syntax"
begin

text \<open>
  What every component shares: the result type of a contract call, the combinators that
  spell Rust's early returns (\<open>?\<close>, \<open>ok_or\<close>, \<open>unwrap\<close>), the arithmetic of Rust's
  integer types, and the sum lemmas behind the accounting invariants.

  Integers. \<open>u8\<close>, \<open>u32\<close> and \<open>u64\<close> are words, so a value of these types is in range by
  its type. \<open>i128\<close> and \<open>u128\<close> are \<open>int\<close>, and every operation of the source that can
  overflow is the checked operation below: \<open>None\<close> is the overflow, which the code turns
  into an error (\<open>checked_*\<close>) or a panic (the plain operators, since the release profile
  sets \<open>overflow-checks = true\<close>).
\<close>

section \<open>Integer types\<close>

type_synonym u8 = "8 word"
type_synonym u32 = "32 word"
type_synonym u64 = "64 word"
type_synonym i128 = int
type_synonym u128 = int

definition in_i128 :: "int \<Rightarrow> bool" where
  "in_i128 x \<longleftrightarrow> - (2 ^ 127) \<le> x \<and> x < 2 ^ 127"

definition in_u128 :: "int \<Rightarrow> bool" where
  "in_u128 x \<longleftrightarrow> 0 \<le> x \<and> x < 2 ^ 128"

definition checked_add :: "i128 \<Rightarrow> i128 \<Rightarrow> i128 option" where
  "checked_add a b = (if in_i128 (a + b) then Some (a + b) else None)"

definition checked_sub :: "i128 \<Rightarrow> i128 \<Rightarrow> i128 option" where
  "checked_sub a b = (if in_i128 (a - b) then Some (a - b) else None)"

definition checked_mul :: "i128 \<Rightarrow> i128 \<Rightarrow> i128 option" where
  "checked_mul a b = (if in_i128 (a * b) then Some (a * b) else None)"

text \<open>Rust's \<open>/\<close> and \<open>%\<close> truncate towards zero: \<open>sdiv\<close> and \<open>smod\<close> of the library.\<close>

definition checked_div :: "i128 \<Rightarrow> i128 \<Rightarrow> i128 option" where
  "checked_div a b = (if b = 0 \<or> \<not> in_i128 (a sdiv b) then None else Some (a sdiv b))"

definition checked_mul_u128 :: "u128 \<Rightarrow> u128 \<Rightarrow> u128 option" where
  "checked_mul_u128 a b = (if in_u128 (a * b) then Some (a * b) else None)"

definition checked_div_u128 :: "u128 \<Rightarrow> u128 \<Rightarrow> u128 option" where
  "checked_div_u128 a b = (if b = 0 then None else Some (a div b))"

definition saturating_mul_u128 :: "u128 \<Rightarrow> u128 \<Rightarrow> u128" where
  "saturating_mul_u128 a b = min (a * b) (2 ^ 128 - 1)"

text \<open>The casts between the two 128-bit types reinterpret the bits.\<close>

definition as_u128 :: "i128 \<Rightarrow> u128" where
  "as_u128 x = x mod 2 ^ 128"

definition as_i128 :: "u128 \<Rightarrow> i128" where
  "as_i128 x = (x + 2 ^ 127) mod 2 ^ 128 - 2 ^ 127"

definition saturating_add :: "'a::len word \<Rightarrow> 'a word \<Rightarrow> 'a word" where
  "saturating_add a b = (if uint a + uint b < 2 ^ LENGTH('a) then a + b else - 1)"

definition saturating_sub :: "'a::len word \<Rightarrow> 'a word \<Rightarrow> 'a word" where
  "saturating_sub a b = (if a < b then 0 else a - b)"

definition checked_add_word :: "'a::len word \<Rightarrow> 'a word \<Rightarrow> 'a word option" where
  "checked_add_word a b = (if uint a + uint b < 2 ^ LENGTH('a) then Some (a + b) else None)"

definition checked_sub_word :: "'a::len word \<Rightarrow> 'a word \<Rightarrow> 'a word option" where
  "checked_sub_word a b = (if a < b then None else Some (a - b))"

named_theorems checked_simps \<open>what a checked operation returns\<close>

lemma checked_add_Some [checked_simps]:
  "checked_add a b = Some c \<longleftrightarrow> c = a + b \<and> in_i128 (a + b)"
  by (auto simp: checked_add_def)

lemma checked_sub_Some [checked_simps]:
  "checked_sub a b = Some c \<longleftrightarrow> c = a - b \<and> in_i128 (a - b)"
  by (auto simp: checked_sub_def)

lemma checked_mul_Some [checked_simps]:
  "checked_mul a b = Some c \<longleftrightarrow> c = a * b \<and> in_i128 (a * b)"
  by (auto simp: checked_mul_def)

lemma checked_add_None [checked_simps]: "checked_add a b = None \<longleftrightarrow> \<not> in_i128 (a + b)"
  by (simp add: checked_add_def)

lemma checked_sub_None [checked_simps]: "checked_sub a b = None \<longleftrightarrow> \<not> in_i128 (a - b)"
  by (simp add: checked_sub_def)

lemma checked_mul_None [checked_simps]: "checked_mul a b = None \<longleftrightarrow> \<not> in_i128 (a * b)"
  by (simp add: checked_mul_def)

lemma sdiv_nonneg: "0 \<le> a \<Longrightarrow> 0 < b \<Longrightarrow> (a::int) sdiv b = a div b"
  by (cases "a = 0") (simp_all add: signed_divide_int_def sgn_if)

lemma smod_nonneg: "0 \<le> a \<Longrightarrow> 0 < b \<Longrightarrow> (a::int) smod b = a mod b"
  by (cases "a = 0") (simp_all add: signed_modulo_int_def sgn_if)

lemma as_u128_id: "0 \<le> x \<Longrightarrow> in_i128 x \<Longrightarrow> as_u128 x = x"
  by (simp add: as_u128_def in_i128_def)

lemma as_i128_id: "in_i128 x \<Longrightarrow> as_i128 x = x"
  by (simp add: as_i128_def in_i128_def)

lemma in_i128_mono: "in_i128 b \<Longrightarrow> 0 \<le> a \<Longrightarrow> a \<le> b \<Longrightarrow> in_i128 a"
  by (simp add: in_i128_def)

lemma in_i128_diff: "in_i128 a \<Longrightarrow> 0 \<le> b \<Longrightarrow> b \<le> a \<Longrightarrow> in_i128 (a - b)"
  by (simp add: in_i128_def)

text \<open>Evaluation: the bounds as literals, and a truncation that is the identity on small numbers.\<close>

lemma in_i128_code [code]:
  "in_i128 x \<longleftrightarrow> - 170141183460469231731687303715884105728 \<le> x \<and> x < 170141183460469231731687303715884105728"
  by (simp add: in_i128_def)

lemma in_u128_code [code]:
  "in_u128 x \<longleftrightarrow> 0 \<le> x \<and> x < 340282366920938463463374607431768211456"
  by (simp add: in_u128_def)

lemma as_u128_code [code]: "as_u128 x = x mod 340282366920938463463374607431768211456"
  by (simp add: as_u128_def)

lemma as_i128_code [code]:
  "as_i128 x = (x + 170141183460469231731687303715884105728) mod 340282366920938463463374607431768211456
     - 170141183460469231731687303715884105728"
  by (simp add: as_i128_def)

lemma take_bit_code [code]:
  "take_bit n (k::int) = (if 0 \<le> k \<and> k < 4294967296 \<and> 32 \<le> n then k else k mod 2 ^ n)"
proof (cases "0 \<le> k \<and> k < 4294967296 \<and> 32 \<le> n")
  case True
  then have "(2::int) ^ 32 \<le> 2 ^ n" by (intro power_increasing) auto
  with True show ?thesis by (simp add: take_bit_int_eq_self)
qed (simp only: take_bit_eq_mod if_False)

lemma in_i128_0 [simp]: "in_i128 0"
  by (simp add: in_i128_def)

lemma uint_saturating_add:
  "uint (saturating_add a b) = min (uint a + uint b) (2 ^ LENGTH('a) - 1)"
  for a b :: "'a::len word"
proof (cases "uint a + uint b < 2 ^ LENGTH('a)")
  case True
  then have "uint (a + b) = uint a + uint b"
    by (simp add: uint_word_ariths(1))
  with True show ?thesis by (simp add: saturating_add_def)
next
  case False
  have "uint (- 1 :: 'a word) = 2 ^ LENGTH('a) - 1"
    by (simp add: unsigned_minus_1_eq_mask mask_eq_exp_minus_1)
  with False show ?thesis by (simp add: saturating_add_def)
qed

lemma saturating_add_ge: "a \<le> saturating_add a b"
proof -
  have "uint a \<le> uint (saturating_add a b)"
    using uint_lt2p [of a] uint_ge_0 [of b] by (simp add: uint_saturating_add)
  then show ?thesis by (simp add: word_le_def)
qed

lemma checked_add_word_Some:
  "checked_add_word a b = Some c \<longleftrightarrow> c = a + b \<and> uint c = uint a + uint b"
  for a b :: "'a::len word"
proof -
  have "uint (a + b) = uint a + uint b \<longleftrightarrow> uint a + uint b < 2 ^ LENGTH('a)"
    using uint_lt2p [of "a + b"] uint_ge_0 [of a] uint_ge_0 [of b]
    by (metis add_nonneg_nonneg mod_pos_pos_trivial uint_word_ariths(1))
  then show ?thesis by (auto simp: checked_add_word_def)
qed

lemma checked_add_word_one:
  fixes a :: "'a::len word"
  assumes "checked_add_word a 1 = Some c"
  shows "uint c = uint a + 1"
proof -
  from assms have "uint c = uint a + uint (1 :: 'a word)"
    unfolding checked_add_word_Some by blast
  then show ?thesis by simp
qed

section \<open>Results of a call\<close>

text \<open>
  A contract function that returns \<open>Result<T, E>\<close> ends in one of three ways: it returns
  \<open>Ok\<close>, it returns a typed error, or it panics (an \<open>unwrap\<close> of \<open>None\<close>, a failed
  \<open>require_auth\<close>, a callee that traps). The host commits the state only for \<open>Ok\<close>, so
  the state is part of the \<open>Ok\<close> value alone.
\<close>

datatype ('a, 'e) outcome = Ok 'a | Err 'e | Panic

text \<open>\<open>attempt r k\<close> is \<open>r?\<close> followed by \<open>k\<close>.\<close>

definition attempt :: "('b, 'e) outcome \<Rightarrow> ('b \<Rightarrow> ('a, 'e) outcome) \<Rightarrow> ('a, 'e) outcome" where
  "attempt r k = (case r of Ok v \<Rightarrow> k v | Err e \<Rightarrow> Err e | Panic \<Rightarrow> Panic)"

definition unwrap :: "'b option \<Rightarrow> ('b \<Rightarrow> ('a, 'e) outcome) \<Rightarrow> ('a, 'e) outcome" where
  "unwrap x k = (case x of Some v \<Rightarrow> k v | None \<Rightarrow> Panic)"

definition ok_or :: "'b option \<Rightarrow> 'e \<Rightarrow> ('b \<Rightarrow> ('a, 'e) outcome) \<Rightarrow> ('a, 'e) outcome" where
  "ok_or x e k = (case x of Some v \<Rightarrow> k v | None \<Rightarrow> Err e)"

definition unwrap_or :: "'b option \<Rightarrow> 'b \<Rightarrow> 'b" where
  "unwrap_or x d = (case x of Some v \<Rightarrow> v | None \<Rightarrow> d)"

text \<open>Contracts without an error type panic on every failure: their functions return an
  \<open>option\<close>, and \<open>ensure\<close> is \<open>assert!\<close> or a guarded \<open>panic!\<close>.\<close>

definition ensure :: "bool \<Rightarrow> unit option" where
  "ensure b = (if b then Some () else None)"

text \<open>Unfolded before evaluation, so that a continuation runs only once its value is known.\<close>

declare attempt_def [code_unfold] unwrap_def [code_unfold] ok_or_def [code_unfold]

lemma unwrap_or_simps [simp]: "unwrap_or (Some v) d = v" "unwrap_or None d = d"
  by (simp_all add: unwrap_or_def)

lemma ensure_Some [simp]: "ensure b = Some u \<longleftrightarrow> b"
  by (simp add: ensure_def)

lemma ensure_None [simp]: "ensure b = None \<longleftrightarrow> \<not> b"
  by (simp add: ensure_def)

named_theorems outcome_ok \<open>when a combinator returns Ok\<close>
named_theorems outcome_run \<open>how a combinator evaluates\<close>

lemma attempt_Ok [outcome_ok]: "attempt r k = Ok x \<longleftrightarrow> (\<exists>v. r = Ok v \<and> k v = Ok x)"
  by (simp add: attempt_def split: outcome.splits)

lemma unwrap_Ok [outcome_ok]: "unwrap y k = Ok x \<longleftrightarrow> (\<exists>v. y = Some v \<and> k v = Ok x)"
  by (simp add: unwrap_def split: option.splits)

lemma ok_or_Ok [outcome_ok]: "ok_or y e k = Ok x \<longleftrightarrow> (\<exists>v. y = Some v \<and> k v = Ok x)"
  by (simp add: ok_or_def split: option.splits)

lemma if_Err_Ok [outcome_ok]: "(if b then Err e else k) = Ok x \<longleftrightarrow> \<not> b \<and> k = Ok x"
  by simp

lemma if_Panic_Ok [outcome_ok]: "(if b then Panic else k) = Ok x \<longleftrightarrow> \<not> b \<and> k = Ok x"
  by simp

lemma attempt_run [outcome_run]:
  "attempt (Ok v) k = k v" "attempt (Err e) k = Err e" "attempt Panic k = Panic"
  by (simp_all add: attempt_def)

lemma unwrap_run [outcome_run]: "unwrap (Some v) k = k v" "unwrap None k = Panic"
  by (simp_all add: unwrap_def)

lemma ok_or_run [outcome_run]: "ok_or (Some v) e k = k v" "ok_or None e k = Err e"
  by (simp_all add: ok_or_def)

section \<open>Sums over finite key types\<close>

lemma sum_fun_upd:
  "(\<Sum>x\<in>UNIV. (f(a := v)) x) = (\<Sum>x\<in>UNIV. f x) - f a + v"
  for f :: "'k::finite \<Rightarrow> int"
proof -
  have "(\<Sum>x\<in>UNIV - {a}. (f(a := v)) x) = (\<Sum>x\<in>UNIV - {a}. f x)"
    by (rule sum.cong) auto
  then show ?thesis
    using sum.remove [of UNIV a "f(a := v)"] sum.remove [of UNIV a f] by simp
qed

lemma sum_point_change:
  "\<lbrakk>\<And>x. x \<noteq> a \<Longrightarrow> g x = f x\<rbrakk> \<Longrightarrow> (\<Sum>x\<in>UNIV. g x) = (\<Sum>x\<in>UNIV. f x) - f a + g a"
  for f g :: "'k::finite \<Rightarrow> int"
  using sum_fun_upd [of f a "g a"] by (metis (mono_tags, lifting) fun_upd_def sum.cong)

end
