(* ===== verification/Host.thy ===== *)
theory Host
  imports Prelude
begin

text \<open>
  The environment a contract runs in: what the source reaches through \<open>env: Env\<close>.
  The ledger's sequence number and timestamp, the set of addresses that authorised the
  current invocation and the contract's own address are data. The functions of the host
  and of other contracts (SHA-256, the TTL rule, the calls of a token client) are not part
  of the repository: they are fields of the environment, that is, parameters of every
  definition that uses them. What the code relies on is stated as laws: the locale
  \<open>ttl_host\<close> here, the token interface in \<open>Token_Interface\<close>.
\<close>

section \<open>Addresses\<close>

text \<open>An address names an account or a contract by 32 bytes.\<close>

datatype address = Account "256 word" | Contract "256 word"

lemma address_UNIV: "(UNIV :: address set) = range Account \<union> range Contract"
  by (auto intro: address.exhaust)

instance address :: finite
proof
  show "finite (UNIV :: address set)" by (simp add: address_UNIV)
qed

section \<open>The environment\<close>

text \<open>
  \<open>host_bump thr amt seq live\<close> is the expiration ledger of an entry after
  \<open>bump(thr, amt)\<close> at ledger \<open>seq\<close>, when it was \<open>live\<close>; \<open>host_new_ttl seq\<close> is the one the
  host gives a freshly created entry. \<open>token_transfer t from to amount w\<close> is the call
  \<open>transfer\<close> of the token contract \<open>t\<close> from the current contract: the new state of the
  world outside this contract, or \<open>None\<close> when the callee traps.
\<close>

record 'w env =
  sequence :: u32
  timestamp :: u64
  authorized :: "address \<Rightarrow> bool"
  current_contract_address :: address
  sha256 :: "u8 list \<Rightarrow> u8 list"
  host_bump :: "u32 \<Rightarrow> u32 \<Rightarrow> u32 \<Rightarrow> u32 \<Rightarrow> u32"
  host_new_ttl :: "u32 \<Rightarrow> u32"
  token_transfer :: "address \<Rightarrow> address \<Rightarrow> address \<Rightarrow> i128 \<Rightarrow> 'w \<Rightarrow> 'w option"
  token_balance :: "address \<Rightarrow> address \<Rightarrow> 'w \<Rightarrow> i128"

text \<open>\<open>address.require_auth()\<close>: the call panics unless \<open>a\<close> authorised it.\<close>

definition require_auth :: "'w env \<Rightarrow> address \<Rightarrow> ('a, 'e) outcome \<Rightarrow> ('a, 'e) outcome" where
  "require_auth env a k = (if authorized env a then k else Panic)"

declare require_auth_def [code_unfold]

lemma require_auth_Ok [outcome_ok]: "require_auth env a k = Ok x \<longleftrightarrow> authorized env a \<and> k = Ok x"
  by (simp add: require_auth_def)

lemma require_auth_run [outcome_run]: "authorized env a \<Longrightarrow> require_auth env a k = k"
  by (simp add: require_auth_def)

section \<open>The host's TTL rule\<close>

text \<open>
  The documented behaviour of \<open>bump(threshold, amount)\<close>: an entry with at most
  \<open>threshold\<close> ledgers left is extended to live until \<open>amount\<close> ledgers from now (up to the
  last ledger number), any other entry is left alone, and a bump never shortens a life.
\<close>

locale ttl_host =
  fixes bump :: "u32 \<Rightarrow> u32 \<Rightarrow> u32 \<Rightarrow> u32 \<Rightarrow> u32"
  assumes bump_due: "uint live \<le> uint seq + uint thr \<Longrightarrow>
      uint (saturating_add seq amt) \<le> uint (bump thr amt seq live)"
    and bump_not_due: "uint seq + uint thr < uint live \<Longrightarrow> bump thr amt seq live = live"
    and bump_monotone: "uint live \<le> uint (bump thr amt seq live)"
begin

text \<open>After a bump the entry lives at least \<open>min thr amt\<close> ledgers on, whatever it had left.\<close>

lemma bump_lives:
  "thr \<le> amt \<Longrightarrow> uint (saturating_add seq thr) \<le> uint (bump thr amt seq live)"
proof (cases "uint live \<le> uint seq + uint thr")
  case True
  assume "thr \<le> amt"
  then have "uint (saturating_add seq thr) \<le> uint (saturating_add seq amt)"
    by (simp add: uint_saturating_add word_le_def)
  from this bump_due [OF True] show ?thesis by (rule order_trans)
next
  case False
  then show ?thesis by (simp add: bump_not_due uint_saturating_add)
qed

lemma bump_idem_late: "uint seq + uint thr < uint live \<Longrightarrow> bump thr amt seq (bump thr amt seq live) = live"
  by (simp add: bump_not_due)

end

text \<open>The rule written as a function: an instance of the law, used by the witnesses.\<close>

definition standard_bump :: "u32 \<Rightarrow> u32 \<Rightarrow> u32 \<Rightarrow> u32 \<Rightarrow> u32" where
  "standard_bump thr amt seq live =
     (if uint live \<le> uint seq + uint thr then max live (saturating_add seq amt) else live)"

interpretation standard: ttl_host standard_bump
  by unfold_locales (auto simp: standard_bump_def max_def word_le_def)

end
