(* ===== verification/Token_Interface.thy ===== *)
theory Token_Interface
  imports Host
begin

text \<open>
  What a contract relies on when it calls a token: the locale \<open>token_client\<close> states the
  laws of a transfer, its extension \<open>live_token\<close> when a transfer must succeed. The two
  token contracts of the repository provide both (\<open>Mock_Token\<close>, \<open>Abundance\<close>).
\<close>

locale token_client =
  fixes transfer :: "address \<Rightarrow> address \<Rightarrow> address \<Rightarrow> i128 \<Rightarrow> 'w \<Rightarrow> 'w option"
    and balance :: "address \<Rightarrow> address \<Rightarrow> 'w \<Rightarrow> i128"
  assumes transfer_nonneg: "transfer t from to amt w = Some w' \<Longrightarrow> 0 \<le> amt"
    and transfer_covered: "transfer t from to amt w = Some w' \<Longrightarrow> amt \<le> balance t from w"
    and transfer_moves: "transfer t from to amt w = Some w' \<Longrightarrow>
      balance t a w' = balance t a w - (if a = from then amt else 0) + (if a = to then amt else 0)"
begin

lemma transfer_in:
  "transfer t from to amt w = Some w' \<Longrightarrow> from \<noteq> to \<Longrightarrow> balance t to w' = balance t to w + amt"
  by (simp add: transfer_moves)

lemma transfer_out_le:
  "transfer t from to amt w = Some w' \<Longrightarrow> balance t from w - amt \<le> balance t from w'"
  using transfer_nonneg [of t "from" to amt w w'] by (simp add: transfer_moves)

lemma transfer_other:
  "transfer t from to amt w = Some w' \<Longrightarrow> a \<noteq> from \<Longrightarrow> balance t a w \<le> balance t a w'"
  using transfer_nonneg [of t "from" to amt w w'] by (simp add: transfer_moves)

text \<open>Balances are conserved.\<close>

lemma transfer_total:
  assumes "transfer t from to amt w = Some w'"
  shows "(\<Sum>a\<in>UNIV. balance t a w') = (\<Sum>a\<in>UNIV. balance t a w)"
proof -
  have "(\<Sum>a\<in>UNIV. balance t a w') =
      (\<Sum>a\<in>UNIV. balance t a w) - (\<Sum>a\<in>UNIV. if a = from then amt else 0)
        + (\<Sum>a\<in>UNIV. if a = to then amt else 0)"
    using assms by (simp add: transfer_moves sum.distrib sum_subtractf)
  then show ?thesis by simp
qed

end

text \<open>
  A token \<open>t\<close> is \<open>live\<close> for a spender \<open>cc\<close> when a covered transfer out of \<open>cc\<close> goes
  through, as long as the receiver's balance stays an \<open>i128\<close>.
\<close>

locale live_token = token_client +
  fixes live :: "address \<Rightarrow> address \<Rightarrow> 'w \<Rightarrow> bool"
  assumes transfer_goes:
      "live t cc w \<Longrightarrow> 0 \<le> amt \<Longrightarrow> amt \<le> balance t cc w \<Longrightarrow> in_i128 (balance t to w + amt) \<Longrightarrow>
       \<exists>w'. transfer t cc to amt w = Some w'"
    and transfer_live: "live t cc w \<Longrightarrow> transfer t from to amt w = Some w' \<Longrightarrow> live t cc w'"

end
