(* ===== verification/TrustFlow_State.thy ===== *)
theory TrustFlow_State
  imports Token_Interface
begin

text \<open>
  The data of the escrow contract \<open>contracts/trustflow/src/lib.rs\<close>: its constants, error
  codes, events, storage keys and records, its storage as one record with a field per
  \<open>DataKey\<close> constructor, and the storage primitives the entry points share (writing an
  entry, extending a TTL, publishing an event, the pause guard).
\<close>

section \<open>Constants\<close>

definition DEFAULT_SLASH_BPS :: u32 where "DEFAULT_SLASH_BPS = 1000"
definition DEFAULT_FEE_BPS :: u32 where "DEFAULT_FEE_BPS = 50"
definition MAX_FEE_BPS :: u32 where "MAX_FEE_BPS = 1000"
definition BPS_DENOMINATOR :: i128 where "BPS_DENOMINATOR = 10000"
definition LEDGERS_PER_DAY :: u32 where "LEDGERS_PER_DAY = 17280"
definition COMMIT_WINDOW_LEDGERS :: u32 where "COMMIT_WINDOW_LEDGERS = LEDGERS_PER_DAY"
definition REVEAL_WINDOW_LEDGERS :: u32 where "REVEAL_WINDOW_LEDGERS = LEDGERS_PER_DAY"
definition BUMP_AMOUNT :: u32 where "BUMP_AMOUNT = 90 * LEDGERS_PER_DAY"
definition LIFETIME_THRESHOLD :: u32 where "LIFETIME_THRESHOLD = 30 * LEDGERS_PER_DAY"
definition INSTANCE_BUMP_AMOUNT :: u32 where "INSTANCE_BUMP_AMOUNT = BUMP_AMOUNT"
definition INSTANCE_LIFETIME_THRESHOLD :: u32 where
  "INSTANCE_LIFETIME_THRESHOLD = LIFETIME_THRESHOLD"
definition PERSISTENT_BUMP_AMOUNT :: u32 where "PERSISTENT_BUMP_AMOUNT = BUMP_AMOUNT"
definition PERSISTENT_LIFETIME_THRESHOLD :: u32 where
  "PERSISTENT_LIFETIME_THRESHOLD = LIFETIME_THRESHOLD"

lemmas trustflow_constants = DEFAULT_SLASH_BPS_def DEFAULT_FEE_BPS_def MAX_FEE_BPS_def
  BPS_DENOMINATOR_def LEDGERS_PER_DAY_def COMMIT_WINDOW_LEDGERS_def REVEAL_WINDOW_LEDGERS_def
  BUMP_AMOUNT_def LIFETIME_THRESHOLD_def INSTANCE_BUMP_AMOUNT_def
  INSTANCE_LIFETIME_THRESHOLD_def PERSISTENT_BUMP_AMOUNT_def PERSISTENT_LIFETIME_THRESHOLD_def

section \<open>Errors\<close>

datatype trustflow_error =
    Unauthorized | EscrowNotFound | InvalidAmount | DisputeNotFound | DisputeAlreadyResolved
  | InvalidState | AlreadyVoted | InsufficientStake | NoVotesCast | MilestoneAmountMismatch
  | JurorStakeNotFound | MilestoneNotFound | InvalidFeeBps | ArithmeticOverflow
  | TokenTransferFailed | CommitPhaseEnded | RevealPhaseNotOpen | AlreadyCommitted
  | NoCommitFound | InvalidReveal | RevealPhaseNotEnded | ContractPausedError
  | MilestoneTimeLocked

text \<open>The discriminants (\<open>repr(u32)\<close>); the derived order on errors compares them.\<close>

fun error_code :: "trustflow_error \<Rightarrow> u32" where
  "error_code Unauthorized = 1"
| "error_code EscrowNotFound = 2"
| "error_code InvalidAmount = 3"
| "error_code DisputeNotFound = 4"
| "error_code DisputeAlreadyResolved = 5"
| "error_code InvalidState = 6"
| "error_code AlreadyVoted = 7"
| "error_code InsufficientStake = 8"
| "error_code NoVotesCast = 9"
| "error_code MilestoneAmountMismatch = 10"
| "error_code JurorStakeNotFound = 11"
| "error_code MilestoneNotFound = 12"
| "error_code InvalidFeeBps = 13"
| "error_code ArithmeticOverflow = 14"
| "error_code TokenTransferFailed = 15"
| "error_code CommitPhaseEnded = 16"
| "error_code RevealPhaseNotOpen = 17"
| "error_code AlreadyCommitted = 18"
| "error_code NoCommitFound = 19"
| "error_code InvalidReveal = 20"
| "error_code RevealPhaseNotEnded = 21"
| "error_code ContractPausedError = 22"
| "error_code MilestoneTimeLocked = 23"

lemma error_code_inject: "error_code e = error_code e' \<longleftrightarrow> e = e'"
  by (cases e; cases e'; simp)

instantiation trustflow_error :: linorder
begin
definition "(e::trustflow_error) \<le> e' \<longleftrightarrow> error_code e \<le> error_code e'"
definition "(e::trustflow_error) < e' \<longleftrightarrow> error_code e < error_code e'"
instance
proof
  fix x y z :: trustflow_error
  show "x < y \<longleftrightarrow> x \<le> y \<and> \<not> y \<le> x"
    by (auto simp: less_eq_trustflow_error_def less_trustflow_error_def)
  show "x \<le> x" and "x \<le> y \<Longrightarrow> y \<le> z \<Longrightarrow> x \<le> z" and "x \<le> y \<or> y \<le> x"
    by (auto simp: less_eq_trustflow_error_def)
  show "x \<le> y \<Longrightarrow> y \<le> x \<Longrightarrow> x = y"
    by (auto simp: less_eq_trustflow_error_def error_code_inject [symmetric])
qed
end

section \<open>Domain types\<close>

datatype escrow_status = Active | Disputed | Settled

record milestone =
  m_label :: string
  m_amount :: i128
  m_approved :: bool
  m_release_time :: u32

record escrow_record =
  e_id :: u64
  e_depositor :: address
  e_beneficiary :: address
  e_amount :: i128
  e_status :: escrow_status
  e_milestones :: "milestone list"

record dispute_record =
  d_escrow_id :: u64
  d_raised_by :: address
  d_reason :: string
  d_resolved :: bool
  d_ruling_for_depositor :: bool
  d_commit_deadline :: u32
  d_reveal_deadline :: u32

record escrow_fee_config =
  f_treasury :: address
  f_fee_bps :: u32

record vote_key =
  v_escrow_id :: u64
  v_juror :: address

record milestone_key =
  k_escrow_id :: u64
  k_milestone_index :: u32

datatype datakey =
    Admin | Token | SlashBps | EscrowCounter | FeeBps | Treasury
  | Escrow u64 | EscrowFeeConfig u64 | EscrowReleased u64 | MilestoneReleased milestone_key
  | Dispute u64 | JurorStake address | DisputeVoters u64 | JurorCommit vote_key
  | JurorVote vote_key | JurorSlashCount address | Paused | Pauser

text \<open>
  Published events: topics and payload as one constructor (the topics are fixed symbols,
  except for the release event, whose topics carry the escrow and the milestone).
\<close>

datatype tf_event =
    ContractPaused address
  | ContractUnpaused address
  | PauserSet address address
  | PauserRevoked address
  | EscrowInitialized u64 address address i128
  | EscrowTtlBumped u64 u32
  | JurorStakeTtlBumped address u32
  | MilestoneTrancheReleased (tr_escrow_id: u64) (tr_milestone_index: u32)
      (tr_gross_amount: i128) (tr_treasury_fee: i128) (tr_beneficiary_payout: i128)
      (tr_milestone_released: i128) (tr_escrow_released: i128)
      (tr_beneficiary: address) (tr_treasury: address)
  | VoteCommitted u64 address
  | VoteRevealed u64 address bool
  | Staked address i128 i128
  | Unstaked address i128 i128
  | JurorSlashed u64 address i128 i128 u32

section \<open>Storage\<close>

text \<open>
  One field per \<open>DataKey\<close> constructor: the instance keys are optional values (\<open>i_\<close>), the
  persistent keys are maps (\<open>p_\<close>). \<open>i_live_until\<close> and \<open>p_live_until\<close> are the expiration
  ledgers of the instance and of each persistent entry; \<open>events\<close> collects what the contract
  published, oldest first; \<open>world\<close> is the state of the other contracts. An entry whose
  expiration ledger has passed is archived: the host then rejects the transaction before
  the contract runs, so the operations never see it.
\<close>

record 'w trustflow =
  i_admin :: "address option"
  i_token :: "address option"
  i_slash_bps :: "u32 option"
  i_escrow_counter :: "u64 option"
  i_fee_bps :: "u32 option"
  i_treasury :: "address option"
  i_paused :: "bool option"
  i_pauser :: "address option"
  i_live_until :: u32
  p_escrow :: "u64 \<rightharpoonup> escrow_record"
  p_escrow_fee_config :: "u64 \<rightharpoonup> escrow_fee_config"
  p_escrow_released :: "u64 \<rightharpoonup> i128"
  p_milestone_released :: "milestone_key \<rightharpoonup> i128"
  p_dispute :: "u64 \<rightharpoonup> dispute_record"
  p_juror_stake :: "address \<rightharpoonup> i128"
  p_dispute_voters :: "u64 \<rightharpoonup> address list"
  p_juror_commit :: "vote_key \<rightharpoonup> u8 list"
  p_juror_vote :: "vote_key \<rightharpoonup> bool"
  p_juror_slash_count :: "address \<rightharpoonup> u32"
  p_live_until :: "datakey \<Rightarrow> u32"
  events :: "tf_event list"
  world :: 'w

text \<open>The result of an entry point: its value with the new state, an error, or a panic.\<close>

type_synonym ('a, 'w) result = "('a \<times> 'w trustflow, trustflow_error) outcome"

text \<open>\<open>env.storage().persistent().has(key)\<close>: instance keys are not persistent entries.\<close>

fun has_key :: "'w trustflow \<Rightarrow> datakey \<Rightarrow> bool" where
  "has_key s (Escrow i) = (p_escrow s i \<noteq> None)"
| "has_key s (EscrowFeeConfig i) = (p_escrow_fee_config s i \<noteq> None)"
| "has_key s (EscrowReleased i) = (p_escrow_released s i \<noteq> None)"
| "has_key s (MilestoneReleased k) = (p_milestone_released s k \<noteq> None)"
| "has_key s (Dispute i) = (p_dispute s i \<noteq> None)"
| "has_key s (JurorStake j) = (p_juror_stake s j \<noteq> None)"
| "has_key s (DisputeVoters i) = (p_dispute_voters s i \<noteq> None)"
| "has_key s (JurorCommit k) = (p_juror_commit s k \<noteq> None)"
| "has_key s (JurorVote k) = (p_juror_vote s k \<noteq> None)"
| "has_key s (JurorSlashCount j) = (p_juror_slash_count s j \<noteq> None)"
| "has_key s _ = False"

text \<open>A write to a key that has no entry creates one, with the host's initial TTL.\<close>

definition touch :: "'w env \<Rightarrow> datakey \<Rightarrow> 'w trustflow \<Rightarrow> 'w trustflow" where
  "touch env k s = (if has_key s k then s
     else s\<lparr>p_live_until := (p_live_until s)(k := host_new_ttl env (sequence env))\<rparr>)"

definition set_escrow ::
    "'w env \<Rightarrow> u64 \<Rightarrow> escrow_record \<Rightarrow> 'w trustflow \<Rightarrow> 'w trustflow" where
  "set_escrow env i v s = (touch env (Escrow i) s)\<lparr>p_escrow := (p_escrow s)(i \<mapsto> v)\<rparr>"
definition set_escrow_fee_config ::
    "'w env \<Rightarrow> u64 \<Rightarrow> escrow_fee_config \<Rightarrow> 'w trustflow \<Rightarrow> 'w trustflow" where
  "set_escrow_fee_config env i v s =
     (touch env (EscrowFeeConfig i) s)\<lparr>p_escrow_fee_config := (p_escrow_fee_config s)(i \<mapsto> v)\<rparr>"
definition set_escrow_released ::
    "'w env \<Rightarrow> u64 \<Rightarrow> i128 \<Rightarrow> 'w trustflow \<Rightarrow> 'w trustflow" where
  "set_escrow_released env i v s =
     (touch env (EscrowReleased i) s)\<lparr>p_escrow_released := (p_escrow_released s)(i \<mapsto> v)\<rparr>"
definition set_milestone_released ::
    "'w env \<Rightarrow> milestone_key \<Rightarrow> i128 \<Rightarrow> 'w trustflow \<Rightarrow> 'w trustflow" where
  "set_milestone_released env k v s =
     (touch env (MilestoneReleased k) s)\<lparr>p_milestone_released := (p_milestone_released s)(k \<mapsto> v)\<rparr>"
definition set_dispute ::
    "'w env \<Rightarrow> u64 \<Rightarrow> dispute_record \<Rightarrow> 'w trustflow \<Rightarrow> 'w trustflow" where
  "set_dispute env i v s = (touch env (Dispute i) s)\<lparr>p_dispute := (p_dispute s)(i \<mapsto> v)\<rparr>"
definition set_juror_stake ::
    "'w env \<Rightarrow> address \<Rightarrow> i128 \<Rightarrow> 'w trustflow \<Rightarrow> 'w trustflow" where
  "set_juror_stake env j v s =
     (touch env (JurorStake j) s)\<lparr>p_juror_stake := (p_juror_stake s)(j \<mapsto> v)\<rparr>"
definition set_dispute_voters ::
    "'w env \<Rightarrow> u64 \<Rightarrow> address list \<Rightarrow> 'w trustflow \<Rightarrow> 'w trustflow" where
  "set_dispute_voters env i v s =
     (touch env (DisputeVoters i) s)\<lparr>p_dispute_voters := (p_dispute_voters s)(i \<mapsto> v)\<rparr>"
definition set_juror_commit ::
    "'w env \<Rightarrow> vote_key \<Rightarrow> u8 list \<Rightarrow> 'w trustflow \<Rightarrow> 'w trustflow" where
  "set_juror_commit env k v s =
     (touch env (JurorCommit k) s)\<lparr>p_juror_commit := (p_juror_commit s)(k \<mapsto> v)\<rparr>"
definition set_juror_vote ::
    "'w env \<Rightarrow> vote_key \<Rightarrow> bool \<Rightarrow> 'w trustflow \<Rightarrow> 'w trustflow" where
  "set_juror_vote env k v s =
     (touch env (JurorVote k) s)\<lparr>p_juror_vote := (p_juror_vote s)(k \<mapsto> v)\<rparr>"
definition set_juror_slash_count ::
    "'w env \<Rightarrow> address \<Rightarrow> u32 \<Rightarrow> 'w trustflow \<Rightarrow> 'w trustflow" where
  "set_juror_slash_count env j v s =
     (touch env (JurorSlashCount j) s)\<lparr>p_juror_slash_count := (p_juror_slash_count s)(j \<mapsto> v)\<rparr>"

definition publish :: "tf_event \<Rightarrow> 'w trustflow \<Rightarrow> 'w trustflow" where
  "publish ev s = s\<lparr>events := events s @ [ev]\<rparr>"

definition extend_instance_ttl :: "'w env \<Rightarrow> 'w trustflow \<Rightarrow> 'w trustflow" where
  "extend_instance_ttl env s = s\<lparr>i_live_until :=
     host_bump env INSTANCE_LIFETIME_THRESHOLD INSTANCE_BUMP_AMOUNT (sequence env) (i_live_until s)\<rparr>"

definition extend_persistent_ttl :: "'w env \<Rightarrow> datakey \<Rightarrow> 'w trustflow \<Rightarrow> 'w trustflow" where
  "extend_persistent_ttl env key s =
     (if has_key s key
      then s\<lparr>p_live_until := (p_live_until s)(key :=
             host_bump env PERSISTENT_LIFETIME_THRESHOLD PERSISTENT_BUMP_AMOUNT
               (sequence env) (p_live_until s key))\<rparr>
      else s)"

definition require_not_paused :: "'w trustflow \<Rightarrow> (unit, trustflow_error) outcome" where
  "require_not_paused s =
     (let paused = unwrap_or (i_paused s) False
      in if paused then Err ContractPausedError else Ok ())"

section \<open>What the primitives leave alone\<close>

text \<open>
  A TTL operation changes expiration ledgers only. Written as an update of that one field by
  a value that stays folded (\<open>touched\<close>, \<open>extended\<close>), its effect on every other field is
  computed by the record simplifier; the collection \<open>storage_defs\<close> unfolds all primitives
  to this form.
\<close>

named_theorems storage_defs \<open>the storage primitives as record updates\<close>

definition touched :: "'w env \<Rightarrow> datakey \<Rightarrow> 'w trustflow \<Rightarrow> datakey \<Rightarrow> u32" where
  "touched env k s = p_live_until (touch env k s)"

definition extended :: "'w env \<Rightarrow> datakey \<Rightarrow> 'w trustflow \<Rightarrow> datakey \<Rightarrow> u32" where
  "extended env k s = p_live_until (extend_persistent_ttl env k s)"

lemma touch_update [storage_defs]: "touch env k s = s\<lparr>p_live_until := touched env k s\<rparr>"
  by (simp add: touched_def touch_def)

lemma extend_persistent_ttl_update [storage_defs]:
  "extend_persistent_ttl env k s = s\<lparr>p_live_until := extended env k s\<rparr>"
  by (simp add: extended_def extend_persistent_ttl_def)

lemmas setter_defs [storage_defs] = set_escrow_def set_escrow_fee_config_def
  set_escrow_released_def set_milestone_released_def set_dispute_def set_juror_stake_def
  set_dispute_voters_def set_juror_commit_def set_juror_vote_def set_juror_slash_count_def
  publish_def extend_instance_ttl_def

lemma has_key_irrelevant [simp]:
  "has_key (s\<lparr>p_live_until := f\<rparr>) k = has_key s k"
  "has_key (s\<lparr>i_live_until := l\<rparr>) k = has_key s k"
  "has_key (s\<lparr>events := e\<rparr>) k = has_key s k"
  "has_key (s\<lparr>world := w\<rparr>) k = has_key s k"
  "has_key (s\<lparr>i_escrow_counter := c\<rparr>) k = has_key s k"
  by (cases k; simp)+

lemma require_not_paused_Ok [outcome_ok]:
  "require_not_paused s = Ok u \<longleftrightarrow> i_paused s \<noteq> Some True"
  by (cases "i_paused s") (auto simp: require_not_paused_def)

lemma require_not_paused_run [outcome_run]:
  "i_paused s = Some True \<Longrightarrow> require_not_paused s = Err ContractPausedError"
  "i_paused s \<noteq> Some True \<Longrightarrow> require_not_paused s = Ok ()"
  by (cases "i_paused s"; simp add: require_not_paused_def)+

text \<open>Two states that differ in expiration ledgers only.\<close>

definition ttl_only :: "'w trustflow \<Rightarrow> 'w trustflow \<Rightarrow> bool" where
  "ttl_only s t \<longleftrightarrow> (\<exists>il lu. t = s\<lparr>i_live_until := il, p_live_until := lu\<rparr>)"

lemma ttl_only_refl [simp]: "ttl_only s s"
proof -
  have "s = s\<lparr>i_live_until := i_live_until s, p_live_until := p_live_until s\<rparr>" by simp
  then show ?thesis unfolding ttl_only_def by blast
qed

lemma ttl_only_trans: "ttl_only s t \<Longrightarrow> ttl_only t u \<Longrightarrow> ttl_only s u"
  unfolding ttl_only_def by (elim exE) (simp, blast)

lemma ttl_only_extend [simp]:
  "ttl_only s (extend_instance_ttl env s)" "ttl_only s (extend_persistent_ttl env k s)"
proof -
  have "extend_instance_ttl env s = s\<lparr>i_live_until := i_live_until (extend_instance_ttl env s),
      p_live_until := p_live_until s\<rparr>" by (simp add: extend_instance_ttl_def)
  then show "ttl_only s (extend_instance_ttl env s)" unfolding ttl_only_def by blast
  have "extend_persistent_ttl env k s =
      s\<lparr>i_live_until := i_live_until s, p_live_until := extended env k s\<rparr>"
    by (simp add: extend_persistent_ttl_update)
  then show "ttl_only s (extend_persistent_ttl env k s)" unfolding ttl_only_def by blast
qed

lemma ttl_only_has_key: "ttl_only s t \<Longrightarrow> has_key t k = has_key s k"
  by (auto simp: ttl_only_def)

text \<open>
  Extending the TTL of an entry that exists, in a host that follows the TTL rule, makes it
  live at least 30 days on (up to the last ledger number).
\<close>

lemma extend_persistent_ttl_lives:
  assumes "ttl_host (host_bump env)" and "has_key s k"
  shows "uint (saturating_add (sequence env) PERSISTENT_LIFETIME_THRESHOLD)
     \<le> uint (p_live_until (extend_persistent_ttl env k s) k)"
  using assms by (simp add: extend_persistent_ttl_def ttl_host.bump_lives trustflow_constants)

lemma extend_persistent_ttl_mono:
  assumes "ttl_host (host_bump env)"
  shows "uint (p_live_until s k) \<le> uint (p_live_until (extend_persistent_ttl env k' s) k)"
  using assms by (simp add: extend_persistent_ttl_def ttl_host.bump_monotone)

end
