(* ===== verification/TrustFlow_Fee.thy ===== *)
theory TrustFlow_Fee
  imports TrustFlow_State
begin

text \<open>
  Fee arithmetic, the fee snapshot of a new escrow and the error-returning transfer of
  \<open>contracts/trustflow/src/lib.rs\<close>. The overflow-safe \<open>cumulative_fee\<close> is shown to compute
  the mathematical \<open>floor (amount * fee_bps / 10_000)\<close> and to fail exactly when that
  value is not an \<open>i128\<close>.
\<close>

section \<open>Definitions\<close>

definition cumulative_fee :: "i128 \<Rightarrow> u32 \<Rightarrow> (i128, trustflow_error) outcome" where
  "cumulative_fee amount fee_bps =
     (if amount = 0 then Ok 0
      else let fee_bps = uint fee_bps;
               quotient = amount sdiv BPS_DENOMINATOR;
               remainder = amount smod BPS_DENOMINATOR
           in ok_or (checked_mul quotient fee_bps) InvalidAmount (\<lambda>quotient_fee.
              ok_or (checked_mul remainder fee_bps) InvalidAmount (\<lambda>remainder_product.
              let remainder_fee = remainder_product sdiv BPS_DENOMINATOR
              in ok_or (checked_add quotient_fee remainder_fee) InvalidAmount Ok)))"

definition snapshot_fee_config ::
    "'w env \<Rightarrow> u64 \<Rightarrow> 'w trustflow \<Rightarrow> ('w trustflow, trustflow_error) outcome" where
  "snapshot_fee_config env escrow_id s =
     (let fee_bps = unwrap_or (i_fee_bps s) DEFAULT_FEE_BPS
      in unwrap (i_treasury s) (\<lambda>treasury.
         let s = set_escrow_fee_config env escrow_id
                   \<lparr>f_treasury = treasury, f_fee_bps = fee_bps\<rparr> s
         in Ok (extend_persistent_ttl env (EscrowFeeConfig escrow_id) s)))"

definition try_token_transfer ::
    "'w env \<Rightarrow> address \<Rightarrow> address \<Rightarrow> address \<Rightarrow> i128 \<Rightarrow> 'w trustflow
       \<Rightarrow> ('w trustflow, trustflow_error) outcome" where
  "try_token_transfer env token_address from to amount s =
     (if amount = 0 then Ok s
      else case token_transfer env token_address from to amount (world s) of
             Some w \<Rightarrow> Ok (s\<lparr>world := w\<rparr>)
           | None \<Rightarrow> Err TokenTransferFailed)"

section \<open>The fee function\<close>

text \<open>The exact fee, on unbounded integers.\<close>

definition exact_fee :: "int \<Rightarrow> int \<Rightarrow> int" where
  "exact_fee amount bps = amount * bps div 10000"

lemma exact_fee_split:
  "exact_fee amount bps = amount div 10000 * bps + amount mod 10000 * bps div 10000"
proof -
  have split: "(q * 10000 + r) * bps div 10000 = q * bps + r * bps div 10000" for q r :: int
  proof -
    have "(q * 10000 + r) * bps = r * bps + q * bps * 10000"
      by (simp add: algebra_simps)
    then show ?thesis by simp
  qed
  show ?thesis
    unfolding exact_fee_def using split [of "amount div 10000" "amount mod 10000"] by simp
qed

lemma exact_fee_nonneg: "0 \<le> amount \<Longrightarrow> 0 \<le> bps \<Longrightarrow> 0 \<le> exact_fee amount bps"
  by (simp add: exact_fee_def pos_imp_zdiv_nonneg_iff)

lemma exact_fee_mono: "a \<le> b \<Longrightarrow> 0 \<le> bps \<Longrightarrow> exact_fee a bps \<le> exact_fee b bps"
  unfolding exact_fee_def by (intro zdiv_mono1 mult_right_mono) auto

lemma exact_fee_0 [simp]: "exact_fee 0 bps = 0"
  by (simp add: exact_fee_def)

text \<open>A rate of at most 100 percent takes at most the amount, also on a difference.\<close>

lemma exact_fee_step:
  assumes "0 \<le> g" and "0 \<le> bps" and "bps \<le> 10000"
  shows "exact_fee (a + g) bps - exact_fee a bps \<le> g"
proof -
  have "(a + g) * bps \<le> a * bps + g * 10000"
    using assms by (simp add: distrib_right mult_left_mono)
  then have "(a + g) * bps div 10000 \<le> (a * bps + g * 10000) div 10000"
    by (rule zdiv_mono1) simp
  then show ?thesis by (simp add: exact_fee_def)
qed

lemma exact_fee_le: "0 \<le> a \<Longrightarrow> 0 \<le> bps \<Longrightarrow> bps \<le> 10000 \<Longrightarrow> exact_fee a bps \<le> a"
  using exact_fee_step [of a bps 0] by simp

lemma remainder_product_in_range: "in_i128 (amount mod 10000 * uint (bps :: u32))"
proof -
  have "amount mod 10000 * uint bps \<le> 9999 * 2 ^ 32"
    using uint_lt2p [of bps] by (intro mult_mono) auto
  moreover have "0 \<le> amount mod 10000 * uint bps"
    by (intro mult_nonneg_nonneg) auto
  moreover have "in_i128 (9999 * 2 ^ 32)" by (simp add: in_i128_def)
  ultimately show ?thesis using in_i128_mono by blast
qed

lemma cumulative_fee_eq:
  assumes "0 \<le> amount"
  shows "cumulative_fee amount bps =
    (if in_i128 (exact_fee amount (uint bps)) then Ok (exact_fee amount (uint bps))
     else Err InvalidAmount)"
proof (cases "amount = 0")
  case True
  then show ?thesis by (simp add: cumulative_fee_def)
next
  case False
  let ?q = "amount div 10000 * uint bps" and ?r = "amount mod 10000 * uint bps div 10000"
  have r: "0 \<le> ?r" by (simp add: pos_imp_zdiv_nonneg_iff)
  have q: "0 \<le> ?q" using assms by (simp add: pos_imp_zdiv_nonneg_iff)
  have fee: "exact_fee amount (uint bps) = ?q + ?r" by (rule exact_fee_split)
  have overflow: "in_i128 (?q + ?r) \<Longrightarrow> in_i128 ?q"
    using q r by (auto intro: in_i128_mono)
  have "cumulative_fee amount bps =
      ok_or (checked_mul (amount div 10000) (uint bps)) InvalidAmount (\<lambda>quotient_fee.
        ok_or (checked_add quotient_fee ?r) InvalidAmount Ok)"
    using False assms remainder_product_in_range [of amount bps]
    by (simp add: cumulative_fee_def BPS_DENOMINATOR_def sdiv_nonneg smod_nonneg checked_mul_def
        outcome_run Let_def)
  then show ?thesis
    using overflow by (auto simp: fee checked_mul_def checked_add_def outcome_run)
qed

lemma cumulative_fee_total:
  assumes "0 \<le> amount" and "in_i128 amount" and "uint bps \<le> 10000"
  shows "cumulative_fee amount bps = Ok (exact_fee amount (uint bps))"
proof -
  have "in_i128 (exact_fee amount (uint bps))"
    using assms by (intro in_i128_mono [OF assms(2)] exact_fee_nonneg exact_fee_le) auto
  then show ?thesis using assms by (simp add: cumulative_fee_eq)
qed

section \<open>Snapshot and transfer\<close>

lemma snapshot_fee_config_Ok [outcome_ok]:
  "snapshot_fee_config env i s = Ok s' \<longleftrightarrow>
     (\<exists>treasury. i_treasury s = Some treasury \<and>
        s' = extend_persistent_ttl env (EscrowFeeConfig i)
               (set_escrow_fee_config env i
                  \<lparr>f_treasury = treasury, f_fee_bps = unwrap_or (i_fee_bps s) DEFAULT_FEE_BPS\<rparr> s))"
  by (auto simp: snapshot_fee_config_def Let_def outcome_ok)

text \<open>A transfer that moves the amount, or is skipped when the amount is zero.\<close>

definition paid ::
    "'w env \<Rightarrow> address \<Rightarrow> address \<Rightarrow> address \<Rightarrow> i128 \<Rightarrow> 'w \<Rightarrow> 'w \<Rightarrow> bool" where
  "paid env token from to amount w w' \<longleftrightarrow>
     (if amount = 0 then w' = w else token_transfer env token from to amount w = Some w')"

lemma try_token_transfer_Ok [outcome_ok]:
  "try_token_transfer env t from to amount s = Ok s' \<longleftrightarrow>
     (\<exists>w. paid env t from to amount (world s) w \<and> s' = s\<lparr>world := w\<rparr>)"
  by (auto simp: try_token_transfer_def paid_def split: option.splits)

end
