(* ===== verification/TrustFlow_Admin.thy ===== *)
theory TrustFlow_Admin
  imports TrustFlow_Fee
begin

text \<open>
  Initialisation, the administrator's settings and the circuit breaker of
  \<open>contracts/trustflow/src/lib.rs\<close>: who may change what, and what each change leaves alone.
\<close>

section \<open>Entry points\<close>

definition initialize ::
    "'w env \<Rightarrow> address \<Rightarrow> address \<Rightarrow> u32 \<Rightarrow> 'w trustflow \<Rightarrow> (unit, 'w) result" where
  "initialize env admin token slash_bps s =
     require_auth env admin (
     if slash_bps > 10000 then Panic
     else let s = s\<lparr>i_admin := Some admin\<rparr>;
              s = s\<lparr>i_token := Some token\<rparr>;
              s = s\<lparr>i_slash_bps := Some slash_bps\<rparr>;
              s = s\<lparr>i_escrow_counter := Some 0\<rparr>;
              s = s\<lparr>i_fee_bps := Some DEFAULT_FEE_BPS\<rparr>;
              s = s\<lparr>i_treasury := Some admin\<rparr>
          in Ok ((), extend_instance_ttl env s))"

definition set_fee_bps :: "'w env \<Rightarrow> address \<Rightarrow> u32 \<Rightarrow> 'w trustflow \<Rightarrow> (unit, 'w) result" where
  "set_fee_bps env caller fee_bps s =
     require_auth env caller (
     let s = extend_instance_ttl env s
     in unwrap (i_admin s) (\<lambda>admin.
        if caller \<noteq> admin then Err Unauthorized
        else if fee_bps > MAX_FEE_BPS then Err InvalidFeeBps
        else Ok ((), s\<lparr>i_fee_bps := Some fee_bps\<rparr>)))"

definition get_fee_bps :: "'w trustflow \<Rightarrow> u32" where
  "get_fee_bps s = unwrap_or (i_fee_bps s) DEFAULT_FEE_BPS"

definition get_treasury :: "'w trustflow \<Rightarrow> (address, trustflow_error) outcome" where
  "get_treasury s = unwrap (i_treasury s) Ok"

definition set_treasury :: "'w env \<Rightarrow> address \<Rightarrow> address \<Rightarrow> 'w trustflow \<Rightarrow> (unit, 'w) result" where
  "set_treasury env caller treasury s =
     require_auth env caller (
     let s = extend_instance_ttl env s
     in unwrap (i_admin s) (\<lambda>admin.
        if caller \<noteq> admin then Err Unauthorized
        else Ok ((), s\<lparr>i_treasury := Some treasury\<rparr>)))"

definition set_pauser :: "'w env \<Rightarrow> address \<Rightarrow> address \<Rightarrow> 'w trustflow \<Rightarrow> (unit, 'w) result" where
  "set_pauser env caller pauser s =
     require_auth env caller (
     let s = extend_instance_ttl env s
     in unwrap (i_admin s) (\<lambda>admin.
        if caller \<noteq> admin then Err Unauthorized
        else let s = s\<lparr>i_pauser := Some pauser\<rparr>
             in Ok ((), publish (PauserSet caller pauser) s)))"

definition revoke_pauser :: "'w env \<Rightarrow> address \<Rightarrow> 'w trustflow \<Rightarrow> (unit, 'w) result" where
  "revoke_pauser env caller s =
     require_auth env caller (
     let s = extend_instance_ttl env s
     in unwrap (i_admin s) (\<lambda>admin.
        if caller \<noteq> admin then Err Unauthorized
        else let s = s\<lparr>i_pauser := None\<rparr>
             in Ok ((), publish (PauserRevoked caller) s)))"

definition get_pauser :: "'w trustflow \<Rightarrow> address option" where
  "get_pauser s = i_pauser s"

definition pause :: "'w env \<Rightarrow> address \<Rightarrow> 'w trustflow \<Rightarrow> (unit, 'w) result" where
  "pause env caller s =
     require_auth env caller (
     let s = extend_instance_ttl env s
     in unwrap (i_admin s) (\<lambda>admin.
        let pauser = i_pauser s;
            is_admin = (caller = admin);
            is_pauser = (case pauser of Some p \<Rightarrow> caller = p | None \<Rightarrow> False)
        in if \<not> is_admin \<and> \<not> is_pauser then Err Unauthorized
           else let currently_paused = unwrap_or (i_paused s) False
                in if \<not> currently_paused
                   then Ok ((), publish (ContractPaused caller) (s\<lparr>i_paused := Some True\<rparr>))
                   else Ok ((), s)))"

definition unpause :: "'w env \<Rightarrow> address \<Rightarrow> 'w trustflow \<Rightarrow> (unit, 'w) result" where
  "unpause env caller s =
     require_auth env caller (
     let s = extend_instance_ttl env s
     in unwrap (i_admin s) (\<lambda>admin.
        if caller \<noteq> admin then Err Unauthorized
        else let currently_paused = unwrap_or (i_paused s) False
             in if currently_paused
                then Ok ((), publish (ContractUnpaused caller) (s\<lparr>i_paused := Some False\<rparr>))
                else Ok ((), s)))"

definition is_paused :: "'w trustflow \<Rightarrow> bool" where
  "is_paused s = unwrap_or (i_paused s) False"

section \<open>What a successful call does\<close>

lemmas admin_defs = initialize_def set_fee_bps_def set_treasury_def set_pauser_def
  revoke_pauser_def pause_def unpause_def

lemma initialize_Ok:
  "initialize env admin token bps s = Ok (u, s') \<longleftrightarrow>
     authorized env admin \<and> bps \<le> 10000 \<and>
     s' = extend_instance_ttl env (s\<lparr>i_admin := Some admin, i_token := Some token,
       i_slash_bps := Some bps, i_escrow_counter := Some 0,
       i_fee_bps := Some DEFAULT_FEE_BPS, i_treasury := Some admin\<rparr>)"
  by (auto simp: initialize_def outcome_ok Let_def)

lemma set_fee_bps_Ok:
  "set_fee_bps env caller bps s = Ok (u, s') \<longleftrightarrow>
     authorized env caller \<and> i_admin s = Some caller \<and> bps \<le> MAX_FEE_BPS \<and>
     s' = (extend_instance_ttl env s)\<lparr>i_fee_bps := Some bps\<rparr>"
  by (auto simp: set_fee_bps_def outcome_ok Let_def extend_instance_ttl_def)

lemma set_treasury_Ok:
  "set_treasury env caller treasury s = Ok (u, s') \<longleftrightarrow>
     authorized env caller \<and> i_admin s = Some caller \<and>
     s' = (extend_instance_ttl env s)\<lparr>i_treasury := Some treasury\<rparr>"
  by (auto simp: set_treasury_def outcome_ok Let_def extend_instance_ttl_def)

lemma set_pauser_Ok:
  "set_pauser env caller pauser s = Ok (u, s') \<longleftrightarrow>
     authorized env caller \<and> i_admin s = Some caller \<and>
     s' = publish (PauserSet caller pauser) ((extend_instance_ttl env s)\<lparr>i_pauser := Some pauser\<rparr>)"
  by (auto simp: set_pauser_def outcome_ok Let_def extend_instance_ttl_def)

lemma revoke_pauser_Ok:
  "revoke_pauser env caller s = Ok (u, s') \<longleftrightarrow>
     authorized env caller \<and> i_admin s = Some caller \<and>
     s' = publish (PauserRevoked caller) ((extend_instance_ttl env s)\<lparr>i_pauser := None\<rparr>)"
  by (auto simp: revoke_pauser_def outcome_ok Let_def extend_instance_ttl_def)

lemma pause_Ok:
  "pause env caller s = Ok (u, s') \<longleftrightarrow>
     authorized env caller \<and> i_admin s \<noteq> None \<and>
     (i_admin s = Some caller \<or> i_pauser s = Some caller) \<and>
     s' = (if is_paused s then extend_instance_ttl env s
           else publish (ContractPaused caller) ((extend_instance_ttl env s)\<lparr>i_paused := Some True\<rparr>))"
  by (cases "i_pauser s") (auto simp: pause_def is_paused_def outcome_ok Let_def extend_instance_ttl_def)

lemma unpause_Ok:
  "unpause env caller s = Ok (u, s') \<longleftrightarrow>
     authorized env caller \<and> i_admin s = Some caller \<and>
     s' = (if is_paused s
           then publish (ContractUnpaused caller) ((extend_instance_ttl env s)\<lparr>i_paused := Some False\<rparr>)
           else extend_instance_ttl env s)"
  by (auto simp: unpause_def is_paused_def outcome_ok Let_def extend_instance_ttl_def)

lemmas admin_Ok = initialize_Ok set_fee_bps_Ok set_treasury_Ok set_pauser_Ok revoke_pauser_Ok
  pause_Ok unpause_Ok

end
