(* ===== verification/TrustFlow_Stake.thy ===== *)
theory TrustFlow_Stake
  imports TrustFlow_Admin
begin

text \<open>
  Juror staking of \<open>contracts/trustflow/src/lib.rs\<close>: deposits and withdrawals of stake, the
  read-only queries and the keeper's TTL maintenance of a juror's entries.
\<close>

section \<open>Entry points\<close>

definition stake :: "'w env \<Rightarrow> address \<Rightarrow> i128 \<Rightarrow> 'w trustflow \<Rightarrow> (unit, 'w) result" where
  "stake env juror amount s =
     require_auth env juror (
     let s = extend_instance_ttl env s
     in attempt (require_not_paused s) (\<lambda>_.
        if amount \<le> 0 then Err InvalidAmount
        else unwrap (i_token s) (\<lambda>token.
        unwrap (token_transfer env token juror (current_contract_address env) amount (world s)) (\<lambda>w.
        let s = s\<lparr>world := w\<rparr>;
            key = JurorStake juror;
            prev = unwrap_or (p_juror_stake s juror) 0
        in ok_or (checked_add prev amount) ArithmeticOverflow (\<lambda>new_total.
        let s = set_juror_stake env juror new_total s;
            s = extend_persistent_ttl env key s
        in Ok ((), publish (Staked juror amount new_total) s))))))"

definition unstake :: "'w env \<Rightarrow> address \<Rightarrow> i128 \<Rightarrow> 'w trustflow \<Rightarrow> (unit, 'w) result" where
  "unstake env juror amount s =
     require_auth env juror (
     let s = extend_instance_ttl env s
     in attempt (require_not_paused s) (\<lambda>_.
        let key = JurorStake juror;
            current = unwrap_or (p_juror_stake s juror) 0
        in if current < amount then Err InsufficientStake
           else unwrap (i_token s) (\<lambda>token.
           unwrap (token_transfer env token (current_contract_address env) juror amount (world s)) (\<lambda>w.
           let s = s\<lparr>world := w\<rparr>
           in ok_or (checked_sub current amount) ArithmeticOverflow (\<lambda>remaining.
              let s = set_juror_stake env juror remaining s;
                  s = extend_persistent_ttl env key s
              in Ok ((), publish (Unstaked juror amount remaining) s))))))"

definition get_stake :: "address \<Rightarrow> 'w trustflow \<Rightarrow> i128" where
  "get_stake juror s = unwrap_or (p_juror_stake s juror) 0"

definition get_slash_count :: "address \<Rightarrow> 'w trustflow \<Rightarrow> u32" where
  "get_slash_count juror s = unwrap_or (p_juror_slash_count s juror) 0"

definition bump_juror_stake_ttl :: "'w env \<Rightarrow> address \<Rightarrow> 'w trustflow \<Rightarrow> (u32, 'w) result" where
  "bump_juror_stake_ttl env juror s =
     (let stake_key = JurorStake juror
      in if \<not> has_key s stake_key then Err JurorStakeNotFound
         else let s = extend_instance_ttl env s;
                  s = extend_persistent_ttl env stake_key s;
                  s = extend_persistent_ttl env (JurorSlashCount juror) s;
                  live_until_ledger = saturating_add (sequence env) PERSISTENT_BUMP_AMOUNT
              in Ok (live_until_ledger, publish (JurorStakeTtlBumped juror live_until_ledger) s))"

section \<open>What a successful call does\<close>

lemma stake_Ok:
  assumes "stake env juror amount s = Ok (u, s')"
  obtains token w il lu where "authorized env juror" and "i_paused s \<noteq> Some True" and "0 < amount"
    and "i_token s = Some token"
    and "token_transfer env token juror (current_contract_address env) amount (world s) = Some w"
    and "in_i128 (get_stake juror s + amount)"
    and "s' = s\<lparr>i_live_until := il, world := w,
           p_juror_stake := (p_juror_stake s)(juror \<mapsto> get_stake juror s + amount),
           p_live_until := lu,
           events := events s @ [Staked juror amount (get_stake juror s + amount)]\<rparr>"
  using assms
  by (auto simp: stake_def outcome_ok Let_def checked_simps storage_defs get_stake_def)

lemma unstake_Ok:
  assumes "unstake env juror amount s = Ok (u, s')"
  obtains token w il lu where "authorized env juror" and "i_paused s \<noteq> Some True"
    and "amount \<le> get_stake juror s" and "i_token s = Some token"
    and "token_transfer env token (current_contract_address env) juror amount (world s) = Some w"
    and "in_i128 (get_stake juror s - amount)"
    and "s' = s\<lparr>i_live_until := il, world := w,
           p_juror_stake := (p_juror_stake s)(juror \<mapsto> get_stake juror s - amount),
           p_live_until := lu,
           events := events s @ [Unstaked juror amount (get_stake juror s - amount)]\<rparr>"
  using assms
  by (auto simp: unstake_def outcome_ok Let_def checked_simps storage_defs get_stake_def)

lemma bump_juror_stake_ttl_Ok:
  assumes "bump_juror_stake_ttl env juror s = Ok (l, s')"
  obtains il lu where "p_juror_stake s juror \<noteq> None"
    and "l = saturating_add (sequence env) PERSISTENT_BUMP_AMOUNT"
    and "s' = s\<lparr>i_live_until := il, p_live_until := lu,
           events := events s @ [JurorStakeTtlBumped juror l]\<rparr>"
  using assms
  by (auto simp: bump_juror_stake_ttl_def Let_def storage_defs split: if_splits)

end
