(* ===== verification/TrustFlow_Escrow.thy ===== *)
theory TrustFlow_Escrow
  imports TrustFlow_Stake
begin

text \<open>
  The escrow lifecycle of \<open>contracts/trustflow/src/lib.rs\<close>: creating an escrow, plain or with
  milestones, and releasing a milestone in tranches with the fee split to the treasury.
\<close>

section \<open>Vectors\<close>

text \<open>\<open>Vec::get\<close> with a \<open>u32\<close> index; \<open>Vec::set\<close> is only called on an index that \<open>get\<close>
  has found.\<close>

definition vec_get :: "'a list \<Rightarrow> u32 \<Rightarrow> 'a option" where
  "vec_get xs i = (if unat i < length xs then Some (xs ! unat i) else None)"

definition vec_set :: "'a list \<Rightarrow> u32 \<Rightarrow> 'a \<Rightarrow> 'a list" where
  "vec_set xs i x = xs[unat i := x]"

lemma vec_get_Some: "vec_get xs i = Some x \<longleftrightarrow> unat i < length xs \<and> x = xs ! unat i"
  by (auto simp: vec_get_def)

section \<open>Entry points\<close>

definition create_escrow ::
    "'w env \<Rightarrow> address \<Rightarrow> address \<Rightarrow> i128 \<Rightarrow> 'w trustflow \<Rightarrow> (u64, 'w) result" where
  "create_escrow env depositor beneficiary amount s =
     require_auth env depositor (
     let s = extend_instance_ttl env s
     in attempt (require_not_paused s) (\<lambda>_.
        if amount \<le> 0 then Err InvalidAmount
        else unwrap (i_token s) (\<lambda>token.
        unwrap (token_transfer env token depositor (current_contract_address env) amount (world s)) (\<lambda>w.
        let s = s\<lparr>world := w\<rparr>;
            counter = unwrap_or (i_escrow_counter s) 0
        in ok_or (checked_add_word counter 1) ArithmeticOverflow (\<lambda>id.
        let s = s\<lparr>i_escrow_counter := Some id\<rparr>;
            escrow_key = Escrow id;
            s = set_escrow env id
                  \<lparr>e_id = id, e_depositor = depositor, e_beneficiary = beneficiary,
                   e_amount = amount, e_status = Active, e_milestones = []\<rparr> s;
            s = extend_persistent_ttl env escrow_key s
        in attempt (snapshot_fee_config env id s) (\<lambda>s. Ok (id, s)))))))"

text \<open>The loop over the milestones: each amount positive, their sum without overflow.\<close>

fun milestones_total :: "milestone list \<Rightarrow> i128 \<Rightarrow> (i128, trustflow_error) outcome" where
  "milestones_total [] total_amount = Ok total_amount"
| "milestones_total (m # ms) total_amount =
     (if m_amount m \<le> 0 then Err InvalidAmount
      else ok_or (checked_add total_amount (m_amount m)) ArithmeticOverflow (\<lambda>total_amount.
           milestones_total ms total_amount))"

definition init_escrow ::
    "'w env \<Rightarrow> address \<Rightarrow> address \<Rightarrow> milestone list \<Rightarrow> 'w trustflow \<Rightarrow> (u64, 'w) result" where
  "init_escrow env depositor beneficiary milestones s =
     require_auth env depositor (
     let s = extend_instance_ttl env s
     in attempt (require_not_paused s) (\<lambda>_.
        attempt (milestones_total milestones 0) (\<lambda>total_amount.
        if total_amount \<le> 0 then Err InvalidAmount
        else unwrap (i_token s) (\<lambda>token.
        unwrap (token_transfer env token depositor (current_contract_address env) total_amount (world s)) (\<lambda>w.
        let s = s\<lparr>world := w\<rparr>;
            counter = unwrap_or (i_escrow_counter s) 0
        in ok_or (checked_add_word counter 1) ArithmeticOverflow (\<lambda>id.
        let s = s\<lparr>i_escrow_counter := Some id\<rparr>;
            escrow_key = Escrow id;
            s = set_escrow env id
                  \<lparr>e_id = id, e_depositor = depositor, e_beneficiary = beneficiary,
                   e_amount = total_amount, e_status = Active, e_milestones = milestones\<rparr> s;
            s = extend_persistent_ttl env escrow_key s
        in attempt (snapshot_fee_config env id s) (\<lambda>s.
           Ok (id, publish (EscrowInitialized id depositor beneficiary total_amount) s))))))))"

definition release_milestone_tranche ::
    "'w env \<Rightarrow> u64 \<Rightarrow> u32 \<Rightarrow> i128 \<Rightarrow> address \<Rightarrow> 'w trustflow \<Rightarrow> (unit, 'w) result" where
  "release_milestone_tranche env escrow_id milestone_index gross_amount caller s =
     require_auth env caller (
     let s = extend_instance_ttl env s
     in attempt (require_not_paused s) (\<lambda>_.
     if gross_amount \<le> 0 then Err InvalidAmount
     else ok_or (p_escrow s escrow_id) EscrowNotFound (\<lambda>escrow.
     if caller \<noteq> e_depositor escrow then Err Unauthorized
     else if e_status escrow \<noteq> Active then Err InvalidState
     else ok_or (vec_get (e_milestones escrow) milestone_index) MilestoneNotFound (\<lambda>milestone.
     let current_ledger = sequence env
     in if current_ledger < m_release_time milestone then Err MilestoneTimeLocked
     else
     let milestone_key = \<lparr>k_escrow_id = escrow_id, k_milestone_index = milestone_index\<rparr>;
         milestone_released_before = unwrap_or (p_milestone_released s milestone_key) 0
     in ok_or (checked_add milestone_released_before gross_amount) InvalidAmount (\<lambda>milestone_released_after.
     if milestone_released_after > m_amount milestone then Err MilestoneAmountMismatch
     else
     let escrow_released_before = unwrap_or (p_escrow_released s escrow_id) 0
     in ok_or (checked_add escrow_released_before gross_amount) InvalidAmount (\<lambda>escrow_released_after.
     if escrow_released_after > e_amount escrow then Err MilestoneAmountMismatch
     else ok_or (p_escrow_fee_config s escrow_id) EscrowNotFound (\<lambda>fee_config.
     let s = extend_persistent_ttl env (EscrowFeeConfig escrow_id) s
     in attempt (cumulative_fee escrow_released_before (f_fee_bps fee_config)) (\<lambda>fee_before.
     attempt (cumulative_fee escrow_released_after (f_fee_bps fee_config)) (\<lambda>fee_after.
     ok_or (checked_sub fee_after fee_before) InvalidAmount (\<lambda>treasury_fee.
     ok_or (checked_sub gross_amount treasury_fee) InvalidAmount (\<lambda>beneficiary_payout.
     let milestone = milestone\<lparr>m_approved := True\<rparr>;
         escrow = escrow\<lparr>e_milestones := vec_set (e_milestones escrow) milestone_index milestone\<rparr>;
         escrow = (if escrow_released_after = e_amount escrow
                   then escrow\<lparr>e_status := Settled\<rparr> else escrow);
         s = set_escrow env escrow_id escrow s;
         s = extend_persistent_ttl env (Escrow escrow_id) s;
         s = set_milestone_released env milestone_key milestone_released_after s;
         s = extend_persistent_ttl env (MilestoneReleased milestone_key) s;
         s = set_escrow_released env escrow_id escrow_released_after s;
         s = extend_persistent_ttl env (EscrowReleased escrow_id) s
     in unwrap (i_token s) (\<lambda>token.
     let contract_address = current_contract_address env
     in attempt (try_token_transfer env token contract_address (e_beneficiary escrow)
                   beneficiary_payout s) (\<lambda>s.
     attempt (try_token_transfer env token contract_address (f_treasury fee_config)
                   treasury_fee s) (\<lambda>s.
     Ok ((), publish (MilestoneTrancheReleased escrow_id milestone_index gross_amount treasury_fee
                beneficiary_payout milestone_released_after escrow_released_after
                (e_beneficiary escrow) (f_treasury fee_config)) s)))))))))))))))"

section \<open>Reading the accounting\<close>

definition released :: "u64 \<Rightarrow> 'w trustflow \<Rightarrow> i128" where
  "released i s = unwrap_or (p_escrow_released s i) 0"

definition m_released :: "u64 \<Rightarrow> u32 \<Rightarrow> 'w trustflow \<Rightarrow> i128" where
  "m_released i k s =
     unwrap_or (p_milestone_released s \<lparr>k_escrow_id = i, k_milestone_index = k\<rparr>) 0"

definition escrow_count :: "'w trustflow \<Rightarrow> u64" where
  "escrow_count s = unwrap_or (i_escrow_counter s) 0"

section \<open>What a successful call does\<close>

lemma milestones_total_Ok:
  "milestones_total ms t = Ok tot \<Longrightarrow>
     tot = t + (\<Sum>m\<leftarrow>ms. m_amount m) \<and> (\<forall>m\<in>set ms. 0 < m_amount m) \<and> (ms \<noteq> [] \<longrightarrow> in_i128 tot)"
proof (induction ms arbitrary: t)
  case Nil
  then show ?case by simp
next
  case (Cons m ms)
  from Cons.prems have pos: "0 < m_amount m" and range: "in_i128 (t + m_amount m)"
    and rest: "milestones_total ms (t + m_amount m) = Ok tot"
    by (auto simp: outcome_ok checked_simps split: if_splits)
  from Cons.IH [OF rest] pos range show ?case
    by (cases "ms = []") (auto simp: add.assoc)
qed

lemma create_escrow_Ok:
  assumes "create_escrow env depositor beneficiary amount s = Ok (i, s')"
  obtains token w treasury il lu where "authorized env depositor" and "i_paused s \<noteq> Some True"
    and "0 < amount" and "i_token s = Some token"
    and "token_transfer env token depositor (current_contract_address env) amount (world s) = Some w"
    and "checked_add_word (escrow_count s) 1 = Some i"
    and "i_treasury s = Some treasury"
    and "s' = s\<lparr>i_live_until := il, world := w, i_escrow_counter := Some i,
           p_escrow := (p_escrow s)(i \<mapsto>
             \<lparr>e_id = i, e_depositor = depositor, e_beneficiary = beneficiary,
              e_amount = amount, e_status = Active, e_milestones = []\<rparr>),
           p_escrow_fee_config := (p_escrow_fee_config s)(i \<mapsto>
             \<lparr>f_treasury = treasury, f_fee_bps = get_fee_bps s\<rparr>),
           p_live_until := lu\<rparr>"
  using assms
  by (auto simp: create_escrow_def outcome_ok Let_def storage_defs
      escrow_count_def get_fee_bps_def)

lemma init_escrow_Ok:
  assumes "init_escrow env depositor beneficiary milestones s = Ok (i, s')"
  shows "\<exists>tot token w treasury il lu. authorized env depositor \<and> i_paused s \<noteq> Some True
    \<and> milestones_total milestones 0 = Ok tot \<and> 0 < tot \<and> i_token s = Some token
    \<and> token_transfer env token depositor (current_contract_address env) tot (world s) = Some w
    \<and> checked_add_word (escrow_count s) 1 = Some i
    \<and> i_treasury s = Some treasury
    \<and> s' = s\<lparr>i_live_until := il, world := w, i_escrow_counter := Some i,
           p_escrow := (p_escrow s)(i \<mapsto>
             \<lparr>e_id = i, e_depositor = depositor, e_beneficiary = beneficiary,
              e_amount = tot, e_status = Active, e_milestones = milestones\<rparr>),
           p_escrow_fee_config := (p_escrow_fee_config s)(i \<mapsto>
             \<lparr>f_treasury = treasury, f_fee_bps = get_fee_bps s\<rparr>),
           p_live_until := lu,
           events := events s @ [EscrowInitialized i depositor beneficiary tot]\<rparr>"
  by (insert assms, simp add: init_escrow_def outcome_ok Let_def, elim exE conjE, hypsubst,
      simp add: storage_defs escrow_count_def get_fee_bps_def, intro exI, rule refl)

text \<open>The escrow record after a release.\<close>

definition escrow_after_release ::
    "escrow_record \<Rightarrow> u32 \<Rightarrow> milestone \<Rightarrow> i128 \<Rightarrow> escrow_record" where
  "escrow_after_release escrow k m after =
     escrow\<lparr>e_milestones := vec_set (e_milestones escrow) k (m\<lparr>m_approved := True\<rparr>),
            e_status := (if after = e_amount escrow then Settled else e_status escrow)\<rparr>"

lemma escrow_after_release_fold:
  "(if after = e_amount escrow
    then escrow\<lparr>e_milestones := vec_set (e_milestones escrow) k (m\<lparr>m_approved := True\<rparr>), e_status := Settled\<rparr>
    else escrow\<lparr>e_milestones := vec_set (e_milestones escrow) k (m\<lparr>m_approved := True\<rparr>)\<rparr>) =
   escrow_after_release escrow k m after"
  by (simp add: escrow_after_release_def)

lemma escrow_after_release_beneficiary [simp]:
  "e_beneficiary (escrow_after_release escrow k m after) = e_beneficiary escrow"
  by (simp add: escrow_after_release_def)

lemma release_Ok:
  assumes "release_milestone_tranche env i k gross caller s = Ok (u, s')"
  shows "\<exists>escrow m cfg fb fa token w1 w2 il lu.
      authorized env caller \<and> i_paused s \<noteq> Some True \<and> 0 < gross
    \<and> p_escrow s i = Some escrow \<and> caller = e_depositor escrow \<and> e_status escrow = Active
    \<and> vec_get (e_milestones escrow) k = Some m \<and> m_release_time m \<le> sequence env
    \<and> m_released i k s + gross \<le> m_amount m \<and> released i s + gross \<le> e_amount escrow
    \<and> in_i128 (m_released i k s + gross) \<and> in_i128 (released i s + gross)
    \<and> p_escrow_fee_config s i = Some cfg
    \<and> cumulative_fee (released i s) (f_fee_bps cfg) = Ok fb
    \<and> cumulative_fee (released i s + gross) (f_fee_bps cfg) = Ok fa
    \<and> i_token s = Some token
    \<and> paid env token (current_contract_address env) (e_beneficiary escrow) (gross - (fa - fb)) (world s) w1
    \<and> paid env token (current_contract_address env) (f_treasury cfg) (fa - fb) w1 w2
    \<and> s' = s\<lparr>i_live_until := il,
           p_escrow := (p_escrow s)(i \<mapsto> escrow_after_release escrow k m (released i s + gross)),
           p_milestone_released := (p_milestone_released s)
             (\<lparr>k_escrow_id = i, k_milestone_index = k\<rparr> \<mapsto> m_released i k s + gross),
           p_escrow_released := (p_escrow_released s)(i \<mapsto> released i s + gross),
           p_live_until := lu, world := w2,
           events := events s @ [MilestoneTrancheReleased i k gross (fa - fb) (gross - (fa - fb))
             (m_released i k s + gross) (released i s + gross) (e_beneficiary escrow) (f_treasury cfg)]\<rparr>"
  apply (insert assms)
  apply (simp add: release_milestone_tranche_def outcome_ok Let_def checked_simps
      escrow_after_release_fold split del: if_split)
  apply (elim exE conjE)
  apply hypsubst
  apply (simp add: storage_defs released_def m_released_def not_less split del: if_split)
  apply (intro exI conjI)
  apply assumption+
  apply (rule refl)
done

end
