(* ===== verification/TrustFlow_Dispute.thy ===== *)
theory TrustFlow_Dispute
  imports TrustFlow_Escrow
begin

text \<open>
  Dispute resolution of \<open>contracts/trustflow/src/lib.rs\<close>: raising a dispute, the two phases of
  commit-reveal voting, and the resolution with its tally, the slashing of the minority and
  the settlement of what the escrow still holds.
\<close>

section \<open>Raising a dispute\<close>

definition raise_dispute ::
    "'w env \<Rightarrow> u64 \<Rightarrow> address \<Rightarrow> string \<Rightarrow> 'w trustflow \<Rightarrow> (unit, 'w) result" where
  "raise_dispute env escrow_id caller reason s =
     require_auth env caller (
     let s = extend_instance_ttl env s
     in attempt (require_not_paused s) (\<lambda>_.
     ok_or (p_escrow s escrow_id) EscrowNotFound (\<lambda>escrow.
     if e_status escrow \<noteq> Active then Err InvalidState
     else if caller \<noteq> e_depositor escrow \<and> caller \<noteq> e_beneficiary escrow then Err Unauthorized
     else
     let escrow = escrow\<lparr>e_status := Disputed\<rparr>;
         s = set_escrow env escrow_id escrow s;
         s = extend_persistent_ttl env (Escrow escrow_id) s;
         s = extend_persistent_ttl env (EscrowReleased escrow_id) s;
         now = sequence env;
         commit_deadline = saturating_add now COMMIT_WINDOW_LEDGERS;
         reveal_deadline = saturating_add commit_deadline REVEAL_WINDOW_LEDGERS;
         s = set_dispute env escrow_id
               \<lparr>d_escrow_id = escrow_id, d_raised_by = caller, d_reason = reason,
                d_resolved = False, d_ruling_for_depositor = False,
                d_commit_deadline = commit_deadline, d_reveal_deadline = reveal_deadline\<rparr> s
     in Ok ((), extend_persistent_ttl env (Dispute escrow_id) s))))"

section \<open>Commit and reveal\<close>

text \<open>The preimage of a commitment: the vote byte, then the 32 bytes of the salt.\<close>

definition hash_vote :: "'w env \<Rightarrow> bool \<Rightarrow> u8 list \<Rightarrow> u8 list" where
  "hash_vote env vote_for_depositor salt =
     (let preimage = [if vote_for_depositor then 1 else 0];
          preimage = preimage @ salt
      in sha256 env preimage)"

definition commit_vote ::
    "'w env \<Rightarrow> u64 \<Rightarrow> address \<Rightarrow> u8 list \<Rightarrow> 'w trustflow \<Rightarrow> (unit, 'w) result" where
  "commit_vote env escrow_id juror commitment s =
     require_auth env juror (
     let s = extend_instance_ttl env s
     in attempt (require_not_paused s) (\<lambda>_.
     let juror_stake = unwrap_or (p_juror_stake s juror) 0
     in if juror_stake \<le> 0 then Err InsufficientStake
     else ok_or (p_dispute s escrow_id) DisputeNotFound (\<lambda>dispute.
     if d_resolved dispute then Err DisputeAlreadyResolved
     else if sequence env \<ge> d_commit_deadline dispute then Err CommitPhaseEnded
     else
     let commit_key = \<lparr>v_escrow_id = escrow_id, v_juror = juror\<rparr>
     in if has_key s (JurorCommit commit_key) then Err AlreadyCommitted
     else
     let s = set_juror_commit env commit_key commitment s;
         s = extend_persistent_ttl env (JurorCommit commit_key) s;
         s = extend_persistent_ttl env (Dispute escrow_id) s
     in Ok ((), publish (VoteCommitted escrow_id juror) s))))"

definition reveal_vote ::
    "'w env \<Rightarrow> u64 \<Rightarrow> address \<Rightarrow> bool \<Rightarrow> u8 list \<Rightarrow> 'w trustflow \<Rightarrow> (unit, 'w) result" where
  "reveal_vote env escrow_id juror vote_for_depositor salt s =
     require_auth env juror (
     let s = extend_instance_ttl env s
     in attempt (require_not_paused s) (\<lambda>_.
     ok_or (p_dispute s escrow_id) DisputeNotFound (\<lambda>dispute.
     if d_resolved dispute then Err DisputeAlreadyResolved
     else
     let now = sequence env
     in if now < d_commit_deadline dispute \<or> now \<ge> d_reveal_deadline dispute
        then Err RevealPhaseNotOpen
     else
     let vote_key = \<lparr>v_escrow_id = escrow_id, v_juror = juror\<rparr>
     in if has_key s (JurorVote vote_key) then Err AlreadyVoted
     else
     let commit_key = \<lparr>v_escrow_id = escrow_id, v_juror = juror\<rparr>
     in ok_or (p_juror_commit s commit_key) NoCommitFound (\<lambda>commitment.
     if hash_vote env vote_for_depositor salt \<noteq> commitment then Err InvalidReveal
     else
     let s = set_juror_vote env vote_key vote_for_depositor s;
         s = extend_persistent_ttl env (JurorVote vote_key) s;
         s = s\<lparr>p_juror_commit := (p_juror_commit s)(commit_key := None)\<rparr>;
         voters = unwrap_or (p_dispute_voters s escrow_id) [];
         voters = voters @ [juror];
         s = set_dispute_voters env escrow_id voters s;
         s = extend_persistent_ttl env (DisputeVoters escrow_id) s;
         s = extend_persistent_ttl env (Dispute escrow_id) s
     in Ok ((), publish (VoteRevealed escrow_id juror vote_for_depositor) s)))))"

section \<open>Resolution\<close>

definition vote_of :: "'w trustflow \<Rightarrow> u64 \<Rightarrow> address \<Rightarrow> bool" where
  "vote_of s escrow_id juror =
     unwrap_or (p_juror_vote s \<lparr>v_escrow_id = escrow_id, v_juror = juror\<rparr>) False"

text \<open>The tally loop: two checked \<open>u32\<close> counters.\<close>

fun tally ::
    "'w trustflow \<Rightarrow> u64 \<Rightarrow> address list \<Rightarrow> u32 \<Rightarrow> u32 \<Rightarrow> (u32 \<times> u32, trustflow_error) outcome" where
  "tally s escrow_id [] for_depositor for_beneficiary = Ok (for_depositor, for_beneficiary)"
| "tally s escrow_id (voter # voters) for_depositor for_beneficiary =
     (if vote_of s escrow_id voter
      then ok_or (checked_add_word for_depositor 1) ArithmeticOverflow (\<lambda>for_depositor.
           tally s escrow_id voters for_depositor for_beneficiary)
      else ok_or (checked_add_word for_beneficiary 1) ArithmeticOverflow (\<lambda>for_beneficiary.
           tally s escrow_id voters for_depositor for_beneficiary))"

definition or_else :: "'a option \<Rightarrow> 'a option \<Rightarrow> 'a option" where
  "or_else x y = (case x of Some v \<Rightarrow> Some v | None \<Rightarrow> y)"

text \<open>The slash amount: \<open>i128\<close> product, else \<open>u128\<close> product, else division first.\<close>

definition slash_amount :: "i128 \<Rightarrow> u32 \<Rightarrow> i128" where
  "slash_amount juror_stake slash_bps =
     (let stake_u128 = as_u128 juror_stake;
          bps_u128 = uint slash_bps;
          fast = map_option as_u128
                   (Option.bind (checked_mul juror_stake (uint slash_bps)) (\<lambda>v. checked_div v 10000));
          wide = Option.bind (checked_mul_u128 stake_u128 bps_u128) (\<lambda>v. checked_div_u128 v 10000);
          divide_first = map_option (\<lambda>q. saturating_mul_u128 q bps_u128)
                           (checked_div_u128 stake_u128 10000);
          slash_u128 = min (unwrap_or (or_else fast (or_else wide divide_first)) stake_u128) stake_u128
      in as_i128 slash_u128)"

text \<open>The slash loop: one iteration, then the loop over the voters.\<close>

definition slash_voter ::
    "'w env \<Rightarrow> u64 \<Rightarrow> bool \<Rightarrow> u32 \<Rightarrow> address \<Rightarrow> 'w trustflow \<Rightarrow> ('w trustflow, trustflow_error) outcome" where
  "slash_voter env escrow_id ruling slash_bps voter s =
     (let vote = vote_of s escrow_id voter
      in if vote \<noteq> ruling
         then let stake_key = JurorStake voter;
                  juror_stake = unwrap_or (p_juror_stake s voter) 0;
                  slash = slash_amount juror_stake slash_bps
              in ok_or (checked_sub juror_stake slash) ArithmeticOverflow (\<lambda>remaining_stake.
                 let s = set_juror_stake env voter remaining_stake s;
                     s = extend_persistent_ttl env stake_key s;
                     slash_count_key = JurorSlashCount voter;
                     count = unwrap_or (p_juror_slash_count s voter) 0
                 in ok_or (checked_add_word count 1) ArithmeticOverflow (\<lambda>new_count.
                    let s = set_juror_slash_count env voter new_count s;
                        s = extend_persistent_ttl env slash_count_key s
                    in Ok (publish (JurorSlashed escrow_id voter slash remaining_stake new_count) s)))
         else Ok s)"

fun slash_voters ::
    "'w env \<Rightarrow> u64 \<Rightarrow> bool \<Rightarrow> u32 \<Rightarrow> address list \<Rightarrow> 'w trustflow \<Rightarrow> ('w trustflow, trustflow_error) outcome" where
  "slash_voters env escrow_id ruling slash_bps [] s = Ok s"
| "slash_voters env escrow_id ruling slash_bps (voter # voters) s =
     attempt (slash_voter env escrow_id ruling slash_bps voter s) (\<lambda>s.
       slash_voters env escrow_id ruling slash_bps voters s)"

text \<open>The settlement of the escrow at the end of the resolution.\<close>

definition settle_escrow ::
    "'w env \<Rightarrow> u64 \<Rightarrow> bool \<Rightarrow> 'w trustflow \<Rightarrow> ('w trustflow, trustflow_error) outcome" where
  "settle_escrow env escrow_id ruling s =
     ok_or (p_escrow s escrow_id) EscrowNotFound (\<lambda>escrow.
     unwrap (i_token s) (\<lambda>token.
     let released = unwrap_or (p_escrow_released s escrow_id) 0
     in ok_or (checked_sub (e_amount escrow) released) ArithmeticOverflow (\<lambda>remaining.
     let recipient = (if ruling then e_depositor escrow else e_beneficiary escrow)
     in unwrap (if remaining > 0
                then token_transfer env token (current_contract_address env) recipient remaining (world s)
                else Some (world s)) (\<lambda>w.
     let s = s\<lparr>world := w\<rparr>;
         escrow = escrow\<lparr>e_status := Settled\<rparr>;
         s = set_escrow env escrow_id escrow s
     in Ok (extend_persistent_ttl env (Escrow escrow_id) s)))))"

definition resolve_dispute :: "'w env \<Rightarrow> u64 \<Rightarrow> 'w trustflow \<Rightarrow> (bool, 'w) result" where
  "resolve_dispute env escrow_id s =
     (let s = extend_instance_ttl env s
      in attempt (require_not_paused s) (\<lambda>_.
      ok_or (p_dispute s escrow_id) DisputeNotFound (\<lambda>dispute.
      if d_resolved dispute then Err DisputeAlreadyResolved
      else if sequence env < d_reveal_deadline dispute then Err RevealPhaseNotEnded
      else
      let voters = unwrap_or (p_dispute_voters s escrow_id) []
      in if voters = [] then Err NoVotesCast
      else attempt (tally s escrow_id voters 0 0) (\<lambda>(for_depositor, for_beneficiary).
      let ruling = (for_depositor \<ge> for_beneficiary);
          slash_bps = unwrap_or (i_slash_bps s) DEFAULT_SLASH_BPS
      in attempt (slash_voters env escrow_id ruling slash_bps voters s) (\<lambda>s.
      let dispute = dispute\<lparr>d_resolved := True, d_ruling_for_depositor := ruling\<rparr>;
          s = set_dispute env escrow_id dispute s;
          s = extend_persistent_ttl env (Dispute escrow_id) s
      in attempt (settle_escrow env escrow_id ruling s) (\<lambda>s. Ok (ruling, s)))))))"

section \<open>What a successful call does\<close>

lemma raise_dispute_Ok:
  assumes "raise_dispute env i caller reason s = Ok (u, s')"
  shows "\<exists>escrow il lu. authorized env caller \<and> i_paused s \<noteq> Some True
    \<and> p_escrow s i = Some escrow \<and> e_status escrow = Active
    \<and> (caller = e_depositor escrow \<or> caller = e_beneficiary escrow)
    \<and> s' = s\<lparr>i_live_until := il,
           p_escrow := (p_escrow s)(i \<mapsto> escrow\<lparr>e_status := Disputed\<rparr>),
           p_dispute := (p_dispute s)(i \<mapsto>
             \<lparr>d_escrow_id = i, d_raised_by = caller, d_reason = reason, d_resolved = False,
              d_ruling_for_depositor = False,
              d_commit_deadline = saturating_add (sequence env) COMMIT_WINDOW_LEDGERS,
              d_reveal_deadline = saturating_add
                (saturating_add (sequence env) COMMIT_WINDOW_LEDGERS) REVEAL_WINDOW_LEDGERS\<rparr>),
           p_live_until := lu\<rparr>"
  apply (insert assms)
  apply (simp add: raise_dispute_def outcome_ok Let_def)
  apply (elim exE conjE)
  apply hypsubst
  apply (simp add: storage_defs)
  apply (intro exI conjI)
  apply (rule refl | blast)+
  done

lemma commit_vote_Ok:
  assumes "commit_vote env i juror commitment s = Ok (u, s')"
  shows "\<exists>dispute il lu. authorized env juror \<and> i_paused s \<noteq> Some True
    \<and> 0 < get_stake juror s
    \<and> p_dispute s i = Some dispute \<and> \<not> d_resolved dispute
    \<and> sequence env < d_commit_deadline dispute
    \<and> p_juror_commit s \<lparr>v_escrow_id = i, v_juror = juror\<rparr> = None
    \<and> s' = s\<lparr>i_live_until := il,
           p_juror_commit := (p_juror_commit s)
             (\<lparr>v_escrow_id = i, v_juror = juror\<rparr> \<mapsto> commitment),
           p_live_until := lu,
           events := events s @ [VoteCommitted i juror]\<rparr>"
  apply (insert assms)
  apply (simp add: commit_vote_def outcome_ok Let_def)
  apply (elim exE conjE)
  apply hypsubst
  apply (simp add: storage_defs get_stake_def not_le)
  apply (intro exI)
  apply (rule refl)
  done

lemma reveal_vote_Ok:
  assumes "reveal_vote env i juror vote salt s = Ok (u, s')"
  shows "\<exists>dispute il lu. authorized env juror \<and> i_paused s \<noteq> Some True
    \<and> p_dispute s i = Some dispute \<and> \<not> d_resolved dispute
    \<and> d_commit_deadline dispute \<le> sequence env \<and> sequence env < d_reveal_deadline dispute
    \<and> p_juror_vote s \<lparr>v_escrow_id = i, v_juror = juror\<rparr> = None
    \<and> p_juror_commit s \<lparr>v_escrow_id = i, v_juror = juror\<rparr> = Some (hash_vote env vote salt)
    \<and> s' = s\<lparr>i_live_until := il,
           p_juror_vote := (p_juror_vote s)(\<lparr>v_escrow_id = i, v_juror = juror\<rparr> \<mapsto> vote),
           p_juror_commit := (p_juror_commit s)(\<lparr>v_escrow_id = i, v_juror = juror\<rparr> := None),
           p_dispute_voters := (p_dispute_voters s)
             (i \<mapsto> unwrap_or (p_dispute_voters s i) [] @ [juror]),
           p_live_until := lu,
           events := events s @ [VoteRevealed i juror vote]\<rparr>"
  apply (insert assms)
  apply (simp add: reveal_vote_def outcome_ok Let_def)
  apply (elim exE conjE)
  apply hypsubst
  apply (simp add: storage_defs not_le not_less)
  apply (intro exI)
  apply (rule refl)
  done

lemma settle_escrow_Ok:
  assumes "settle_escrow env i ruling s = Ok s'"
  shows "\<exists>escrow token w lu. p_escrow s i = Some escrow \<and> i_token s = Some token
    \<and> in_i128 (e_amount escrow - released i s)
    \<and> (if 0 < e_amount escrow - released i s
        then token_transfer env token (current_contract_address env)
               (if ruling then e_depositor escrow else e_beneficiary escrow)
               (e_amount escrow - released i s) (world s) = Some w
        else w = world s)
    \<and> s' = s\<lparr>world := w, p_escrow := (p_escrow s)(i \<mapsto> escrow\<lparr>e_status := Settled\<rparr>),
           p_live_until := lu\<rparr>"
  apply (insert assms)
  apply (simp add: settle_escrow_def outcome_ok Let_def checked_simps split del: if_split)
  apply (elim exE conjE)
  apply hypsubst
  apply (simp add: storage_defs released_def split del: if_split)
  apply (intro exI conjI)
  prefer 2
  apply (rule refl)
  apply (simp add: released_def split: if_splits)
  done

section \<open>The tally\<close>

lemma tally_Ok:
  "tally s i voters a b = Ok (fd, fb) \<Longrightarrow>
     uint fd = uint a + int (length (filter (vote_of s i) voters)) \<and>
     uint fb = uint b + int (length (filter (\<lambda>j. \<not> vote_of s i j) voters))"
proof (induction voters arbitrary: a b)
  case Nil
  then show ?case by simp
next
  case (Cons j voters)
  show ?case
  proof (cases "vote_of s i j")
    case True
    with Cons.prems obtain c where "checked_add_word a 1 = Some c"
      and "tally s i voters c b = Ok (fd, fb)" by (auto simp: outcome_ok)
    with Cons.IH [of c b] True show ?thesis by (auto dest: checked_add_word_one)
  next
    case False
    with Cons.prems obtain c where "checked_add_word b 1 = Some c"
      and "tally s i voters a c = Ok (fd, fb)" by (auto simp: outcome_ok)
    with Cons.IH [of a c] False show ?thesis by (auto dest: checked_add_word_one)
  qed
qed

lemma checked_add_word_1:
  "uint (a :: u32) + 1 < 2 ^ 32 \<Longrightarrow> checked_add_word a 1 = Some (a + 1) \<and> uint (a + 1) = uint a + 1"
  using checked_add_word_Some [of a 1 "a + 1"] by (simp add: checked_add_word_def)

lemma tally_returns:
  "uint a + int (length voters) < 2 ^ 32 \<Longrightarrow> uint b + int (length voters) < 2 ^ 32 \<Longrightarrow>
     \<exists>r. tally s i voters a b = Ok r"
proof (induction voters arbitrary: a b)
  case Nil
  then show ?case by simp
next
  case (Cons j voters)
  from Cons.prems checked_add_word_1 [of a] checked_add_word_1 [of b]
  have "checked_add_word a 1 = Some (a + 1)" "uint (a + 1) = uint a + 1"
    and "checked_add_word b 1 = Some (b + 1)" "uint (b + 1) = uint b + 1" by simp_all
  with Cons.prems Cons.IH [of "a + 1" b] Cons.IH [of a "b + 1"] show ?case
    by (simp add: outcome_run)
qed

section \<open>The slash amount\<close>

lemma slash_amount_eq:
  assumes st: "0 \<le> st" "in_i128 st" and bps: "uint bps \<le> 10000"
  shows "slash_amount st bps =
    (if st * uint bps < 2 ^ 128 then exact_fee st (uint bps) else st div 10000 * uint bps)"
proof -
  let ?b = "uint bps"
  have prod: "0 \<le> st * ?b" using st by simp
  have exact: "0 \<le> exact_fee st ?b" "exact_fee st ?b \<le> st"
    using st bps by (simp_all add: exact_fee_nonneg exact_fee_le)
  have range: "in_i128 (exact_fee st ?b)"
    using in_i128_mono [OF st(2) exact] .
  have "0 \<le> st div 10000 * ?b" using st by (simp add: pos_imp_zdiv_nonneg_iff)
  moreover have "st div 10000 * ?b \<le> exact_fee st ?b"
    by (simp add: exact_fee_split pos_imp_zdiv_nonneg_iff)
  ultimately have div_first: "0 \<le> st div 10000 * ?b" "st div 10000 * ?b \<le> st"
    using exact by linarith+
  have small: "st div 10000 * ?b < 2 ^ 128"
    using div_first st by (simp add: in_i128_def)
  consider (fast) "in_i128 (st * ?b)" | (wide) "\<not> in_i128 (st * ?b)" "st * ?b < 2 ^ 128"
    | (split) "\<not> st * ?b < 2 ^ 128" by blast
  then show ?thesis
  proof cases
    case fast
    then have "checked_div (st * ?b) 10000 = Some (exact_fee st ?b)"
      using prod range by (simp add: checked_div_def sdiv_nonneg exact_fee_def)
    moreover have "st * ?b < 2 ^ 128" using fast by (simp add: in_i128_def)
    ultimately show ?thesis using fast exact range
      by (simp add: slash_amount_def Let_def checked_mul_def or_else_def as_u128_id as_i128_id
          st)
  next
    case wide
    then show ?thesis
      using exact range prod
      by (simp add: slash_amount_def Let_def checked_mul_def or_else_def checked_mul_u128_def
          in_u128_def checked_div_u128_def as_u128_id as_i128_id st exact_fee_def)
  next
    case split
    then have "\<not> in_i128 (st * ?b)" by (simp add: in_i128_def)
    with split show ?thesis
      using div_first small in_i128_mono [OF st(2) div_first]
      by (simp add: slash_amount_def Let_def checked_mul_def or_else_def checked_mul_u128_def
          in_u128_def checked_div_u128_def as_u128_id as_i128_id st saturating_mul_u128_def)
  qed
qed

lemma slash_amount_bounds:
  assumes "0 \<le> st" and "in_i128 st" and "uint bps \<le> 10000"
  shows "0 \<le> slash_amount st bps" and "slash_amount st bps \<le> st"
    and "slash_amount st bps \<le> exact_fee st (uint bps)"
    and "exact_fee st (uint bps) - slash_amount st bps \<le> uint bps"
proof -
  let ?b = "uint bps"
  have exact: "0 \<le> exact_fee st ?b" "exact_fee st ?b \<le> st"
    using assms by (simp_all add: exact_fee_nonneg exact_fee_le)
  have q: "0 \<le> st div 10000 * ?b" using assms by (simp add: pos_imp_zdiv_nonneg_iff)
  have r: "0 \<le> st mod 10000 * ?b div 10000" by (simp add: pos_imp_zdiv_nonneg_iff)
  have "st mod 10000 * ?b div 10000 \<le> 10000 * ?b div 10000"
    by (intro zdiv_mono1 mult_right_mono) auto
  then have r': "st mod 10000 * ?b div 10000 \<le> ?b" by simp
  have alternatives: "slash_amount st bps = exact_fee st ?b \<or> slash_amount st bps = st div 10000 * ?b"
    using slash_amount_eq [OF assms] by (simp split: if_splits)
  show "0 \<le> slash_amount st bps" "slash_amount st bps \<le> exact_fee st ?b"
    and "exact_fee st ?b - slash_amount st bps \<le> ?b"
    using alternatives q r r' exact exact_fee_split [of st ?b] uint_ge_0 [of bps]
    by (elim disjE; linarith)+
  then show "slash_amount st bps \<le> st" using exact by linarith
qed

section \<open>The slash loop\<close>

definition slashed :: "'w trustflow \<Rightarrow> u64 \<Rightarrow> bool \<Rightarrow> u32 \<Rightarrow> address \<Rightarrow> i128" where
  "slashed s i ruling bps j =
     (if vote_of s i j \<noteq> ruling then slash_amount (get_stake j s) bps else 0)"

lemma slash_voter_Ok:
  assumes "slash_voter env i ruling bps v s = Ok s'"
  shows "\<exists>stakes counts lu evs. s' = s\<lparr>p_juror_stake := stakes, p_juror_slash_count := counts,
           p_live_until := lu, events := evs\<rparr>"
    and "get_stake j s' = get_stake j s - (if j = v then slashed s i ruling bps j else 0)"
    and "uint (get_slash_count j s') =
           uint (get_slash_count j s) + (if j = v \<and> vote_of s i j \<noteq> ruling then 1 else 0)"
proof -
  have "(\<exists>stakes counts lu evs. s' = s\<lparr>p_juror_stake := stakes, p_juror_slash_count := counts,
           p_live_until := lu, events := evs\<rparr>)
    \<and> get_stake j s' = get_stake j s - (if j = v then slashed s i ruling bps j else 0)
    \<and> uint (get_slash_count j s') =
           uint (get_slash_count j s) + (if j = v \<and> vote_of s i j \<noteq> ruling then 1 else 0)"
    (is "?data s' \<and> ?stake \<and> ?count")
  proof (cases "vote_of s i v = ruling")
    case True
    with assms have "s' = s" by (simp add: slash_voter_def Let_def)
    moreover have "?data s"
      by (rule exI [of _ "p_juror_stake s"], rule exI [of _ "p_juror_slash_count s"],
          rule exI [of _ "p_live_until s"], rule exI [of _ "events s"]) simp
    ultimately show ?thesis using True by (auto simp: slashed_def)
  next
    case False
    let ?slash = "slash_amount (get_stake v s) bps"
    from assms False obtain c where c: "checked_add_word (get_slash_count v s) 1 = Some c"
      and s': "s' = publish (JurorSlashed i v ?slash (get_stake v s - ?slash) c)
         (extend_persistent_ttl env (JurorSlashCount v) (set_juror_slash_count env v c
           (extend_persistent_ttl env (JurorStake v)
             (set_juror_stake env v (get_stake v s - ?slash) s))))"
      by (auto simp: slash_voter_def Let_def outcome_ok checked_simps get_stake_def
          get_slash_count_def storage_defs)
    from c have "uint c = uint (get_slash_count v s) + 1"
      by (rule checked_add_word_one)
    with False have "?stake" "?count"
      by (auto simp: s' storage_defs get_stake_def get_slash_count_def slashed_def)
    moreover have "?data s'"
      unfolding s' storage_defs by (simp, intro exI, rule refl)
    ultimately show ?thesis by blast
  qed
  then show "?data s'" "?stake" "?count" by blast+
qed

text \<open>The loop over distinct voters takes each minority voter's slash exactly once.\<close>

lemma slash_voters_Ok:
  "slash_voters env i ruling bps voters s = Ok s' \<Longrightarrow> distinct voters \<Longrightarrow>
     (\<exists>stakes counts lu evs. s' = s\<lparr>p_juror_stake := stakes, p_juror_slash_count := counts,
           p_live_until := lu, events := evs\<rparr>)
     \<and> (\<forall>j. get_stake j s' =
            get_stake j s - (if j \<in> set voters then slashed s i ruling bps j else 0))
     \<and> (\<forall>j. uint (get_slash_count j s') = uint (get_slash_count j s)
            + (if j \<in> set voters \<and> vote_of s i j \<noteq> ruling then 1 else 0))"
proof (induction voters arbitrary: s)
  case Nil
  then have "s' = s\<lparr>p_juror_stake := p_juror_stake s, p_juror_slash_count := p_juror_slash_count s,
      p_live_until := p_live_until s, events := events s\<rparr>" and "s' = s"
    by simp_all
  then show ?case by (intro conjI) (blast, simp_all)
next
  case (Cons v voters)
  from Cons.prems obtain t where t: "slash_voter env i ruling bps v s = Ok t"
    and rest: "slash_voters env i ruling bps voters t = Ok s'" by (auto simp: outcome_ok)
  obtain stakes counts lu evs where
      t_eq: "t = s\<lparr>p_juror_stake := stakes, p_juror_slash_count := counts, p_live_until := lu,
               events := evs\<rparr>"
    using slash_voter_Ok(1) [OF t] by blast
  note t_stake = slash_voter_Ok(2) [OF t] and t_count = slash_voter_Ok(3) [OF t]
  from t_eq have votes: "vote_of t i = vote_of s i" by (simp add: vote_of_def fun_eq_iff)
  from Cons.prems have "v \<notin> set voters" and "distinct voters" by auto
  with Cons.IH [OF rest] obtain stakes' counts' lu' evs' where
      s'_eq: "s' = t\<lparr>p_juror_stake := stakes', p_juror_slash_count := counts', p_live_until := lu',
                events := evs'\<rparr>"
    and s'_stake: "\<And>j. get_stake j s' =
            get_stake j t - (if j \<in> set voters then slashed t i ruling bps j else 0)"
    and s'_count: "\<And>j. uint (get_slash_count j s') = uint (get_slash_count j t)
            + (if j \<in> set voters \<and> vote_of t i j \<noteq> ruling then 1 else 0)" by blast
  show ?case
  proof (intro conjI allI)
    show "\<exists>stakes counts lu evs. s' = s\<lparr>p_juror_stake := stakes, p_juror_slash_count := counts,
           p_live_until := lu, events := evs\<rparr>"
      by (rule exI [of _ stakes'], rule exI [of _ counts'], rule exI [of _ lu'],
          rule exI [of _ evs']) (simp add: s'_eq t_eq)
    fix j
    show "get_stake j s' =
        get_stake j s - (if j \<in> set (v # voters) then slashed s i ruling bps j else 0)"
      using \<open>v \<notin> set voters\<close> by (auto simp: s'_stake t_stake slashed_def votes)
    show "uint (get_slash_count j s') = uint (get_slash_count j s)
        + (if j \<in> set (v # voters) \<and> vote_of s i j \<noteq> ruling then 1 else 0)"
      using \<open>v \<notin> set voters\<close> by (auto simp: s'_count t_count votes)
  qed
qed

section \<open>The resolution as a whole\<close>

definition slash_rate :: "'w trustflow \<Rightarrow> u32" where
  "slash_rate s = unwrap_or (i_slash_bps s) DEFAULT_SLASH_BPS"

definition voters_of :: "'w trustflow \<Rightarrow> u64 \<Rightarrow> address list" where
  "voters_of s i = unwrap_or (p_dispute_voters s i) []"

definition majority_for_depositor :: "'w trustflow \<Rightarrow> u64 \<Rightarrow> bool" where
  "majority_for_depositor s i \<longleftrightarrow>
     length (filter (vote_of s i) (voters_of s i)) \<ge>
     length (filter (\<lambda>j. \<not> vote_of s i j) (voters_of s i))"

lemma vote_of_frame: "p_juror_vote t = p_juror_vote s \<Longrightarrow> vote_of t = vote_of s"
  by (simp add: vote_of_def fun_eq_iff)

lemma tally_frame:
  assumes "p_juror_vote t = p_juror_vote s"
  shows "tally t i voters a b = tally s i voters a b"
  by (induction voters arbitrary: a b) (auto simp: vote_of_frame [OF assms] ok_or_def split: option.splits)

lemma tally_majority:
  assumes "tally s i (voters_of s i) 0 0 = Ok (fd, fb)"
  shows "fd \<ge> fb \<longleftrightarrow> majority_for_depositor s i"
  using tally_Ok [OF assms] by (simp add: majority_for_depositor_def word_le_def)

text \<open>A successful resolution passes its guards, then tallies, slashes, records and settles.\<close>

lemma resolve_dispute_steps:
  assumes "resolve_dispute env i s = Ok (ruling, s')"
  obtains dispute fd fb t s2 where
    "i_paused s \<noteq> Some True" and "p_dispute s i = Some dispute" and "\<not> d_resolved dispute"
    and "d_reveal_deadline dispute \<le> sequence env" and "voters_of s i \<noteq> []"
    and "tally (extend_instance_ttl env s) i (voters_of s i) 0 0 = Ok (fd, fb)"
    and "ruling = (fd \<ge> fb)"
    and "slash_voters env i ruling (slash_rate s) (voters_of s i) (extend_instance_ttl env s) = Ok t"
    and "s2 = extend_persistent_ttl env (Dispute i) (set_dispute env i
        (dispute\<lparr>d_resolved := True, d_ruling_for_depositor := ruling\<rparr>) t)"
    and "settle_escrow env i ruling s2 = Ok s'"
  using assms by (auto simp: resolve_dispute_def Let_def outcome_ok voters_of_def slash_rate_def
      extend_instance_ttl_def not_less)

lemma resolve_dispute_Ok:
  assumes "resolve_dispute env i s = Ok (ruling, s')" and "distinct (voters_of s i)"
  shows "\<exists>dispute escrow token w stakes counts il lu evs.
      i_paused s \<noteq> Some True \<and> p_dispute s i = Some dispute \<and> \<not> d_resolved dispute
    \<and> d_reveal_deadline dispute \<le> sequence env \<and> voters_of s i \<noteq> []
    \<and> ruling = majority_for_depositor s i
    \<and> p_escrow s i = Some escrow \<and> i_token s = Some token
    \<and> in_i128 (e_amount escrow - released i s)
    \<and> (if 0 < e_amount escrow - released i s
        then token_transfer env token (current_contract_address env)
               (if ruling then e_depositor escrow else e_beneficiary escrow)
               (e_amount escrow - released i s) (world s) = Some w
        else w = world s)
    \<and> (\<forall>j. unwrap_or (stakes j) 0 = get_stake j s
          - (if j \<in> set (voters_of s i) then slashed s i ruling (slash_rate s) j else 0))
    \<and> (\<forall>j. uint (unwrap_or (counts j) 0) = uint (get_slash_count j s)
          + (if j \<in> set (voters_of s i) \<and> vote_of s i j \<noteq> ruling then 1 else 0))
    \<and> s' = s\<lparr>i_live_until := il, p_juror_stake := stakes, p_juror_slash_count := counts,
           events := evs,
           p_dispute := (p_dispute s)
             (i \<mapsto> dispute\<lparr>d_resolved := True, d_ruling_for_depositor := ruling\<rparr>),
           world := w, p_escrow := (p_escrow s)(i \<mapsto> escrow\<lparr>e_status := Settled\<rparr>),
           p_live_until := lu\<rparr>"
proof -
  let ?s0 = "extend_instance_ttl env s"
  from assms(1) obtain dispute fd fb t s2 where
      guards: "i_paused s \<noteq> Some True" "p_dispute s i = Some dispute" "\<not> d_resolved dispute"
        "d_reveal_deadline dispute \<le> sequence env" "voters_of s i \<noteq> []"
    and tally: "tally ?s0 i (voters_of s i) 0 0 = Ok (fd, fb)"
    and ruling: "ruling = (fd \<ge> fb)"
    and slash: "slash_voters env i ruling (slash_rate s) (voters_of s i) ?s0 = Ok t"
    and s2: "s2 = extend_persistent_ttl env (Dispute i) (set_dispute env i
        (dispute\<lparr>d_resolved := True, d_ruling_for_depositor := ruling\<rparr>) t)"
    and settle: "settle_escrow env i ruling s2 = Ok s'"
    by (rule resolve_dispute_steps)
  have "ruling = majority_for_depositor s i"
    using tally_majority [of s i fd fb] tally_frame [of ?s0 s i "voters_of s i" 0 0] tally ruling
    by (simp add: extend_instance_ttl_def)
  moreover
  obtain stakes counts lu evs where t: "t = ?s0\<lparr>p_juror_stake := stakes, p_juror_slash_count := counts,
      p_live_until := lu, events := evs\<rparr>"
    and st: "\<And>j. get_stake j t = get_stake j ?s0
       - (if j \<in> set (voters_of s i) then slashed ?s0 i ruling (slash_rate s) j else 0)"
    and ct: "\<And>j. uint (get_slash_count j t) = uint (get_slash_count j ?s0)
       + (if j \<in> set (voters_of s i) \<and> vote_of ?s0 i j \<noteq> ruling then 1 else 0)"
    using slash_voters_Ok [OF slash assms(2)] by blast
  have frame: "vote_of ?s0 = vote_of s" "\<And>j. get_stake j ?s0 = get_stake j s"
    "\<And>j. get_slash_count j ?s0 = get_slash_count j s" "\<And>r b j. slashed ?s0 i r b j = slashed s i r b j"
    by (simp_all add: extend_instance_ttl_def vote_of_def get_stake_def get_slash_count_def
        slashed_def fun_eq_iff)
  moreover from t have "\<And>j. get_stake j t = unwrap_or (stakes j) 0"
    and "\<And>j. get_slash_count j t = unwrap_or (counts j) 0"
    by (simp_all add: get_stake_def get_slash_count_def)
  moreover note st ct
  moreover
  have s2_fields: "p_escrow s2 = p_escrow s" "i_token s2 = i_token s" "world s2 = world s"
    "released i s2 = released i s"
    by (simp_all add: s2 t storage_defs released_def)
  from settle_escrow_Ok [OF settle, unfolded s2_fields] obtain escrow token w lu' where
      "p_escrow s i = Some escrow" "i_token s = Some token"
    and "in_i128 (e_amount escrow - released i s)"
    and "if 0 < e_amount escrow - released i s
        then token_transfer env token (current_contract_address env)
               (if ruling then e_depositor escrow else e_beneficiary escrow)
               (e_amount escrow - released i s) (world s) = Some w
        else w = world s"
    and s': "s' = s2\<lparr>world := w, p_escrow := (p_escrow s)(i \<mapsto> escrow\<lparr>e_status := Settled\<rparr>),
           p_live_until := lu'\<rparr>"
    by blast
  moreover have "\<exists>il lu. s' = s\<lparr>i_live_until := il, p_juror_stake := stakes,
           p_juror_slash_count := counts, events := evs,
           p_dispute := (p_dispute s)
             (i \<mapsto> dispute\<lparr>d_resolved := True, d_ruling_for_depositor := ruling\<rparr>),
           world := w, p_escrow := (p_escrow s)(i \<mapsto> escrow\<lparr>e_status := Settled\<rparr>),
           p_live_until := lu\<rparr>"
    unfolding s' s2 t storage_defs by (simp, intro exI, rule refl)
  ultimately show ?thesis using guards by metis
qed

end
