(* ===== verification/TrustFlow_Ttl.thy ===== *)
theory TrustFlow_Ttl
  imports TrustFlow_Dispute
begin

text \<open>
  The keeper's maintenance call \<open>bump_escrow_ttl\<close> of \<open>contracts/trustflow/src/lib.rs\<close>, and what the
  TTL strategy guarantees: which entries a call keeps alive and for how long.
\<close>

section \<open>Entry point\<close>

text \<open>The loop over the milestones; \<open>index as u32\<close> truncates the position.\<close>

fun extend_milestones_ttl ::
    "'w env \<Rightarrow> u64 \<Rightarrow> nat \<Rightarrow> milestone list \<Rightarrow> 'w trustflow \<Rightarrow> 'w trustflow" where
  "extend_milestones_ttl env escrow_id index [] s = s"
| "extend_milestones_ttl env escrow_id index (m # ms) s =
     extend_milestones_ttl env escrow_id (Suc index) ms
       (extend_persistent_ttl env
          (MilestoneReleased \<lparr>k_escrow_id = escrow_id, k_milestone_index = of_nat index\<rparr>) s)"

definition bump_escrow_ttl :: "'w env \<Rightarrow> u64 \<Rightarrow> 'w trustflow \<Rightarrow> (u32, 'w) result" where
  "bump_escrow_ttl env escrow_id s =
     ok_or (p_escrow s escrow_id) EscrowNotFound (\<lambda>escrow.
     let s = extend_instance_ttl env s;
         s = extend_persistent_ttl env (Escrow escrow_id) s;
         s = extend_persistent_ttl env (EscrowFeeConfig escrow_id) s;
         s = extend_persistent_ttl env (EscrowReleased escrow_id) s;
         s = extend_milestones_ttl env escrow_id 0 (e_milestones escrow) s;
         dispute_key = Dispute escrow_id;
         s = (if has_key s dispute_key
              then let s = extend_persistent_ttl env dispute_key s;
                       voters_key = DisputeVoters escrow_id
                   in if has_key s voters_key then extend_persistent_ttl env voters_key s else s
              else s);
         live_until_ledger = saturating_add (sequence env) PERSISTENT_BUMP_AMOUNT
     in Ok (live_until_ledger, publish (EscrowTtlBumped escrow_id live_until_ledger) s))"

section \<open>A keeper changes nothing but expirations\<close>

lemma extend_milestones_ttl_frame [simp]: "ttl_only s (extend_milestones_ttl env i n ms s)"
proof (induction ms arbitrary: n s)
  case Nil
  show ?case by simp
next
  case (Cons m ms)
  show ?case using ttl_only_trans [OF ttl_only_extend(2) Cons.IH] by simp
qed

lemma bump_escrow_ttl_Ok:
  assumes "bump_escrow_ttl env i s = Ok (l, s')"
  shows "\<exists>il lu. p_escrow s i \<noteq> None
    \<and> l = saturating_add (sequence env) PERSISTENT_BUMP_AMOUNT
    \<and> s' = s\<lparr>i_live_until := il, p_live_until := lu,
           events := events s @ [EscrowTtlBumped i l]\<rparr>"
proof -
  from assms obtain escrow where e: "p_escrow s i = Some escrow"
    and l: "l = saturating_add (sequence env) PERSISTENT_BUMP_AMOUNT"
    by (auto simp: bump_escrow_ttl_def Let_def outcome_ok)
  let ?s3 = "extend_persistent_ttl env (EscrowReleased i)
      (extend_persistent_ttl env (EscrowFeeConfig i)
        (extend_persistent_ttl env (Escrow i) (extend_instance_ttl env s)))"
  let ?s4 = "extend_milestones_ttl env i 0 (e_milestones escrow) ?s3"
  let ?s5 = "extend_persistent_ttl env (Dispute i) ?s4"
  let ?s6 = "if has_key ?s4 (Dispute i)
       then if has_key ?s5 (DisputeVoters i) then extend_persistent_ttl env (DisputeVoters i) ?s5
            else ?s5
       else ?s4"
  from assms l have s': "s' = publish (EscrowTtlBumped i l) ?s6"
    unfolding bump_escrow_ttl_def Let_def e outcome_run outcome.inject prod.inject by (simp only: simp_thms)
  have s4: "ttl_only s ?s4"
    by (rule ttl_only_trans [OF _ extend_milestones_ttl_frame],
        (rule ttl_only_trans [OF _ ttl_only_extend(2)])+, rule ttl_only_extend(1))
  note s5 = ttl_only_trans [OF s4 ttl_only_extend(2) [of ?s4 env "Dispute i"]]
  note s5' = ttl_only_trans [OF s5 ttl_only_extend(2) [of ?s5 env "DisputeVoters i"]]
  have "ttl_only s ?s6" using s4 s5 s5' by (simp only: simp_thms split: if_split)
  then obtain il lu where "?s6 = s\<lparr>i_live_until := il, p_live_until := lu\<rparr>"
    unfolding ttl_only_def by blast
  then have "s' = s\<lparr>i_live_until := il, p_live_until := lu, events := events s @ [EscrowTtlBumped i l]\<rparr>"
    unfolding s' by (simp only: publish_def) simp
  with e l show ?thesis by blast
qed

end
