(* ===== verification/TrustFlow_System.thy ===== *)
theory TrustFlow_System
  imports TrustFlow_Ttl
begin

text \<open>
  The contract as a state machine: one constructor per state-changing entry point, the
  execution of a call with the host's rollback, and the reachable states of a deployment
  (initialised once, then any calls by anyone at any later ledger, interleaved with
  whatever the rest of the world does).
\<close>

section \<open>Calls\<close>

datatype tf_call =
    Call_initialize address address u32
  | Call_set_fee_bps address u32
  | Call_set_treasury address address
  | Call_set_pauser address address
  | Call_revoke_pauser address
  | Call_pause address
  | Call_unpause address
  | Call_stake address i128
  | Call_unstake address i128
  | Call_bump_juror_stake_ttl address
  | Call_create_escrow address address i128
  | Call_init_escrow address address "milestone list"
  | Call_release_milestone_tranche u64 u32 i128 address
  | Call_raise_dispute u64 address string
  | Call_commit_vote u64 address "u8 list"
  | Call_reveal_vote u64 address bool "u8 list"
  | Call_resolve_dispute u64
  | Call_bump_escrow_ttl u64

definition state_of :: "('a, 'w) result \<Rightarrow> ('w trustflow, trustflow_error) outcome" where
  "state_of r = (case r of Ok (v, s) \<Rightarrow> Ok s | Err e \<Rightarrow> Err e | Panic \<Rightarrow> Panic)"

lemma state_of_Ok [outcome_ok]: "state_of r = Ok s' \<longleftrightarrow> (\<exists>v. r = Ok (v, s'))"
  by (auto simp: state_of_def split: outcome.splits)

lemma state_of_Err [simp]: "state_of r = Err e \<longleftrightarrow> r = Err e"
  by (auto simp: state_of_def split: outcome.splits)

text \<open>
  The host decodes the arguments before the contract runs: an \<open>i128\<close> is in range, a
  \<open>BytesN<32>\<close> has 32 bytes, a vector has at most \<open>u32::MAX\<close> elements.
\<close>

fun decodes :: "tf_call \<Rightarrow> bool" where
  "decodes (Call_stake juror amount) = in_i128 amount"
| "decodes (Call_unstake juror amount) = in_i128 amount"
| "decodes (Call_create_escrow d b amount) = in_i128 amount"
| "decodes (Call_init_escrow d b ms) = (int (length ms) < 2 ^ 32 \<and> (\<forall>m\<in>set ms. in_i128 (m_amount m)))"
| "decodes (Call_release_milestone_tranche i k g caller) = in_i128 g"
| "decodes (Call_commit_vote i juror c) = (length c = 32)"
| "decodes (Call_reveal_vote i juror v salt) = (length salt = 32)"
| "decodes _ = True"

fun dispatch :: "'w env \<Rightarrow> tf_call \<Rightarrow> 'w trustflow \<Rightarrow> ('w trustflow, trustflow_error) outcome" where
  "dispatch env (Call_initialize admin token bps) s = state_of (initialize env admin token bps s)"
| "dispatch env (Call_set_fee_bps caller bps) s = state_of (set_fee_bps env caller bps s)"
| "dispatch env (Call_set_treasury caller treasury) s = state_of (set_treasury env caller treasury s)"
| "dispatch env (Call_set_pauser caller pauser) s = state_of (set_pauser env caller pauser s)"
| "dispatch env (Call_revoke_pauser caller) s = state_of (revoke_pauser env caller s)"
| "dispatch env (Call_pause caller) s = state_of (pause env caller s)"
| "dispatch env (Call_unpause caller) s = state_of (unpause env caller s)"
| "dispatch env (Call_stake juror amount) s = state_of (stake env juror amount s)"
| "dispatch env (Call_unstake juror amount) s = state_of (unstake env juror amount s)"
| "dispatch env (Call_bump_juror_stake_ttl juror) s = state_of (bump_juror_stake_ttl env juror s)"
| "dispatch env (Call_create_escrow d b amount) s = state_of (create_escrow env d b amount s)"
| "dispatch env (Call_init_escrow d b ms) s = state_of (init_escrow env d b ms s)"
| "dispatch env (Call_release_milestone_tranche i k g caller) s =
     state_of (release_milestone_tranche env i k g caller s)"
| "dispatch env (Call_raise_dispute i caller reason) s = state_of (raise_dispute env i caller reason s)"
| "dispatch env (Call_commit_vote i juror c) s = state_of (commit_vote env i juror c s)"
| "dispatch env (Call_reveal_vote i juror v salt) s = state_of (reveal_vote env i juror v salt s)"
| "dispatch env (Call_resolve_dispute i) s = state_of (resolve_dispute env i s)"
| "dispatch env (Call_bump_escrow_ttl i) s = state_of (bump_escrow_ttl env i s)"

definition exec :: "'w env \<Rightarrow> tf_call \<Rightarrow> 'w trustflow \<Rightarrow> ('w trustflow, trustflow_error) outcome" where
  "exec env c s = (if decodes c then dispatch env c s else Panic)"

text \<open>The host commits the state of a call that returned \<open>Ok\<close> and drops any other.\<close>

definition transact :: "'w env \<Rightarrow> tf_call \<Rightarrow> 'w trustflow \<Rightarrow> 'w trustflow" where
  "transact env c s = (case exec env c s of Ok s' \<Rightarrow> s' | _ \<Rightarrow> s)"

section \<open>Deployments\<close>

text \<open>
  What the platform guarantees to a call of the contract \<open>cc\<close>: the token client follows the
  token interface (its balances are \<open>tb\<close>), and nobody signs for the contract itself.
\<close>

locale hosted = token_client "token_transfer env" tb
  for env :: "'w env" and tb :: "address \<Rightarrow> address \<Rightarrow> 'w \<Rightarrow> i128" +
  fixes cc :: address
  assumes runs_at: "current_contract_address env = cc"
    and not_self: "\<not> authorized env cc"
begin

lemma authorized_other: "authorized env a \<Longrightarrow> a \<noteq> cc"
  using not_self by auto

text \<open>A transfer into the contract, and one out of it (possibly back to itself).\<close>

lemma receives:
  "token_transfer env t a (current_contract_address env) amt w = Some w' \<Longrightarrow> authorized env a \<Longrightarrow>
     tb t cc w' = tb t cc w + amt"
  using transfer_in [of t a cc amt w w'] authorized_other [of a] by (simp add: runs_at)

lemma pays:
  "paid env t (current_contract_address env) to amt w w' \<Longrightarrow> tb t cc w - amt \<le> tb t cc w' \<and> 0 \<le> amt"
  using transfer_out_le [of t cc to amt w w'] transfer_nonneg [of t cc to amt w w']
  by (auto simp: paid_def runs_at split: if_splits)

end

definition empty_storage :: "'w \<Rightarrow> 'w trustflow" where
  "empty_storage w =
     \<lparr>i_admin = None, i_token = None, i_slash_bps = None, i_escrow_counter = None,
      i_fee_bps = None, i_treasury = None, i_paused = None, i_pauser = None, i_live_until = 0,
      p_escrow = Map.empty, p_escrow_fee_config = Map.empty, p_escrow_released = Map.empty,
      p_milestone_released = Map.empty, p_dispute = Map.empty, p_juror_stake = Map.empty,
      p_dispute_voters = Map.empty, p_juror_commit = Map.empty, p_juror_vote = Map.empty,
      p_juror_slash_count = Map.empty, p_live_until = (\<lambda>_. 0), events = [], world = w\<rparr>"

fun reinitializes :: "tf_call \<Rightarrow> bool" where
  "reinitializes (Call_initialize _ _ _) = True"
| "reinitializes _ = False"

text \<open>
  A configuration is the last ledger and the contract's state. The steps: a call that is not
  a second initialisation, at a ledger no earlier than the last one; the passing of time; and
  a move of the rest of the world that takes nothing from the contract's token balance, which
  only the contract itself can spend.
\<close>

inductive tf_step ::
    "(address \<Rightarrow> address \<Rightarrow> 'w \<Rightarrow> i128) \<Rightarrow> address \<Rightarrow> u32 \<times> 'w trustflow \<Rightarrow> u32 \<times> 'w trustflow \<Rightarrow> bool"
  for tb cc where
  call: "\<lbrakk>hosted env tb cc; now \<le> sequence env; \<not> reinitializes c; exec env c s = Ok s'\<rbrakk>
    \<Longrightarrow> tf_step tb cc (now, s) (sequence env, s')"
| time: "now \<le> later \<Longrightarrow> tf_step tb cc (now, s) (later, s)"
| outside: "\<lbrakk>\<And>t. i_token s = Some t \<Longrightarrow> tb t cc (world s) \<le> tb t cc w\<rbrakk>
    \<Longrightarrow> tf_step tb cc (now, s) (now, s\<lparr>world := w\<rparr>)"

inductive tf_reachable ::
    "(address \<Rightarrow> address \<Rightarrow> 'w \<Rightarrow> i128) \<Rightarrow> address \<Rightarrow> u32 \<times> 'w trustflow \<Rightarrow> bool"
  for tb cc where
  deploy: "\<lbrakk>0 \<le> tb token cc w; initialize env admin token bps (empty_storage w) = Ok (u, s)\<rbrakk>
    \<Longrightarrow> tf_reachable tb cc (sequence env, s)"
| step: "\<lbrakk>tf_reachable tb cc c; tf_step tb cc c c'\<rbrakk> \<Longrightarrow> tf_reachable tb cc c'"

inductive_cases tf_stepE: "tf_step tb cc (now, s) (now', s')"

text \<open>An invariant of every call, of time and of the world's moves holds in every reachable
  state.\<close>

lemma tf_invariant:
  assumes reach: "tf_reachable tb cc (now, s)"
    and init: "\<And>env admin token bps w u s. \<lbrakk>0 \<le> tb token cc w;
        initialize env admin token bps (empty_storage w) = Ok (u, s)\<rbrakk> \<Longrightarrow> P (sequence env) s"
    and call: "\<And>env now c s s'. \<lbrakk>hosted env tb cc; now \<le> sequence env; \<not> reinitializes c;
        exec env c s = Ok s'; P now s; tf_reachable tb cc (now, s)\<rbrakk> \<Longrightarrow> P (sequence env) s'"
    and time: "\<And>now later s. \<lbrakk>now \<le> later; P now s\<rbrakk> \<Longrightarrow> P later s"
    and outside: "\<And>now s w. \<lbrakk>\<And>t. i_token s = Some t \<Longrightarrow> tb t cc (world s) \<le> tb t cc w; P now s\<rbrakk>
        \<Longrightarrow> P now (s\<lparr>world := w\<rparr>)"
  shows "P now s"
proof -
  from reach have "case (now, s) of (now, s) \<Rightarrow> P now s"
  proof (induction rule: tf_reachable.induct)
    case (deploy token w env admin bps u s)
    then show ?case using init by simp
  next
    case (step c c')
    from step.hyps(2) step.IH step.hyps(1) show ?case
      by (cases rule: tf_step.cases) (auto intro: call time outside)
  qed
  then show ?thesis by simp
qed

end
