(* ===== verification/TrustFlow_Invariants.thy ===== *)
theory TrustFlow_Invariants
  imports TrustFlow_System
begin

text \<open>
  The invariants of the escrow contract and their preservation by every call: the settings
  stay in range, the escrow accounting adds up, the dispute records and the votes agree with
  each other and with the clock, stakes are never negative, and the contract's token balance
  covers everything it owes.
\<close>

section \<open>The invariants\<close>

definition settings_inv :: "'w trustflow \<Rightarrow> bool" where
  "settings_inv s \<longleftrightarrow> i_admin s \<noteq> None \<and> i_token s \<noteq> None \<and> i_treasury s \<noteq> None \<and>
     uint (slash_rate s) \<le> 10000 \<and> uint (get_fee_bps s) \<le> 1000"

definition stake_inv :: "'w trustflow \<Rightarrow> bool" where
  "stake_inv s \<longleftrightarrow> (\<forall>j. 0 \<le> get_stake j s \<and> in_i128 (get_stake j s))"

text \<open>An escrow record agrees with its released counter, its fee snapshot and its milestones.\<close>

definition escrow_ok :: "'w trustflow \<Rightarrow> u64 \<Rightarrow> escrow_record \<Rightarrow> bool" where
  "escrow_ok s i e \<longleftrightarrow> e_id e = i \<and> 0 < e_amount e \<and> in_i128 (e_amount e)
     \<and> uint i \<le> uint (escrow_count s)
     \<and> 0 \<le> released i s \<and> released i s \<le> e_amount e
     \<and> (e_status e \<noteq> Settled \<longrightarrow> released i s < e_amount e)
     \<and> (\<exists>cfg. p_escrow_fee_config s i = Some cfg \<and> uint (f_fee_bps cfg) \<le> 1000)"

definition milestones_ok :: "'w trustflow \<Rightarrow> u64 \<Rightarrow> escrow_record \<Rightarrow> bool" where
  "milestones_ok s i e \<longleftrightarrow> (\<Sum>k\<in>UNIV. m_released i k s) = released i s
     \<and> (\<forall>k. 0 \<le> m_released i k s)
     \<and> (\<forall>k. case vec_get (e_milestones e) k of
               None \<Rightarrow> m_released i k s = 0
             | Some m \<Rightarrow> m_released i k s \<le> m_amount m \<and> (0 < m_released i k s \<longrightarrow> m_approved m))"

definition escrow_inv :: "'w trustflow \<Rightarrow> bool" where
  "escrow_inv s \<longleftrightarrow> (\<forall>i. case p_escrow s i of
       Some e \<Rightarrow> escrow_ok s i e \<and> milestones_ok s i e
     | None \<Rightarrow> released i s = 0 \<and> (\<forall>k. m_released i k s = 0))"

definition commit_of :: "'w trustflow \<Rightarrow> u64 \<Rightarrow> address \<Rightarrow> u8 list option" where
  "commit_of s i j = p_juror_commit s \<lparr>v_escrow_id = i, v_juror = j\<rparr>"

definition reveal_of :: "'w trustflow \<Rightarrow> u64 \<Rightarrow> address \<Rightarrow> bool option" where
  "reveal_of s i j = p_juror_vote s \<lparr>v_escrow_id = i, v_juror = j\<rparr>"

text \<open>
  A dispute agrees with the status of its escrow; the voter list has every juror with a
  revealed vote exactly once; a revealed commitment is cleared; votes appear only once the
  commit window is over, a ruling only once the reveal window is over.
\<close>

definition dispute_ok :: "u32 \<Rightarrow> 'w trustflow \<Rightarrow> u64 \<Rightarrow> escrow_record \<Rightarrow> dispute_record \<Rightarrow> bool" where
  "dispute_ok now s i e d \<longleftrightarrow> d_escrow_id d = i
     \<and> e_status e = (if d_resolved d then Settled else Disputed)
     \<and> d_commit_deadline d \<le> d_reveal_deadline d
     \<and> distinct (voters_of s i) \<and> set (voters_of s i) = {j. reveal_of s i j \<noteq> None}
     \<and> (\<forall>j. reveal_of s i j \<noteq> None \<longrightarrow> commit_of s i j = None)
     \<and> (voters_of s i \<noteq> [] \<longrightarrow> d_commit_deadline d \<le> now)
     \<and> (d_resolved d \<longrightarrow> d_reveal_deadline d \<le> now \<and> voters_of s i \<noteq> []
          \<and> d_ruling_for_depositor d = majority_for_depositor s i)"

definition no_dispute :: "'w trustflow \<Rightarrow> u64 \<Rightarrow> bool" where
  "no_dispute s i \<longleftrightarrow> (\<forall>e. p_escrow s i = Some e \<longrightarrow> e_status e \<noteq> Disputed)
     \<and> voters_of s i = [] \<and> (\<forall>j. commit_of s i j = None \<and> reveal_of s i j = None)"

definition dispute_inv :: "u32 \<Rightarrow> 'w trustflow \<Rightarrow> bool" where
  "dispute_inv now s \<longleftrightarrow> (\<forall>i. case p_dispute s i of
       None \<Rightarrow> no_dispute s i
     | Some d \<Rightarrow> \<exists>e. p_escrow s i = Some e \<and> dispute_ok now s i e d)"

text \<open>What the contract owes: the unreleased part of every open escrow, and the stakes.\<close>

definition locked :: "u64 \<Rightarrow> 'w trustflow \<Rightarrow> int" where
  "locked i s = (case p_escrow s i of None \<Rightarrow> 0
     | Some e \<Rightarrow> if e_status e = Settled then 0 else e_amount e - released i s)"

definition total_locked :: "'w trustflow \<Rightarrow> int" where
  "total_locked s = (\<Sum>i\<in>UNIV. locked i s)"

definition total_stake :: "'w trustflow \<Rightarrow> int" where
  "total_stake s = (\<Sum>j\<in>UNIV. get_stake j s)"

definition funds_inv ::
    "(address \<Rightarrow> address \<Rightarrow> 'w \<Rightarrow> i128) \<Rightarrow> address \<Rightarrow> 'w trustflow \<Rightarrow> bool" where
  "funds_inv tb cc s \<longleftrightarrow>
     (\<forall>t. i_token s = Some t \<longrightarrow> total_locked s + total_stake s \<le> tb t cc (world s))"

lemmas reading_defs = released_def m_released_def escrow_count_def get_stake_def get_fee_bps_def
  slash_rate_def voters_of_def commit_of_def reveal_of_def

lemma escrow_invI:
  "\<lbrakk>\<And>i e. p_escrow s i = Some e \<Longrightarrow> escrow_ok s i e \<and> milestones_ok s i e;
    \<And>i. p_escrow s i = None \<Longrightarrow> released i s = 0 \<and> (\<forall>k. m_released i k s = 0)\<rbrakk> \<Longrightarrow> escrow_inv s"
  by (simp add: escrow_inv_def split: option.split)

lemma escrow_invD:
  assumes "escrow_inv s"
  shows "p_escrow s i = Some e \<Longrightarrow> escrow_ok s i e" and "p_escrow s i = Some e \<Longrightarrow> milestones_ok s i e"
    and "p_escrow s i = None \<Longrightarrow> released i s = 0" and "p_escrow s i = None \<Longrightarrow> m_released i k s = 0"
  using assms by (auto simp: escrow_inv_def dest!: spec [of _ i])

lemma dispute_invI:
  "\<lbrakk>\<And>i d. p_dispute s i = Some d \<Longrightarrow> \<exists>e. p_escrow s i = Some e \<and> dispute_ok now s i e d;
    \<And>i. p_dispute s i = None \<Longrightarrow> no_dispute s i\<rbrakk> \<Longrightarrow> dispute_inv now s"
  by (simp add: dispute_inv_def split: option.split)

lemma dispute_invD:
  assumes "dispute_inv now s"
  shows "p_dispute s i = Some d \<Longrightarrow> \<exists>e. p_escrow s i = Some e \<and> dispute_ok now s i e d"
    and "p_dispute s i = None \<Longrightarrow> no_dispute s i"
  using assms by (auto simp: dispute_inv_def dest!: spec [of _ i])

lemma active_no_dispute:
  "\<lbrakk>dispute_inv now s; p_escrow s i = Some e; e_status e = Active\<rbrakk> \<Longrightarrow> p_dispute s i = None"
  using dispute_invD(1) [of now s i] by (cases "p_dispute s i") (auto simp: dispute_ok_def split: if_splits)

section \<open>Frames\<close>

text \<open>Each invariant reads a few fields only.\<close>

lemma settings_inv_frame:
  "\<lbrakk>i_admin t = i_admin s; i_token t = i_token s; i_treasury t = i_treasury s;
    i_slash_bps t = i_slash_bps s; i_fee_bps t = i_fee_bps s\<rbrakk> \<Longrightarrow> settings_inv t = settings_inv s"
  by (simp add: settings_inv_def reading_defs)

lemma stake_inv_frame: "p_juror_stake t = p_juror_stake s \<Longrightarrow> stake_inv t = stake_inv s"
  by (simp add: stake_inv_def reading_defs)

lemma escrow_inv_frame:
  "\<lbrakk>p_escrow t = p_escrow s; i_escrow_counter t = i_escrow_counter s;
    p_escrow_fee_config t = p_escrow_fee_config s; p_escrow_released t = p_escrow_released s;
    p_milestone_released t = p_milestone_released s\<rbrakk> \<Longrightarrow> escrow_inv t = escrow_inv s"
  by (simp add: escrow_inv_def escrow_ok_def milestones_ok_def reading_defs cong: option.case_cong)

lemma majority_frame:
  "\<lbrakk>p_dispute_voters t = p_dispute_voters s; p_juror_vote t = p_juror_vote s\<rbrakk>
    \<Longrightarrow> majority_for_depositor t = majority_for_depositor s"
  by (simp add: majority_for_depositor_def vote_of_frame [of t s] voters_of_def fun_eq_iff)

lemma dispute_inv_frame:
  "\<lbrakk>p_escrow t = p_escrow s; p_dispute t = p_dispute s; p_dispute_voters t = p_dispute_voters s;
    p_juror_commit t = p_juror_commit s; p_juror_vote t = p_juror_vote s\<rbrakk>
    \<Longrightarrow> dispute_inv now t = dispute_inv now s"
  by (simp add: dispute_inv_def dispute_ok_def no_dispute_def majority_frame [of t s] reading_defs
      cong: option.case_cong)

lemma locked_frame:
  "\<lbrakk>p_escrow t = p_escrow s; p_escrow_released t = p_escrow_released s\<rbrakk>
    \<Longrightarrow> total_locked t = total_locked s"
  by (simp add: total_locked_def locked_def released_def cong: option.case_cong if_cong)

lemma locked_point:
  "\<lbrakk>p_escrow t x = p_escrow s x; released x t = released x s\<rbrakk> \<Longrightarrow> locked x t = locked x s"
  by (simp add: locked_def cong: option.case_cong if_cong)

lemma locked_change:
  assumes "\<And>x. x \<noteq> i \<Longrightarrow> p_escrow t x = p_escrow s x" and "\<And>x. x \<noteq> i \<Longrightarrow> released x t = released x s"
  shows "total_locked t = total_locked s - locked i s + locked i t"
  unfolding total_locked_def
  by (rule sum_point_change [of i "\<lambda>x. locked x t" "\<lambda>x. locked x s"]) (auto intro: locked_point assms)

lemma stake_change:
  assumes "\<And>x. x \<noteq> j \<Longrightarrow> get_stake x t = get_stake x s"
  shows "total_stake t = total_stake s - get_stake j s + get_stake j t"
  unfolding total_stake_def
  by (rule sum_point_change [of j "\<lambda>x. get_stake x t" "\<lambda>x. get_stake x s"]) (rule assms)

lemma total_stake_frame: "p_juror_stake t = p_juror_stake s \<Longrightarrow> total_stake t = total_stake s"
  by (simp add: total_stake_def get_stake_def)

lemmas inv_frames = settings_inv_frame stake_inv_frame escrow_inv_frame dispute_inv_frame

lemma dispute_inv_later: "dispute_inv now s \<Longrightarrow> now \<le> later \<Longrightarrow> dispute_inv later s"
  unfolding dispute_inv_def dispute_ok_def
  by (fastforce split: option.splits)

end
