(* ===== verification/TrustFlow_Preservation.thy ===== *)
theory TrustFlow_Preservation
  imports TrustFlow_Invariants
begin

text \<open>
  Every call of the escrow contract keeps the invariants of \<open>TrustFlow_Invariants\<close>, so they
  hold in every reachable state of a deployment.
\<close>

section \<open>All invariants together\<close>

definition tf_inv ::
    "(address \<Rightarrow> address \<Rightarrow> 'w \<Rightarrow> i128) \<Rightarrow> address \<Rightarrow> u32 \<Rightarrow> 'w trustflow \<Rightarrow> bool" where
  "tf_inv tb cc now s \<longleftrightarrow>
     settings_inv s \<and> stake_inv s \<and> escrow_inv s \<and> dispute_inv now s \<and> funds_inv tb cc s"

text \<open>A call that touches none of the fields an invariant reads.\<close>

lemma tf_inv_quiet:
  assumes "tf_inv tb cc now s" and "now \<le> later"
    and "settings_inv t" and "i_token t = i_token s" and "world t = world s"
    and "i_escrow_counter t = i_escrow_counter s" and "p_escrow t = p_escrow s"
    and "p_escrow_fee_config t = p_escrow_fee_config s" and "p_escrow_released t = p_escrow_released s"
    and "p_milestone_released t = p_milestone_released s" and "p_dispute t = p_dispute s"
    and "p_juror_stake t = p_juror_stake s" and "p_dispute_voters t = p_dispute_voters s"
    and "p_juror_commit t = p_juror_commit s" and "p_juror_vote t = p_juror_vote s"
  shows "tf_inv tb cc later t"
proof -
  have "stake_inv t = stake_inv s" by (rule stake_inv_frame; fact)
  moreover have "escrow_inv t = escrow_inv s" by (rule escrow_inv_frame; fact)
  moreover have "dispute_inv now t = dispute_inv now s" by (rule dispute_inv_frame; fact)
  moreover have "total_locked t = total_locked s" by (rule locked_frame; fact)
  moreover have "total_stake t = total_stake s" by (rule total_stake_frame; fact)
  moreover have "settings_inv s" "stake_inv s" "escrow_inv s" "dispute_inv now s" "funds_inv tb cc s"
    using assms(1) by (simp_all add: tf_inv_def)
  ultimately show ?thesis
    using assms(2-5) dispute_inv_later [of now t later] by (simp add: tf_inv_def funds_inv_def)
qed

section \<open>A new escrow\<close>

lemma fresh_escrow:
  assumes "escrow_inv s" and "checked_add_word (escrow_count s) 1 = Some i"
  shows "p_escrow s i = None" and "released i s = 0" and "m_released i k s = 0"
proof -
  have "uint (escrow_count s) < uint i" using checked_add_word_one [OF assms(2)] by simp
  then show none: "p_escrow s i = None"
    using escrow_invD(1) [OF assms(1), of i] by (cases "p_escrow s i") (auto simp: escrow_ok_def)
  show "released i s = 0" "m_released i k s = 0"
    using escrow_invD(3,4) [OF assms(1) none] by simp_all
qed

lemma new_escrow:
  assumes inv: "settings_inv s" "escrow_inv s" "dispute_inv now s"
    and next_id: "checked_add_word (escrow_count s) 1 = Some i"
    and e: "e_id e = i" "0 < e_amount e" "in_i128 (e_amount e)" "e_status e = Active"
      "\<forall>m\<in>set (e_milestones e). 0 < m_amount m"
    and s': "p_escrow t = (p_escrow s)(i \<mapsto> e)" "i_escrow_counter t = Some i"
      "p_escrow_fee_config t = (p_escrow_fee_config s)(i \<mapsto> \<lparr>f_treasury = tr, f_fee_bps = get_fee_bps s\<rparr>)"
    and same: "p_escrow_released t = p_escrow_released s"
      "p_milestone_released t = p_milestone_released s" "p_dispute t = p_dispute s"
      "p_dispute_voters t = p_dispute_voters s" "p_juror_commit t = p_juror_commit s"
      "p_juror_vote t = p_juror_vote s"
  shows "escrow_inv t" and "dispute_inv now t" and "total_locked t = total_locked s + e_amount e"
proof -
  note fresh = fresh_escrow [OF inv(2) next_id]
  have count: "uint i = uint (escrow_count s) + 1" by (rule checked_add_word_one [OF next_id])
  have rel: "released x t = released x s" "m_released x k t = m_released x k s" for x k
    by (simp_all add: same released_def m_released_def)
  have cnt: "escrow_count t = i" by (simp add: s' escrow_count_def)
  have "escrow_ok t i e"
    using e inv(1) by (simp add: escrow_ok_def rel fresh cnt s' settings_inv_def)
  moreover have "milestones_ok t i e"
    using e(5) by (auto simp: milestones_ok_def rel fresh vec_get_Some less_imp_le split: option.split)
  moreover have "escrow_ok t x d" if "escrow_ok s x d" "x \<noteq> i" for x d
    using that count by (simp add: escrow_ok_def rel cnt s')
  moreover have "milestones_ok t x d \<longleftrightarrow> milestones_ok s x d" for x d
    by (simp add: milestones_ok_def rel cong: option.case_cong)
  ultimately show "escrow_inv t"
    using escrow_invD [OF inv(2)] by (intro escrow_invI) (auto simp: s' rel split: if_splits)
  have none: "p_dispute s i = None"
    using dispute_invD(1) [OF inv(3), of i] fresh(1) by (cases "p_dispute s i") auto
  have "dispute_ok now t x d r \<longleftrightarrow> dispute_ok now s x d r" for x d r
    by (simp add: dispute_ok_def reading_defs same majority_frame [of t s])
  moreover have "no_dispute t x" if "no_dispute s x" for x
    using that e(4) by (auto simp: no_dispute_def reading_defs same s' split: if_splits)
  ultimately show "dispute_inv now t"
    using dispute_invD [OF inv(3)] none by (intro dispute_invI) (auto simp: same s')
  have "total_locked t = total_locked s - locked i s + locked i t"
    by (rule locked_change) (simp_all add: s' rel)
  moreover have "locked i s = 0" "locked i t = e_amount e"
    using e(4) by (simp_all add: locked_def s' rel fresh)
  ultimately show "total_locked t = total_locked s + e_amount e" by simp
qed

section \<open>A released tranche\<close>

lemma vec_get_set:
  "vec_get (vec_set xs k x) k' = (if k' = k \<and> unat k < length xs then Some x else vec_get xs k')"
  by (auto simp: vec_get_def vec_set_def nth_list_update word_unat_eq_iff)

lemma release_accounting:
  assumes inv: "escrow_inv s" "dispute_inv now s"
    and e: "p_escrow s i = Some e" "e_status e = Active" and m: "vec_get (e_milestones e) k = Some m"
    and g: "0 < g" "m_released i k s + g \<le> m_amount m" "released i s + g \<le> e_amount e"
    and t: "p_escrow t = (p_escrow s)(i \<mapsto> escrow_after_release e k m (released i s + g))"
      "p_milestone_released t = (p_milestone_released s)
         (\<lparr>k_escrow_id = i, k_milestone_index = k\<rparr> \<mapsto> m_released i k s + g)"
      "p_escrow_released t = (p_escrow_released s)(i \<mapsto> released i s + g)"
    and same: "p_escrow_fee_config t = p_escrow_fee_config s" "i_escrow_counter t = i_escrow_counter s"
      "p_dispute t = p_dispute s" "p_dispute_voters t = p_dispute_voters s"
      "p_juror_commit t = p_juror_commit s" "p_juror_vote t = p_juror_vote s"
  shows "escrow_inv t" and "dispute_inv now t" and "total_locked t = total_locked s - g"
proof -
  let ?e = "escrow_after_release e k m (released i s + g)"
  have rel: "released x t = (if x = i then released i s + g else released x s)" for x
    by (simp add: released_def t)
  have mrel: "m_released x y t = (if x = i \<and> y = k then m_released i k s + g else m_released x y s)" for x y
    by (simp add: m_released_def t)
  note ok = escrow_invD(1) [OF inv(1) e(1)] and mok = escrow_invD(2) [OF inv(1) e(1)]
  have "escrow_ok t i ?e"
    using ok g e(2) by (auto simp: escrow_ok_def rel escrow_after_release_def same escrow_count_def)
  moreover have "milestones_ok t i ?e"
  proof -
    have "(\<Sum>y\<in>UNIV. m_released i y t) = (\<Sum>y\<in>UNIV. m_released i y s) - m_released i k s + m_released i k t"
      by (rule sum_point_change) (simp add: mrel)
    then have "(\<Sum>y\<in>UNIV. m_released i y t) = released i t"
      using mok by (simp add: milestones_ok_def rel mrel)
    moreover have "unat k < length (e_milestones e)" using m by (simp add: vec_get_Some)
    then have "vec_get (e_milestones ?e) y =
        (if y = k then Some (m\<lparr>m_approved := True\<rparr>) else vec_get (e_milestones e) y)" for y
      by (simp add: escrow_after_release_def vec_get_set)
    moreover have "0 \<le> m_released i k s" using mok by (simp add: milestones_ok_def)
    ultimately show ?thesis
      using mok g m unfolding milestones_ok_def
      by (auto simp: mrel split: if_splits option.splits) (metis option.distinct(1))+
  qed
  moreover have "escrow_ok t x d" if "escrow_ok s x d" "x \<noteq> i" for x d
    using that by (simp add: escrow_ok_def rel same escrow_count_def)
  moreover have "milestones_ok t x d \<longleftrightarrow> milestones_ok s x d" if "x \<noteq> i" for x d
    using that by (simp add: milestones_ok_def rel mrel cong: option.case_cong)
  ultimately show "escrow_inv t"
    using escrow_invD [OF inv(1)] by (intro escrow_invI) (auto simp: t(1) rel mrel split: if_splits)
  have none: "p_dispute s i = None" by (rule active_no_dispute [OF inv(2) e])
  have "dispute_ok now t x d r \<longleftrightarrow> dispute_ok now s x d r" for x d r
    by (simp add: dispute_ok_def reading_defs same majority_frame [of t s])
  moreover have "no_dispute t x" if "no_dispute s x" for x
    using that e(2) by (auto simp: no_dispute_def reading_defs same t(1) escrow_after_release_def
        split: if_splits)
  ultimately show "dispute_inv now t"
    using dispute_invD [OF inv(2)] none by (intro dispute_invI) (auto simp: same t(1))
  have "total_locked t = total_locked s - locked i s + locked i t"
    by (rule locked_change) (simp_all add: t(1) rel)
  moreover have "locked i t = locked i s - g"
    using e by (simp add: locked_def t(1) rel escrow_after_release_def)
  ultimately show "total_locked t = total_locked s - g" by simp
qed

section \<open>The administrator's calls and the keeper's\<close>

lemma settings_invD:
  assumes "settings_inv s"
  shows "i_admin s \<noteq> None" "i_token s \<noteq> None" "i_treasury s \<noteq> None"
    "uint (slash_rate s) \<le> 10000" "uint (get_fee_bps s) \<le> 1000"
  using assms by (simp_all add: settings_inv_def)

lemma tf_invD:
  assumes "tf_inv tb cc now s"
  shows "settings_inv s" "stake_inv s" "escrow_inv s" "dispute_inv now s" "funds_inv tb cc s"
  using assms by (simp_all add: tf_inv_def)

lemma fee_bound: "bps \<le> MAX_FEE_BPS \<Longrightarrow> uint bps \<le> 1000"
  by (simp add: MAX_FEE_BPS_def word_le_def)

lemmas quiet_defs = settings_inv_def reading_defs storage_defs

lemma admin_keeps:
  assumes "tf_inv tb cc now s" and "now \<le> later"
  shows "set_fee_bps env caller bps s = Ok (u, s') \<Longrightarrow> tf_inv tb cc later s'"
    and "set_treasury env caller a s = Ok (u, s') \<Longrightarrow> tf_inv tb cc later s'"
    and "set_pauser env caller a s = Ok (u, s') \<Longrightarrow> tf_inv tb cc later s'"
    and "revoke_pauser env caller s = Ok (u, s') \<Longrightarrow> tf_inv tb cc later s'"
    and "pause env caller s = Ok (u, s') \<Longrightarrow> tf_inv tb cc later s'"
    and "unpause env caller s = Ok (u, s') \<Longrightarrow> tf_inv tb cc later s'"
proof -
  note inv = settings_invD [OF tf_invD(1) [OF assms(1)]]
  show "set_fee_bps env caller bps s = Ok (u, s') \<Longrightarrow> tf_inv tb cc later s'"
    using inv fee_bound [of bps]
    by (intro tf_inv_quiet [OF assms]) (auto simp: set_fee_bps_Ok quiet_defs)
  show "set_treasury env caller a s = Ok (u, s') \<Longrightarrow> tf_inv tb cc later s'"
    using inv by (intro tf_inv_quiet [OF assms]) (auto simp: set_treasury_Ok quiet_defs)
  show "set_pauser env caller a s = Ok (u, s') \<Longrightarrow> tf_inv tb cc later s'"
    using inv by (intro tf_inv_quiet [OF assms]) (auto simp: set_pauser_Ok quiet_defs)
  show "revoke_pauser env caller s = Ok (u, s') \<Longrightarrow> tf_inv tb cc later s'"
    using inv by (intro tf_inv_quiet [OF assms]) (auto simp: revoke_pauser_Ok quiet_defs)
  show "pause env caller s = Ok (u, s') \<Longrightarrow> tf_inv tb cc later s'"
    using inv by (intro tf_inv_quiet [OF assms]) (auto simp: pause_Ok quiet_defs)
  show "unpause env caller s = Ok (u, s') \<Longrightarrow> tf_inv tb cc later s'"
    using inv by (intro tf_inv_quiet [OF assms]) (auto simp: unpause_Ok quiet_defs)
qed

lemma keeper_keeps:
  assumes "tf_inv tb cc now s" and "now \<le> later"
  shows "bump_juror_stake_ttl env j s = Ok (l, s') \<Longrightarrow> tf_inv tb cc later s'"
    and "bump_escrow_ttl env i s = Ok (l, s') \<Longrightarrow> tf_inv tb cc later s'"
proof -
  note inv = settings_invD [OF tf_invD(1) [OF assms(1)]]
  show "bump_juror_stake_ttl env j s = Ok (l, s') \<Longrightarrow> tf_inv tb cc later s'"
    using inv by (elim bump_juror_stake_ttl_Ok, intro tf_inv_quiet [OF assms])
      (simp_all add: settings_inv_def reading_defs)
  show "bump_escrow_ttl env i s = Ok (l, s') \<Longrightarrow> tf_inv tb cc later s'"
    using inv by (drule_tac bump_escrow_ttl_Ok, elim exE conjE, intro tf_inv_quiet [OF assms])
      (simp_all add: settings_inv_def reading_defs)
qed

lemma initial_inv:
  assumes "0 \<le> tb token cc w" and "initialize env admin token bps (empty_storage w) = Ok (u, s)"
  shows "tf_inv tb cc (sequence env) s"
proof -
  from assms(2) have bps: "uint bps \<le> 10000"
    and s: "s = extend_instance_ttl env ((empty_storage w)\<lparr>i_admin := Some admin, i_token := Some token,
       i_slash_bps := Some bps, i_escrow_counter := Some 0,
       i_fee_bps := Some DEFAULT_FEE_BPS, i_treasury := Some admin\<rparr>)"
    by (simp_all add: initialize_Ok word_le_def)
  have "settings_inv s" "stake_inv s"
    using bps by (simp_all add: s quiet_defs stake_inv_def empty_storage_def DEFAULT_FEE_BPS_def)
  moreover have "escrow_inv s" "dispute_inv (sequence env) s"
    by (simp_all add: s quiet_defs escrow_inv_def dispute_inv_def no_dispute_def empty_storage_def)
  moreover have "funds_inv tb cc s"
    using assms(1)
    by (simp add: s quiet_defs funds_inv_def total_locked_def locked_def total_stake_def empty_storage_def)
  ultimately show ?thesis by (simp add: tf_inv_def)
qed

section \<open>A change of status\<close>

lemma escrow_status_change:
  assumes inv: "escrow_inv s" and e: "p_escrow s i = Some e"
    and st: "e_status e \<noteq> Settled \<or> st = Settled"
    and t: "p_escrow t = (p_escrow s)(i \<mapsto> e\<lparr>e_status := st\<rparr>)"
      "i_escrow_counter t = i_escrow_counter s" "p_escrow_fee_config t = p_escrow_fee_config s"
      "p_escrow_released t = p_escrow_released s" "p_milestone_released t = p_milestone_released s"
  shows "escrow_inv t"
proof (rule escrow_invI)
  have rel: "released x t = released x s" "m_released x k t = m_released x k s"
    "escrow_count t = escrow_count s" for x k by (simp_all add: t reading_defs)
  have ok: "escrow_ok t x d \<longleftrightarrow> escrow_ok s x d" "milestones_ok t x d \<longleftrightarrow> milestones_ok s x d" for x d
    by (simp_all add: escrow_ok_def milestones_ok_def rel t cong: option.case_cong)
  have "escrow_ok s i (e\<lparr>e_status := st\<rparr>)" "milestones_ok s i (e\<lparr>e_status := st\<rparr>)"
    using escrow_invD(1,2) [OF inv e] st by (auto simp: escrow_ok_def milestones_ok_def)
  then show "\<And>x d. p_escrow t x = Some d \<Longrightarrow> escrow_ok t x d \<and> milestones_ok t x d"
    using escrow_invD(1,2) [OF inv] by (auto simp: t(1) ok split: if_splits)
  show "\<And>x. p_escrow t x = None \<Longrightarrow> released x t = 0 \<and> (\<forall>k. m_released x k t = 0)"
    using escrow_invD(3,4) [OF inv] by (auto simp: t(1) rel split: if_splits)
qed

text \<open>What happens to one dispute leaves the others alone.\<close>

lemma dispute_inv_point:
  assumes inv: "dispute_inv now s" and le: "now \<le> later"
    and other: "\<And>x. x \<noteq> i \<Longrightarrow> p_escrow t x = p_escrow s x \<and> p_dispute t x = p_dispute s x
      \<and> voters_of t x = voters_of s x"
      "\<And>x j. x \<noteq> i \<Longrightarrow> commit_of t x j = commit_of s x j \<and> reveal_of t x j = reveal_of s x j"
    and here: "p_dispute t i = Some d" "p_escrow t i = Some e" "dispute_ok later t i e d"
  shows "dispute_inv later t"
proof (rule dispute_invI)
  have "vote_of t x = vote_of s x" if "x \<noteq> i" for x
    using other(2) [OF that] by (simp add: vote_of_def reveal_of_def fun_eq_iff)
  then have maj: "majority_for_depositor t x = majority_for_depositor s x" if "x \<noteq> i" for x
    using other(1) [OF that] that by (simp add: majority_for_depositor_def)
  have ok: "dispute_ok later t x e' d' = dispute_ok later s x e' d'"
    "no_dispute t x = no_dispute s x" if "x \<noteq> i" for x e' d'
    using other [OF that] maj [OF that] by (simp_all add: dispute_ok_def no_dispute_def)
  note inv' = dispute_invD [OF dispute_inv_later [OF inv le]]
  show "\<exists>e. p_escrow t x = Some e \<and> dispute_ok later t x e d'" if "p_dispute t x = Some d'" for x d'
    using that here other(1) ok inv'(1) [of x] by (cases "x = i") auto
  show "no_dispute t x" if "p_dispute t x = None" for x
    using that here other(1) ok inv'(2) [of x] by (cases "x = i") auto
qed

lemma tf_inv_votes:
  assumes "tf_inv tb cc now s" and "escrow_inv t" and "dispute_inv later t"
    and "total_locked t = total_locked s"
    and same: "i_admin t = i_admin s" "i_token t = i_token s" "i_treasury t = i_treasury s"
    "i_slash_bps t = i_slash_bps s" "i_fee_bps t = i_fee_bps s"
    "p_juror_stake t = p_juror_stake s" "world t = world s"
  shows "tf_inv tb cc later t"
  using assms settings_inv_frame [OF same(1-5)] stake_inv_frame [OF same(6)]
    total_stake_frame [OF same(6)]
  by (simp add: tf_inv_def funds_inv_def)

section \<open>The calls that move funds\<close>

context hosted
begin

lemma stake_keeps:
  assumes inv: "tf_inv tb cc now s" "now \<le> sequence env" and run: "stake env j amount s = Ok (u, s')"
  shows "tf_inv tb cc (sequence env) s'"
proof -
  from run obtain token w il lu where auth: "authorized env j" and "0 < amount"
    and token: "i_token s = Some token"
    and pay: "token_transfer env token j (current_contract_address env) amount (world s) = Some w"
    and range: "in_i128 (get_stake j s + amount)"
    and s': "s' = s\<lparr>i_live_until := il, world := w,
           p_juror_stake := (p_juror_stake s)(j \<mapsto> get_stake j s + amount), p_live_until := lu,
           events := events s @ [Staked j amount (get_stake j s + amount)]\<rparr>"
    by (rule stake_Ok)
  have get: "get_stake x s' = (if x = j then get_stake j s + amount else get_stake x s)" for x
    by (simp add: s' get_stake_def)
  have "settings_inv s' = settings_inv s" by (rule settings_inv_frame) (simp_all add: s')
  moreover have "escrow_inv s' = escrow_inv s" by (rule escrow_inv_frame) (simp_all add: s')
  moreover have "dispute_inv now s' = dispute_inv now s" by (rule dispute_inv_frame) (simp_all add: s')
  moreover have "total_locked s' = total_locked s" by (rule locked_frame) (simp_all add: s')
  moreover have "total_stake s' = total_stake s - get_stake j s + get_stake j s'"
    by (rule stake_change) (simp add: get)
  moreover have "stake_inv s'"
    using tf_invD(2) [OF inv(1)] range \<open>0 < amount\<close> by (simp add: stake_inv_def get)
  moreover have "tb token cc w = tb token cc (world s) + amount" by (rule receives [OF pay auth])
  moreover have "world s' = w" "i_token s' = Some token" by (simp_all add: s' token)
  ultimately show ?thesis
    using tf_invD [OF inv(1)] inv(2) token dispute_inv_later [of now s' "sequence env"]
    by (simp add: tf_inv_def funds_inv_def get)
qed

lemma unstake_keeps:
  assumes inv: "tf_inv tb cc now s" "now \<le> sequence env" and run: "unstake env j amount s = Ok (u, s')"
  shows "tf_inv tb cc (sequence env) s'"
proof -
  from run obtain token w il lu where "amount \<le> get_stake j s" and token: "i_token s = Some token"
    and pay: "token_transfer env token (current_contract_address env) j amount (world s) = Some w"
    and range: "in_i128 (get_stake j s - amount)"
    and s': "s' = s\<lparr>i_live_until := il, world := w,
           p_juror_stake := (p_juror_stake s)(j \<mapsto> get_stake j s - amount), p_live_until := lu,
           events := events s @ [Unstaked j amount (get_stake j s - amount)]\<rparr>"
    by (rule unstake_Ok)
  have get: "get_stake x s' = (if x = j then get_stake j s - amount else get_stake x s)" for x
    by (simp add: s' get_stake_def)
  have "settings_inv s' = settings_inv s" by (rule settings_inv_frame) (simp_all add: s')
  moreover have "escrow_inv s' = escrow_inv s" by (rule escrow_inv_frame) (simp_all add: s')
  moreover have "dispute_inv now s' = dispute_inv now s" by (rule dispute_inv_frame) (simp_all add: s')
  moreover have "total_locked s' = total_locked s" by (rule locked_frame) (simp_all add: s')
  moreover have "total_stake s' = total_stake s - get_stake j s + get_stake j s'"
    by (rule stake_change) (simp add: get)
  moreover have "stake_inv s'"
    using tf_invD(2) [OF inv(1)] range \<open>amount \<le> get_stake j s\<close> by (simp add: stake_inv_def get)
  moreover have "tb token cc (world s) - amount \<le> tb token cc w"
    using transfer_out_le [of token cc j amount "world s" w] pay by (simp add: runs_at)
  moreover have "world s' = w" "i_token s' = Some token" by (simp_all add: s' token)
  ultimately show ?thesis
    using tf_invD [OF inv(1)] inv(2) token dispute_inv_later [of now s' "sequence env"]
    by (simp add: tf_inv_def funds_inv_def get)
qed

text \<open>Creating an escrow, with or without milestones, locks exactly what it receives.\<close>

lemma locks_keeps:
  assumes inv: "tf_inv tb cc now s" "now \<le> sequence env"
    and auth: "authorized env d" and token: "i_token s = Some token"
    and pay: "token_transfer env token d (current_contract_address env) amount (world s) = Some w"
    and next_id: "checked_add_word (escrow_count s) 1 = Some i"
    and e: "e_id e = i" "e_amount e = amount" "0 < amount" "in_i128 amount" "e_status e = Active"
      "\<forall>m\<in>set (e_milestones e). 0 < m_amount m"
    and same: "p_escrow s' = (p_escrow s)(i \<mapsto> e)" "i_escrow_counter s' = Some i"
      "p_escrow_fee_config s' = (p_escrow_fee_config s)(i \<mapsto> \<lparr>f_treasury = tr, f_fee_bps = get_fee_bps s\<rparr>)"
      "p_escrow_released s' = p_escrow_released s" "p_milestone_released s' = p_milestone_released s"
      "p_dispute s' = p_dispute s" "p_dispute_voters s' = p_dispute_voters s"
      "p_juror_commit s' = p_juror_commit s" "p_juror_vote s' = p_juror_vote s"
    and rest: "world s' = w" "i_token s' = Some token" "p_juror_stake s' = p_juror_stake s"
      "i_admin s' = i_admin s" "i_treasury s' = i_treasury s" "i_slash_bps s' = i_slash_bps s"
      "i_fee_bps s' = i_fee_bps s"
  shows "tf_inv tb cc (sequence env) s'"
proof -
  note invs = tf_invD [OF inv(1)]
  note new = new_escrow [OF invs(1,3,4) next_id e(1) _ _ e(5,6) same, unfolded e(2), OF e(3,4)]
  have "settings_inv s' = settings_inv s" by (rule settings_inv_frame) (simp_all add: rest token)
  moreover have "stake_inv s' = stake_inv s" by (rule stake_inv_frame) (rule rest)
  moreover have "total_stake s' = total_stake s" by (rule total_stake_frame) (rule rest)
  moreover have "tb token cc w = tb token cc (world s) + amount" by (rule receives [OF pay auth])
  ultimately show ?thesis
    using new invs token inv(2) dispute_inv_later [OF new(2)] by (simp add: tf_inv_def funds_inv_def rest)
qed

lemma create_escrow_keeps:
  assumes inv: "tf_inv tb cc now s" "now \<le> sequence env" and range: "in_i128 amount"
    and run: "create_escrow env d b amount s = Ok (i, s')"
  shows "tf_inv tb cc (sequence env) s'"
proof -
  from run obtain token w treasury il lu where *: "authorized env d" "i_token s = Some token"
      "token_transfer env token d (current_contract_address env) amount (world s) = Some w"
      "checked_add_word (escrow_count s) 1 = Some i" and pos: "0 < amount"
    and s': "s' = s\<lparr>i_live_until := il, world := w, i_escrow_counter := Some i,
           p_escrow := (p_escrow s)(i \<mapsto>
             \<lparr>e_id = i, e_depositor = d, e_beneficiary = b,
              e_amount = amount, e_status = Active, e_milestones = []\<rparr>),
           p_escrow_fee_config := (p_escrow_fee_config s)(i \<mapsto>
             \<lparr>f_treasury = treasury, f_fee_bps = get_fee_bps s\<rparr>), p_live_until := lu\<rparr>"
    by (rule create_escrow_Ok)
  show ?thesis by (rule locks_keeps [OF inv *, where tr = treasury
        and e = "\<lparr>e_id = i, e_depositor = d, e_beneficiary = b, e_amount = amount, e_status = Active, e_milestones = []\<rparr>"])
      (simp_all add: pos range s' \<open>i_token s = Some token\<close>)
qed

lemma init_escrow_keeps:
  assumes inv: "tf_inv tb cc now s" "now \<le> sequence env"
    and run: "init_escrow env d b ms s = Ok (i, s')"
  shows "tf_inv tb cc (sequence env) s'"
proof -
  from init_escrow_Ok [OF run] obtain tot token w treasury il lu where
      tot: "milestones_total ms 0 = Ok tot" and pos: "0 < tot"
    and *: "authorized env d" "i_token s = Some token"
      "token_transfer env token d (current_contract_address env) tot (world s) = Some w"
      "checked_add_word (escrow_count s) 1 = Some i"
    and s': "s' = s\<lparr>i_live_until := il, world := w, i_escrow_counter := Some i,
           p_escrow := (p_escrow s)(i \<mapsto>
             \<lparr>e_id = i, e_depositor = d, e_beneficiary = b,
              e_amount = tot, e_status = Active, e_milestones = ms\<rparr>),
           p_escrow_fee_config := (p_escrow_fee_config s)(i \<mapsto>
             \<lparr>f_treasury = treasury, f_fee_bps = get_fee_bps s\<rparr>),
           p_live_until := lu, events := events s @ [EscrowInitialized i d b tot]\<rparr>" by blast
  from milestones_total_Ok [OF tot] pos have "in_i128 tot" "\<forall>m\<in>set ms. 0 < m_amount m"
    by (cases "ms = []"; simp)+
  then show ?thesis by (intro locks_keeps [OF inv *, where tr = treasury
        and e = "\<lparr>e_id = i, e_depositor = d, e_beneficiary = b, e_amount = tot, e_status = Active, e_milestones = ms\<rparr>"])
      (simp_all add: pos s' \<open>i_token s = Some token\<close>)
qed

lemma release_keeps:
  assumes inv: "tf_inv tb cc now s" "now \<le> sequence env"
    and run: "release_milestone_tranche env i k g caller s = Ok (u, s')"
  shows "tf_inv tb cc (sequence env) s'"
proof -
  note invs = tf_invD [OF inv(1)]
  from release_Ok [OF run] obtain e m cfg fb fa token w1 w2 il lu where
      e: "p_escrow s i = Some e" "e_status e = Active" and m: "vec_get (e_milestones e) k = Some m"
    and g: "0 < g" "m_released i k s + g \<le> m_amount m" "released i s + g \<le> e_amount e"
    and token: "i_token s = Some token" and "p_escrow_fee_config s i = Some cfg"
    and pay: "paid env token (current_contract_address env) (e_beneficiary e) (g - (fa - fb)) (world s) w1"
      "paid env token (current_contract_address env) (f_treasury cfg) (fa - fb) w1 w2"
    and s': "s' = s\<lparr>i_live_until := il,
           p_escrow := (p_escrow s)(i \<mapsto> escrow_after_release e k m (released i s + g)),
           p_milestone_released := (p_milestone_released s)
             (\<lparr>k_escrow_id = i, k_milestone_index = k\<rparr> \<mapsto> m_released i k s + g),
           p_escrow_released := (p_escrow_released s)(i \<mapsto> released i s + g),
           p_live_until := lu, world := w2,
           events := events s @ [MilestoneTrancheReleased i k g (fa - fb) (g - (fa - fb))
             (m_released i k s + g) (released i s + g) (e_beneficiary e) (f_treasury cfg)]\<rparr>"
    by blast
  have t: "p_escrow s' = (p_escrow s)(i \<mapsto> escrow_after_release e k m (released i s + g))"
      "p_milestone_released s' = (p_milestone_released s)
         (\<lparr>k_escrow_id = i, k_milestone_index = k\<rparr> \<mapsto> m_released i k s + g)"
      "p_escrow_released s' = (p_escrow_released s)(i \<mapsto> released i s + g)"
      "p_escrow_fee_config s' = p_escrow_fee_config s" "i_escrow_counter s' = i_escrow_counter s"
      "p_dispute s' = p_dispute s" "p_dispute_voters s' = p_dispute_voters s"
      "p_juror_commit s' = p_juror_commit s" "p_juror_vote s' = p_juror_vote s"
    and rest: "world s' = w2" "i_token s' = Some token" by (simp_all add: s' token)
  note acc = release_accounting [OF invs(3,4) e m g t]
  have "settings_inv s' = settings_inv s" by (rule settings_inv_frame) (simp_all add: s')
  moreover have "stake_inv s' = stake_inv s" by (rule stake_inv_frame) (simp add: s')
  moreover have "total_stake s' = total_stake s" by (rule total_stake_frame) (simp add: s')
  moreover have "tb token cc (world s) - g \<le> tb token cc w2"
    using pays [OF pay(1)] pays [OF pay(2)] by simp
  ultimately show ?thesis
    using acc invs token inv(2) dispute_inv_later [OF acc(2)] by (simp add: tf_inv_def funds_inv_def rest)
qed

text \<open>The dispute's calls.\<close>

lemma raise_dispute_keeps:
  assumes inv: "tf_inv tb cc now s" "now \<le> sequence env"
    and run: "raise_dispute env i caller reason s = Ok (u, s')"
  shows "tf_inv tb cc (sequence env) s'"
proof -
  note invs = tf_invD [OF inv(1)]
  let ?cd = "saturating_add (sequence env) COMMIT_WINDOW_LEDGERS"
  let ?d = "\<lparr>d_escrow_id = i, d_raised_by = caller, d_reason = reason, d_resolved = False,
              d_ruling_for_depositor = False, d_commit_deadline = ?cd,
              d_reveal_deadline = saturating_add ?cd REVEAL_WINDOW_LEDGERS\<rparr>"
  from raise_dispute_Ok [OF run] obtain e il lu where e: "p_escrow s i = Some e" "e_status e = Active"
    and s': "s' = s\<lparr>i_live_until := il, p_escrow := (p_escrow s)(i \<mapsto> e\<lparr>e_status := Disputed\<rparr>),
           p_dispute := (p_dispute s)(i \<mapsto> ?d), p_live_until := lu\<rparr>" by blast
  have none: "no_dispute s i"
    by (rule dispute_invD(2) [OF invs(4) active_no_dispute [OF invs(4) e]])
  have reads: "voters_of s' = voters_of s" "commit_of s' = commit_of s" "reveal_of s' = reveal_of s"
    "get_stake j s' = get_stake j s" for j
    by (simp_all add: s' reading_defs fun_eq_iff)
  have "escrow_inv s'"
    by (rule escrow_status_change [OF invs(3) e(1), of Disputed]) (simp_all add: s' e(2))
  moreover have "dispute_inv (sequence env) s'"
    by (rule dispute_inv_point [OF invs(4) inv(2), of i _ ?d "e\<lparr>e_status := Disputed\<rparr>"])
      (use none in \<open>simp_all add: s' dispute_ok_def no_dispute_def reading_defs saturating_add_ge\<close>)
  moreover have "total_locked s' = total_locked s"
    using locked_change [of i s' s] e by (simp add: s' locked_def reading_defs)
  ultimately show ?thesis
    by (intro tf_inv_votes [OF inv(1)]) (simp_all add: s')
qed

lemma commit_vote_keeps:
  assumes inv: "tf_inv tb cc now s" "now \<le> sequence env"
    and run: "commit_vote env i j c s = Ok (u, s')"
  shows "tf_inv tb cc (sequence env) s'"
proof -
  note invs = tf_invD [OF inv(1)]
  from commit_vote_Ok [OF run] obtain d il lu where d: "p_dispute s i = Some d" "\<not> d_resolved d"
      "sequence env < d_commit_deadline d"
    and s': "s' = s\<lparr>i_live_until := il,
           p_juror_commit := (p_juror_commit s)(\<lparr>v_escrow_id = i, v_juror = j\<rparr> \<mapsto> c),
           p_live_until := lu, events := events s @ [VoteCommitted i j]\<rparr>" by blast
  from dispute_invD(1) [OF invs(4) d(1)] obtain e where e: "p_escrow s i = Some e"
    and ok: "dispute_ok now s i e d" by blast
  have early: "\<not> d_commit_deadline d \<le> now" using d(3) inv(2) by simp
  with ok have "voters_of s i = []" "\<And>x. reveal_of s i x = None" by (auto simp: dispute_ok_def)
  then have "dispute_ok (sequence env) s' i e d"
    using ok d(2) by (simp add: s' dispute_ok_def reading_defs)
  then have "dispute_inv (sequence env) s'"
    by (intro dispute_inv_point [OF invs(4) inv(2), of i _ d e]) (simp_all add: s' reading_defs d e)
  moreover have "escrow_inv s' = escrow_inv s" by (rule escrow_inv_frame) (simp_all add: s')
  moreover have "total_locked s' = total_locked s" by (rule locked_frame) (simp_all add: s')
  ultimately show ?thesis
    by (intro tf_inv_votes [OF inv(1)]) (use invs in \<open>simp_all add: s'\<close>)
qed

lemma reveal_vote_keeps:
  assumes inv: "tf_inv tb cc now s" "now \<le> sequence env"
    and run: "reveal_vote env i j v salt s = Ok (u, s')"
  shows "tf_inv tb cc (sequence env) s'"
proof -
  note invs = tf_invD [OF inv(1)]
  from reveal_vote_Ok [OF run] obtain d il lu where d: "p_dispute s i = Some d" "\<not> d_resolved d"
      "d_commit_deadline d \<le> sequence env" and fresh: "reveal_of s i j = None"
    and s': "s' = s\<lparr>i_live_until := il,
           p_juror_vote := (p_juror_vote s)(\<lparr>v_escrow_id = i, v_juror = j\<rparr> \<mapsto> v),
           p_juror_commit := (p_juror_commit s)(\<lparr>v_escrow_id = i, v_juror = j\<rparr> := None),
           p_dispute_voters := (p_dispute_voters s)(i \<mapsto> voters_of s i @ [j]),
           p_live_until := lu, events := events s @ [VoteRevealed i j v]\<rparr>"
    unfolding reveal_of_def voters_of_def by blast
  from dispute_invD(1) [OF invs(4) d(1)] obtain e where e: "p_escrow s i = Some e"
    and ok: "dispute_ok now s i e d" by blast
  have reads: "voters_of s' x = (if x = i then voters_of s i @ [j] else voters_of s x)"
    "commit_of s' x y = (if x = i \<and> y = j then None else commit_of s x y)"
    "reveal_of s' x y = (if x = i \<and> y = j then Some v else reveal_of s x y)" for x y
    by (simp_all add: s' voters_of_def commit_of_def reveal_of_def)
  have "dispute_ok (sequence env) s' i e d"
    using ok d fresh unfolding dispute_ok_def reads by auto
  then have "dispute_inv (sequence env) s'"
    by (intro dispute_inv_point [OF invs(4) inv(2), of i _ d e]) (simp_all add: reads, simp_all add: s' d e)
  moreover have "escrow_inv s' = escrow_inv s" by (rule escrow_inv_frame) (simp_all add: s')
  moreover have "total_locked s' = total_locked s" by (rule locked_frame) (simp_all add: s')
  ultimately show ?thesis
    by (intro tf_inv_votes [OF inv(1)]) (use invs in \<open>simp_all add: s'\<close>)
qed

lemma resolve_dispute_keeps:
  assumes inv: "tf_inv tb cc now s" "now \<le> sequence env"
    and run: "resolve_dispute env i s = Ok (ruling, s')"
  shows "tf_inv tb cc (sequence env) s'"
proof -
  note invs = tf_invD [OF inv(1)]
  from run obtain d where d: "p_dispute s i = Some d"
    by (auto simp: resolve_dispute_def Let_def outcome_ok extend_instance_ttl_def)
  from dispute_invD(1) [OF invs(4) d] obtain e where e: "p_escrow s i = Some e"
    and ok: "dispute_ok now s i e d" by blast
  then have "distinct (voters_of s i)" by (simp add: dispute_ok_def)
  from resolve_dispute_Ok [OF run this] d e obtain token w stakes counts il lu evs where
      open_d: "\<not> d_resolved d" and due: "d_reveal_deadline d \<le> sequence env" "voters_of s i \<noteq> []"
    and ruling: "ruling = majority_for_depositor s i" and token: "i_token s = Some token"
    and pay: "if 0 < e_amount e - released i s
        then token_transfer env token (current_contract_address env)
               (if ruling then e_depositor e else e_beneficiary e)
               (e_amount e - released i s) (world s) = Some w
        else w = world s"
    and stakes: "\<forall>j. unwrap_or (stakes j) 0 = get_stake j s
          - (if j \<in> set (voters_of s i) then slashed s i ruling (slash_rate s) j else 0)"
    and s': "s' = s\<lparr>i_live_until := il, p_juror_stake := stakes, p_juror_slash_count := counts,
           events := evs,
           p_dispute := (p_dispute s)(i \<mapsto> d\<lparr>d_resolved := True, d_ruling_for_depositor := ruling\<rparr>),
           world := w, p_escrow := (p_escrow s)(i \<mapsto> e\<lparr>e_status := Settled\<rparr>), p_live_until := lu\<rparr>"
    by auto
  have "0 \<le> slashed s i ruling (slash_rate s) j \<and> slashed s i ruling (slash_rate s) j \<le> get_stake j s" for j
    using slash_amount_bounds(1,2) [of "get_stake j s" "slash_rate s"] invs(2)
      settings_invD(4) [OF invs(1)] by (simp add: slashed_def stake_inv_def)
  then have cut: "0 \<le> get_stake j s' \<and> get_stake j s' \<le> get_stake j s" for j
    using stakes invs(2) by (auto simp: s' get_stake_def stake_inv_def)
  then have "stake_inv s'" using invs(2) in_i128_mono by (auto simp: stake_inv_def)
  moreover have "total_stake s' \<le> total_stake s"
    using cut by (auto simp: total_stake_def intro: sum_mono)
  moreover have "settings_inv s' = settings_inv s" by (rule settings_inv_frame) (simp_all add: s')
  moreover have "escrow_inv s'"
    by (rule escrow_status_change [OF invs(3) e, of Settled]) (simp_all add: s')
  moreover have "dispute_ok (sequence env) s' i (e\<lparr>e_status := Settled\<rparr>)
      (d\<lparr>d_resolved := True, d_ruling_for_depositor := ruling\<rparr>)"
    using ok open_d due ruling inv(2) majority_frame [of s' s]
    by (auto simp: dispute_ok_def s' reading_defs)
  then have "dispute_inv (sequence env) s'"
    by (intro dispute_inv_point [OF invs(4) inv(2), of i]) (auto simp: s' reading_defs)
  moreover have "total_locked s' = total_locked s - (e_amount e - released i s)"
    using locked_change [of i s' s] ok open_d by (simp add: s' locked_def reading_defs e dispute_ok_def)
  moreover have "tb token cc (world s) - (e_amount e - released i s) \<le> tb token cc w"
    using pay escrow_invD(1) [OF invs(3) e] transfer_out_le [of token cc _ _ "world s" w]
    by (auto simp: runs_at escrow_ok_def split: if_splits)
  moreover have "world s' = w" "i_token s' = Some token" by (simp_all add: s' token)
  ultimately show ?thesis using invs token by (simp add: tf_inv_def funds_inv_def)
qed

text \<open>All calls together.\<close>

lemma call_keeps:
  assumes inv: "tf_inv tb cc now s" "now \<le> sequence env"
    and run: "exec env c s = Ok s'" and once: "\<not> reinitializes c"
  shows "tf_inv tb cc (sequence env) s'"
proof -
  from run have dec: "decodes c" and disp: "dispatch env c s = Ok s'"
    by (simp_all add: exec_def split: if_splits)
  note keeps = admin_keeps [OF inv] keeper_keeps [OF inv] stake_keeps [OF inv]
    unstake_keeps [OF inv] create_escrow_keeps [OF inv] init_escrow_keeps [OF inv]
    release_keeps [OF inv] raise_dispute_keeps [OF inv] commit_vote_keeps [OF inv]
    reveal_vote_keeps [OF inv] resolve_dispute_keeps [OF inv]
  show ?thesis using disp dec once by (cases c) (auto simp: state_of_Ok intro: keeps)
qed

end

section \<open>Reachable states\<close>

lemma tf_inv_time: "tf_inv tb cc now s \<Longrightarrow> now \<le> later \<Longrightarrow> tf_inv tb cc later s"
  by (auto simp: tf_inv_def intro: dispute_inv_later)

lemma tf_inv_world:
  assumes inv: "tf_inv tb cc now s" and world: "\<And>t. i_token s = Some t \<Longrightarrow> tb t cc (world s) \<le> tb t cc w"
  shows "tf_inv tb cc now (s\<lparr>world := w\<rparr>)"
proof -
  let ?t = "s\<lparr>world := w\<rparr>"
  have "settings_inv ?t = settings_inv s" by (rule settings_inv_frame) simp_all
  moreover have "stake_inv ?t = stake_inv s" by (rule stake_inv_frame) simp
  moreover have "escrow_inv ?t = escrow_inv s" by (rule escrow_inv_frame) simp_all
  moreover have "dispute_inv now ?t = dispute_inv now s" by (rule dispute_inv_frame) simp_all
  moreover have "total_locked ?t = total_locked s" by (rule locked_frame) simp_all
  moreover have "total_stake ?t = total_stake s" by (rule total_stake_frame) simp
  ultimately show ?thesis
    using inv world by (fastforce simp: tf_inv_def funds_inv_def)
qed

lemma reachable_inv:
  assumes "tf_reachable tb cc (now, s)"
  shows "tf_inv tb cc now s"
  by (rule tf_invariant [OF assms])
    (auto intro: initial_inv hosted.call_keeps tf_inv_time tf_inv_world)

end
