(* ===== verification/TrustFlow_History.thy ===== *)
theory TrustFlow_History
  imports TrustFlow_Preservation
begin

text \<open>
  How the escrow contract's state evolves: what no call can ever undo or rewrite (the terms of
  an escrow, its fee snapshot, a dispute and its deadlines, a revealed vote), what only grows,
  and the fees of an escrow as the log of published events records them.
\<close>

section \<open>What stays and what grows\<close>

definition same_terms :: "escrow_record \<Rightarrow> escrow_record \<Rightarrow> bool" where
  "same_terms e e' \<longleftrightarrow> e_id e' = e_id e \<and> e_depositor e' = e_depositor e
     \<and> e_beneficiary e' = e_beneficiary e \<and> e_amount e' = e_amount e
     \<and> map (\<lambda>m. (m_label m, m_amount m, m_release_time m)) (e_milestones e') =
       map (\<lambda>m. (m_label m, m_amount m, m_release_time m)) (e_milestones e)"

fun status_rank :: "escrow_status \<Rightarrow> nat" where
  "status_rank Active = 0"
| "status_rank Disputed = 1"
| "status_rank Settled = 2"

definition same_dispute :: "dispute_record \<Rightarrow> dispute_record \<Rightarrow> bool" where
  "same_dispute d d' \<longleftrightarrow> d_escrow_id d' = d_escrow_id d \<and> d_raised_by d' = d_raised_by d
     \<and> d_reason d' = d_reason d \<and> d_commit_deadline d' = d_commit_deadline d
     \<and> d_reveal_deadline d' = d_reveal_deadline d \<and> (d_resolved d \<longrightarrow> d' = d)"

lemma same_terms_refl [simp]: "same_terms e e"
  by (simp add: same_terms_def)

lemma same_dispute_refl [simp]: "same_dispute d d"
  by (simp add: same_dispute_def)

definition evolves :: "'w trustflow \<Rightarrow> 'w trustflow \<Rightarrow> bool" where
  "evolves s t \<longleftrightarrow> i_admin t = i_admin s \<and> i_token t = i_token s \<and> i_slash_bps t = i_slash_bps s
     \<and> (\<forall>i e. p_escrow s i = Some e \<longrightarrow> (\<exists>e'. p_escrow t i = Some e' \<and> same_terms e e'
          \<and> status_rank (e_status e) \<le> status_rank (e_status e')))
     \<and> (\<forall>i cfg. p_escrow_fee_config s i = Some cfg \<longrightarrow> p_escrow_fee_config t i = Some cfg)
     \<and> (\<forall>i d. p_dispute s i = Some d \<longrightarrow> (\<exists>d'. p_dispute t i = Some d' \<and> same_dispute d d'))
     \<and> (\<forall>i j v. reveal_of s i j = Some v \<longrightarrow> reveal_of t i j = Some v)
     \<and> (\<forall>i. released i s \<le> released i t) \<and> (\<forall>i k. m_released i k s \<le> m_released i k t)
     \<and> (\<forall>j. uint (get_slash_count j s) \<le> uint (get_slash_count j t))"

lemma evolvesD:
  assumes "evolves s t"
  shows "i_admin t = i_admin s" "i_token t = i_token s" "i_slash_bps t = i_slash_bps s"
    "p_escrow s i = Some e \<Longrightarrow> \<exists>e'. p_escrow t i = Some e' \<and> same_terms e e'
       \<and> status_rank (e_status e) \<le> status_rank (e_status e')"
    "p_escrow_fee_config s i = Some cfg \<Longrightarrow> p_escrow_fee_config t i = Some cfg"
    "p_dispute s i = Some d \<Longrightarrow> \<exists>d'. p_dispute t i = Some d' \<and> same_dispute d d'"
    "reveal_of s i j = Some v \<Longrightarrow> reveal_of t i j = Some v"
    "released i s \<le> released i t" "m_released i k s \<le> m_released i k t"
    "uint (get_slash_count j s) \<le> uint (get_slash_count j t)"
  using assms by (auto simp: evolves_def)

lemma evolves_trans:
  assumes "evolves s t" and "evolves t u"
  shows "evolves s u"
proof -
  note st = evolvesD [OF assms(1)] and tu = evolvesD [OF assms(2)]
  have "\<exists>e''. p_escrow u i = Some e'' \<and> same_terms e e'' \<and> status_rank (e_status e) \<le> status_rank (e_status e'')"
    if e: "p_escrow s i = Some e" for i e
  proof -
    from st(4) [OF e] obtain e' where "p_escrow t i = Some e'" and e': "same_terms e e'"
      "status_rank (e_status e) \<le> status_rank (e_status e')" by blast
    from tu(4) [OF this(1)] e' show ?thesis by (force simp: same_terms_def)
  qed
  moreover have "\<exists>d''. p_dispute u i = Some d'' \<and> same_dispute d d''" if d: "p_dispute s i = Some d" for i d
  proof -
    from st(6) [OF d] obtain d' where "p_dispute t i = Some d'" and d': "same_dispute d d'" by blast
    from tu(6) [OF this(1)] d' show ?thesis by (force simp: same_dispute_def)
  qed
  ultimately show ?thesis
    using st tu order_trans [OF st(8) tu(8)] order_trans [OF st(9) tu(9)] order_trans [OF st(10) tu(10)]
    by (simp add: evolves_def)
qed

lemma evolves_quiet:
  assumes "i_admin t = i_admin s" "i_token t = i_token s" "i_slash_bps t = i_slash_bps s"
    "p_escrow t = p_escrow s" "p_escrow_fee_config t = p_escrow_fee_config s"
    "p_dispute t = p_dispute s" "p_juror_vote t = p_juror_vote s"
    "p_escrow_released t = p_escrow_released s" "p_milestone_released t = p_milestone_released s"
    "p_juror_slash_count t = p_juror_slash_count s"
  shows "evolves s t"
  using assms by (simp add: evolves_def reading_defs get_slash_count_def)

section \<open>Every call evolves the state\<close>

lemma admin_evolves:
  "set_fee_bps env caller bps s = Ok (u, s') \<Longrightarrow> evolves s s'"
  "set_treasury env caller a s = Ok (u, s') \<Longrightarrow> evolves s s'"
  "set_pauser env caller a s = Ok (u, s') \<Longrightarrow> evolves s s'"
  "revoke_pauser env caller s = Ok (u, s') \<Longrightarrow> evolves s s'"
  "pause env caller s = Ok (u, s') \<Longrightarrow> evolves s s'"
  "unpause env caller s = Ok (u, s') \<Longrightarrow> evolves s s'"
  by (auto simp: admin_Ok storage_defs intro!: evolves_quiet)

lemma stake_evolves:
  "stake env j amount s = Ok (u, s') \<Longrightarrow> evolves s s'"
  "unstake env j amount s = Ok (u, s') \<Longrightarrow> evolves s s'"
  "bump_juror_stake_ttl env j s = Ok (l, s') \<Longrightarrow> evolves s s'"
  by (auto elim!: stake_Ok unstake_Ok bump_juror_stake_ttl_Ok intro!: evolves_quiet)

lemma bump_escrow_evolves: "bump_escrow_ttl env i s = Ok (l, s') \<Longrightarrow> evolves s s'"
  by (drule bump_escrow_ttl_Ok) (auto intro!: evolves_quiet)

lemma commit_vote_evolves: "commit_vote env i j c s = Ok (u, s') \<Longrightarrow> evolves s s'"
  by (drule commit_vote_Ok) (auto intro!: evolves_quiet)

lemma create_escrow_evolves:
  assumes "escrow_inv s" and run: "create_escrow env d b amount s = Ok (i, s')"
    and fresh_cfg: "p_escrow s i = None \<Longrightarrow> p_escrow_fee_config s i = None"
  shows "evolves s s'"
  using run
proof (rule create_escrow_Ok)
  assume "checked_add_word (escrow_count s) 1 = Some i"
  then have fresh: "p_escrow s i = None" by (rule fresh_escrow(1) [OF assms(1)])
  fix token w treasury il lu
  assume "s' = s\<lparr>i_live_until := il, world := w, i_escrow_counter := Some i,
     p_escrow := (p_escrow s)(i \<mapsto> \<lparr>e_id = i, e_depositor = d, e_beneficiary = b,
       e_amount = amount, e_status = Active, e_milestones = []\<rparr>),
     p_escrow_fee_config := (p_escrow_fee_config s)(i \<mapsto> \<lparr>f_treasury = treasury, f_fee_bps = get_fee_bps s\<rparr>),
     p_live_until := lu\<rparr>"
  then show ?thesis
    using fresh fresh_cfg by (auto simp: evolves_def reading_defs get_slash_count_def)
qed

lemma init_escrow_evolves:
  assumes "escrow_inv s" and run: "init_escrow env d b ms s = Ok (i, s')"
    and fresh_cfg: "p_escrow s i = None \<Longrightarrow> p_escrow_fee_config s i = None"
  shows "evolves s s'"
  using init_escrow_Ok [OF run] fresh_cfg fresh_escrow(1) [OF assms(1), of i]
  by (elim exE conjE) (auto simp: evolves_def reading_defs get_slash_count_def)

lemma release_evolves:
  assumes run: "release_milestone_tranche env i k g caller s = Ok (u, s')"
  shows "evolves s s'"
proof -
  from release_Ok [OF run] obtain e m w2 ev il lu where
      e: "p_escrow s i = Some e" "e_status e = Active" and m: "vec_get (e_milestones e) k = Some m"
    and g: "0 < g"
    and s': "s' = s\<lparr>i_live_until := il,
           p_escrow := (p_escrow s)(i \<mapsto> escrow_after_release e k m (released i s + g)),
           p_milestone_released := (p_milestone_released s)
             (\<lparr>k_escrow_id = i, k_milestone_index = k\<rparr> \<mapsto> m_released i k s + g),
           p_escrow_released := (p_escrow_released s)(i \<mapsto> released i s + g),
           p_live_until := lu, world := w2, events := events s @ [ev]\<rparr>"
    by (elim exE conjE) (rule that)
  have "same_terms e (escrow_after_release e k m (released i s + g))"
    using m by (simp add: same_terms_def escrow_after_release_def vec_set_def vec_get_Some map_update
        list_update_same_conv)
  then show ?thesis
    using e g by (auto simp: evolves_def s' reading_defs get_slash_count_def)
qed

lemma raise_dispute_evolves:
  assumes "dispute_inv now s" and run: "raise_dispute env i caller reason s = Ok (u, s')"
  shows "evolves s s'"
proof -
  from raise_dispute_Ok [OF run] obtain e where e: "p_escrow s i = Some e" "e_status e = Active"
    by blast
  with active_no_dispute [OF assms(1) e] raise_dispute_Ok [OF run] show ?thesis
    by (elim exE conjE) (auto simp: evolves_def reading_defs get_slash_count_def same_terms_def)
qed

lemma reveal_vote_evolves: "reveal_vote env i j v salt s = Ok (u, s') \<Longrightarrow> evolves s s'"
  by (drule reveal_vote_Ok) (auto simp: evolves_def reading_defs get_slash_count_def)

lemma resolve_dispute_evolves:
  assumes inv: "dispute_inv now s" and run: "resolve_dispute env i s = Ok (ruling, s')"
  shows "evolves s s'"
proof -
  from run obtain d where d: "p_dispute s i = Some d"
    by (auto simp: resolve_dispute_def Let_def outcome_ok extend_instance_ttl_def)
  from dispute_invD(1) [OF inv d] obtain e where e: "p_escrow s i = Some e"
    and ok: "dispute_ok now s i e d" by blast
  then have "distinct (voters_of s i)" by (simp add: dispute_ok_def)
  from resolve_dispute_Ok [OF run this] d e obtain stakes counts w il lu evs where
      open_d: "\<not> d_resolved d"
    and counts: "\<forall>j. uint (unwrap_or (counts j) 0) = uint (get_slash_count j s)
          + (if j \<in> set (voters_of s i) \<and> vote_of s i j \<noteq> ruling then 1 else 0)"
    and s': "s' = s\<lparr>i_live_until := il, p_juror_stake := stakes, p_juror_slash_count := counts,
           events := evs,
           p_dispute := (p_dispute s)(i \<mapsto> d\<lparr>d_resolved := True, d_ruling_for_depositor := ruling\<rparr>),
           world := w, p_escrow := (p_escrow s)(i \<mapsto> e\<lparr>e_status := Settled\<rparr>), p_live_until := lu\<rparr>"
    by auto
  have "get_slash_count j s' = unwrap_or (counts j) 0" for j by (simp add: s' get_slash_count_def)
  with counts have "uint (get_slash_count j s) \<le> uint (get_slash_count j s')" for j by simp
  moreover have "status_rank (e_status e) \<le> status_rank Settled" by (cases "e_status e") simp_all
  ultimately show ?thesis
    using e d open_d by (auto simp: evolves_def s' reading_defs same_terms_def same_dispute_def)
qed

section \<open>The fees in the event log\<close>

fun fee_in :: "u64 \<Rightarrow> tf_event \<Rightarrow> int" where
  "fee_in i (MilestoneTrancheReleased x k gross fee payout ma ea b t) = (if x = i then fee else 0)"
| "fee_in i ev = 0"

fun payout_in :: "u64 \<Rightarrow> tf_event \<Rightarrow> int" where
  "payout_in i (MilestoneTrancheReleased x k gross fee payout ma ea b t) = (if x = i then payout else 0)"
| "payout_in i ev = 0"

definition fees_paid :: "u64 \<Rightarrow> 'w trustflow \<Rightarrow> int" where
  "fees_paid i s = (\<Sum>ev\<leftarrow>events s. fee_in i ev)"

definition payouts_paid :: "u64 \<Rightarrow> 'w trustflow \<Rightarrow> int" where
  "payouts_paid i s = (\<Sum>ev\<leftarrow>events s. payout_in i ev)"

definition fees_ok :: "'w trustflow \<Rightarrow> u64 \<Rightarrow> bool" where
  "fees_ok s i \<longleftrightarrow> (case p_escrow_fee_config s i of
       None \<Rightarrow> p_escrow s i = None \<and> fees_paid i s = 0 \<and> payouts_paid i s = 0
     | Some cfg \<Rightarrow> p_escrow s i \<noteq> None
         \<and> fees_paid i s = exact_fee (released i s) (uint (f_fee_bps cfg))
         \<and> payouts_paid i s = released i s - fees_paid i s)"

definition fees_inv :: "'w trustflow \<Rightarrow> bool" where
  "fees_inv s \<longleftrightarrow> (\<forall>i. fees_ok s i)"

lemma fees_inv_point:
  assumes "fees_inv s" and "fees_ok t i"
    and "\<And>x. x \<noteq> i \<Longrightarrow> p_escrow_fee_config t x = p_escrow_fee_config s x \<and> p_escrow t x = p_escrow s x
      \<and> fees_paid x t = fees_paid x s \<and> payouts_paid x t = payouts_paid x s \<and> released x t = released x s"
  shows "fees_inv t"
  unfolding fees_inv_def
proof
  fix x
  show "fees_ok t x"
  proof (cases "x = i")
    case False
    from assms(3) [OF this] have "fees_ok t x = fees_ok s x"
      by (simp add: fees_ok_def cong: option.case_cong)
    with assms(1) show ?thesis by (simp add: fees_inv_def)
  qed (use assms(2) in simp)
qed

text \<open>The events a resolution publishes are the slashes.\<close>

lemma slash_voters_events:
  "slash_voters env i ruling bps voters s = Ok s' \<Longrightarrow>
     \<exists>new. events s' = events s @ new \<and> (\<forall>ev\<in>set new. \<exists>v a r c. ev = JurorSlashed i v a r c)"
proof (induction voters arbitrary: s)
  case Nil
  then show ?case by simp
next
  case (Cons v voters)
  from Cons.prems obtain t where t: "slash_voter env i ruling bps v s = Ok t"
    and rest: "slash_voters env i ruling bps voters t = Ok s'" by (auto simp: outcome_ok)
  from t have "\<exists>new. events t = events s @ new \<and> (\<forall>ev\<in>set new. \<exists>v a r c. ev = JurorSlashed i v a r c)"
    by (auto simp: slash_voter_def Let_def outcome_ok storage_defs split: if_splits)
  with Cons.IH [OF rest] show ?case by fastforce
qed

lemma resolve_dispute_events:
  assumes "resolve_dispute env i s = Ok (ruling, s')"
  shows "\<exists>new. events s' = events s @ new \<and> (\<forall>ev\<in>set new. \<exists>v a r c. ev = JurorSlashed i v a r c)"
proof -
  from assms obtain d t s2 where
      slash: "slash_voters env i ruling (slash_rate s) (voters_of s i) (extend_instance_ttl env s) = Ok t"
    and s2: "s2 = extend_persistent_ttl env (Dispute i) (set_dispute env i
        (d\<lparr>d_resolved := True, d_ruling_for_depositor := ruling\<rparr>) t)"
    and settle: "settle_escrow env i ruling s2 = Ok s'"
    by (rule resolve_dispute_steps)
  have "events s2 = events t" by (simp add: s2 storage_defs)
  from settle_escrow_Ok [OF settle] have "events s' = events s2" by auto
  with slash_voters_events [OF slash] \<open>events s2 = events t\<close> show ?thesis by (simp add: extend_instance_ttl_def)
qed

lemma fees_quiet:
  assumes inv: "fees_inv s" and same: "p_escrow_fee_config t = p_escrow_fee_config s"
      "\<And>i. p_escrow t i = None \<longleftrightarrow> p_escrow s i = None" "p_escrow_released t = p_escrow_released s"
    and ev: "events t = events s @ new" "\<And>ev i. ev \<in> set new \<Longrightarrow> fee_in i ev = 0 \<and> payout_in i ev = 0"
  shows "fees_inv t"
proof -
  have "(\<Sum>x\<leftarrow>new. fee_in i x) = 0" "(\<Sum>x\<leftarrow>new. payout_in i x) = 0" for i
    using ev(2) by (induction new) auto
  then have "fees_paid i t = fees_paid i s" "payouts_paid i t = payouts_paid i s" for i
    by (simp_all add: fees_paid_def payouts_paid_def ev(1))
  then show ?thesis
    using inv by (simp add: fees_inv_def fees_ok_def same released_def cong: option.case_cong)
qed

lemma fees_new_escrow:
  assumes inv: "fees_inv s" and fresh: "p_escrow s i = None" and rel: "released i s = 0"
    and same: "p_escrow_fee_config t = (p_escrow_fee_config s)(i \<mapsto> cfg)"
      "p_escrow t = (p_escrow s)(i \<mapsto> e)" "p_escrow_released t = p_escrow_released s"
    and ev: "events t = events s @ new" "\<And>ev i. ev \<in> set new \<Longrightarrow> fee_in i ev = 0 \<and> payout_in i ev = 0"
  shows "fees_inv t"
proof -
  have "p_escrow_fee_config s i = None"
    using inv fresh by (auto simp: fees_inv_def fees_ok_def dest!: spec [of _ i] split: option.splits)
  then have none: "fees_paid i s = 0" "payouts_paid i s = 0"
    using inv by (auto simp: fees_inv_def fees_ok_def dest!: spec [of _ i])
  have "(\<Sum>x\<leftarrow>new. fee_in i x) = 0" "(\<Sum>x\<leftarrow>new. payout_in i x) = 0" for i
    using ev(2) by (induction new) auto
  then have "fees_paid x t = fees_paid x s" "payouts_paid x t = payouts_paid x s"
    "released x t = released x s" for x
    by (simp_all add: fees_paid_def payouts_paid_def released_def ev(1) same)
  then show ?thesis
    using none rel by (intro fees_inv_point [OF inv, of _ i]) (simp_all add: fees_ok_def same)
qed

lemma fees_release:
  assumes inv: "fees_inv s" "escrow_inv s" and run: "release_milestone_tranche env i k g caller s = Ok (u, s')"
  shows "fees_inv s'"
proof -
  from release_Ok [OF run] obtain e m cfg fb fa token w1 w2 il lu where
      e: "p_escrow s i = Some e" and g: "0 < g" and le: "released i s + g \<le> e_amount e"
    and cfg: "p_escrow_fee_config s i = Some cfg"
    and fb: "cumulative_fee (released i s) (f_fee_bps cfg) = Ok fb"
    and fa: "cumulative_fee (released i s + g) (f_fee_bps cfg) = Ok fa"
    and s': "s' = s\<lparr>i_live_until := il,
           p_escrow := (p_escrow s)(i \<mapsto> escrow_after_release e k m (released i s + g)),
           p_milestone_released := (p_milestone_released s)
             (\<lparr>k_escrow_id = i, k_milestone_index = k\<rparr> \<mapsto> m_released i k s + g),
           p_escrow_released := (p_escrow_released s)(i \<mapsto> released i s + g),
           p_live_until := lu, world := w2,
           events := events s @ [MilestoneTrancheReleased i k g (fa - fb) (g - (fa - fb))
             (m_released i k s + g) (released i s + g) (e_beneficiary e) (f_treasury cfg)]\<rparr>"
    by blast
  have ok: "0 \<le> released i s" "in_i128 (e_amount e)" "uint (f_fee_bps cfg) \<le> 1000"
    using escrow_invD(1) [OF inv(2) e] cfg by (auto simp: escrow_ok_def)
  then have "in_i128 (released i s)" "in_i128 (released i s + g)"
    using g le in_i128_mono [OF ok(2)] by auto
  then have fees: "fb = exact_fee (released i s) (uint (f_fee_bps cfg))"
    "fa = exact_fee (released i s + g) (uint (f_fee_bps cfg))"
    using ok g fb fa by (simp_all add: cumulative_fee_total)
  have "fees_paid x s' = fees_paid x s + (if x = i then fa - fb else 0)"
    "payouts_paid x s' = payouts_paid x s + (if x = i then g - (fa - fb) else 0)"
    "released x s' = released x s + (if x = i then g else 0)" for x
    by (simp_all add: fees_paid_def payouts_paid_def released_def s')
  then show ?thesis
    using inv(1) cfg
    by (intro fees_inv_point [OF inv(1), of _ i]) (auto simp: fees_inv_def fees_ok_def s' fees dest!: spec [of _ i])
qed

lemma fees_admin:
  assumes "fees_inv s"
  shows "set_fee_bps env caller bps s = Ok (u, s') \<Longrightarrow> fees_inv s'"
    and "set_treasury env caller a s = Ok (u, s') \<Longrightarrow> fees_inv s'"
    and "set_pauser env caller a s = Ok (u, s') \<Longrightarrow> fees_inv s'"
    and "revoke_pauser env caller s = Ok (u, s') \<Longrightarrow> fees_inv s'"
    and "pause env caller s = Ok (u, s') \<Longrightarrow> fees_inv s'"
    and "unpause env caller s = Ok (u, s') \<Longrightarrow> fees_inv s'"
  by (auto simp: admin_Ok storage_defs intro: fees_quiet [OF assms] split: if_splits)

lemma fees_others:
  assumes inv: "fees_inv s"
  shows "stake env j amount s = Ok (u, s') \<Longrightarrow> fees_inv s'"
    and "unstake env j amount s = Ok (u, s') \<Longrightarrow> fees_inv s'"
    and "bump_juror_stake_ttl env j s = Ok (l, s') \<Longrightarrow> fees_inv s'"
    and "bump_escrow_ttl env i s = Ok (l, s') \<Longrightarrow> fees_inv s'"
    and "raise_dispute env i caller reason s = Ok (u, s') \<Longrightarrow> fees_inv s'"
    and "commit_vote env i j c s = Ok (u, s') \<Longrightarrow> fees_inv s'"
    and "reveal_vote env i j v sl s = Ok (u, s') \<Longrightarrow> fees_inv s'"
proof -
  show "stake env j amount s = Ok (u, s') \<Longrightarrow> fees_inv s'"
    by (elim stake_Ok, rule fees_quiet [OF inv]) auto
  show "unstake env j amount s = Ok (u, s') \<Longrightarrow> fees_inv s'"
    by (elim unstake_Ok, rule fees_quiet [OF inv]) auto
  show "bump_juror_stake_ttl env j s = Ok (l, s') \<Longrightarrow> fees_inv s'"
    by (elim bump_juror_stake_ttl_Ok, rule fees_quiet [OF inv]) auto
  show "bump_escrow_ttl env i s = Ok (l, s') \<Longrightarrow> fees_inv s'"
    by (drule bump_escrow_ttl_Ok, elim exE conjE, rule fees_quiet [OF inv]) auto
  show "raise_dispute env i caller reason s = Ok (u, s') \<Longrightarrow> fees_inv s'"
    by (drule raise_dispute_Ok, elim exE conjE, rule fees_quiet [OF inv, where new = "[]"]) auto
  show "commit_vote env i j c s = Ok (u, s') \<Longrightarrow> fees_inv s'"
    by (drule commit_vote_Ok, elim exE conjE, rule fees_quiet [OF inv]) auto
  show "reveal_vote env i j v sl s = Ok (u, s') \<Longrightarrow> fees_inv s'"
    by (drule reveal_vote_Ok, elim exE conjE, rule fees_quiet [OF inv]) auto
qed

lemma resolve_dispute_keeps_terms:
  assumes "resolve_dispute env i s = Ok (ruling, s')" and "distinct (voters_of s i)"
  shows "p_escrow_fee_config s' = p_escrow_fee_config s \<and> p_escrow_released s' = p_escrow_released s
    \<and> (\<exists>e. p_escrow s i = Some e \<and> p_escrow s' = (p_escrow s)(i \<mapsto> e\<lparr>e_status := Settled\<rparr>))"
  using resolve_dispute_Ok [OF assms] by (elim exE conjE, hypsubst) simp

lemma fees_resolve:
  assumes inv: "fees_inv s" and run: "resolve_dispute env i s = Ok (ruling, s')"
    and distinct: "distinct (voters_of s i)"
  shows "fees_inv s'"
proof -
  from resolve_dispute_events [OF run] obtain new where
      "events s' = events s @ new" and "\<forall>ev\<in>set new. \<exists>v a r c. ev = JurorSlashed i v a r c" by blast
  moreover have "\<And>x. p_escrow s' x = None \<longleftrightarrow> p_escrow s x = None"
    "p_escrow_fee_config s' = p_escrow_fee_config s" "p_escrow_released s' = p_escrow_released s"
    using resolve_dispute_keeps_terms [OF run distinct] by (auto split: if_splits)
  ultimately show ?thesis by (intro fees_quiet [OF inv]) auto
qed

section \<open>The life of a deployment\<close>

definition full_inv ::
    "(address \<Rightarrow> address \<Rightarrow> 'w \<Rightarrow> i128) \<Rightarrow> address \<Rightarrow> u32 \<Rightarrow> 'w trustflow \<Rightarrow> bool" where
  "full_inv tb cc now s \<longleftrightarrow> tf_inv tb cc now s \<and> fees_inv s"

lemma distinct_voters: "dispute_inv now s \<Longrightarrow> distinct (voters_of s i)"
  using dispute_invD [of now s i]
  by (cases "p_dispute s i") (auto simp: dispute_ok_def no_dispute_def)

lemma fees_fresh:
  assumes "fees_inv s" and "p_escrow s i = None"
  shows "p_escrow_fee_config s i = None"
  using assms by (auto simp: fees_inv_def fees_ok_def dest!: spec [of _ i] split: option.splits)

lemma call_evolves:
  assumes inv: "full_inv tb cc now s" and run: "exec env c s = Ok s'" and once: "\<not> reinitializes c"
  shows "evolves s s'"
proof -
  from run have disp: "dispatch env c s = Ok s'" by (simp add: exec_def split: if_splits)
  have inv': "escrow_inv s" "dispute_inv now s" "fees_inv s"
    using inv by (simp_all add: full_inv_def tf_inv_def)
  show ?thesis
    by (insert disp once, cases c; simp add: state_of_Ok; (erule exE)?;
        erule admin_evolves stake_evolves bump_escrow_evolves commit_vote_evolves reveal_vote_evolves
          release_evolves create_escrow_evolves [OF inv'(1) _ fees_fresh [OF inv'(3)]]
          init_escrow_evolves [OF inv'(1) _ fees_fresh [OF inv'(3)]]
          raise_dispute_evolves [OF inv'(2)] resolve_dispute_evolves [OF inv'(2)])
qed

lemma call_fees:
  assumes inv: "full_inv tb cc now s" and run: "exec env c s = Ok s'" and once: "\<not> reinitializes c"
  shows "fees_inv s'"
proof -
  from run have disp: "dispatch env c s = Ok s'" by (simp add: exec_def split: if_splits)
  have inv': "escrow_inv s" "dispute_inv now s" "fees_inv s"
    using inv by (simp_all add: full_inv_def tf_inv_def)
  have create: "create_escrow env d b amount s = Ok (i, s') \<Longrightarrow> fees_inv s'" for d b amount i
    by (erule create_escrow_Ok, frule fresh_escrow(1) [OF inv'(1)], drule fresh_escrow(2) [OF inv'(1)],
        rule fees_new_escrow [OF inv'(3), where new = "[]"]) auto
  have init: "init_escrow env d b ms s = Ok (i, s') \<Longrightarrow> fees_inv s'" for d b ms i
    by (drule init_escrow_Ok, elim exE conjE, frule fresh_escrow(1) [OF inv'(1)],
        drule fresh_escrow(2) [OF inv'(1)], rule fees_new_escrow [OF inv'(3)]) auto
  show ?thesis
    by (insert disp once, cases c; simp add: state_of_Ok; (erule exE)?;
        erule create init fees_admin [OF inv'(3)] fees_others [OF inv'(3)]
          fees_release [OF inv'(3,1)] fees_resolve [OF inv'(3) _ distinct_voters [OF inv'(2)]])
qed

lemma reachable_full:
  assumes "tf_reachable tb cc (now, s)"
  shows "full_inv tb cc now s"
proof (rule tf_invariant [OF assms])
  fix env admin token bps w u s
  assume "0 \<le> tb token cc w" and init: "initialize env admin token bps (empty_storage w) = Ok (u, s)"
  then have "tf_inv tb cc (sequence env) s" by (rule initial_inv)
  moreover have "fees_inv s"
    using init by (simp add: initialize_Ok storage_defs fees_inv_def fees_ok_def fees_paid_def
        payouts_paid_def empty_storage_def)
  ultimately show "full_inv tb cc (sequence env) s" by (simp add: full_inv_def)
next
  fix env now c s s'
  assume *: "hosted env tb cc" "now \<le> sequence env" "\<not> reinitializes c" "exec env c s = Ok s'"
    and inv: "full_inv tb cc now s"
  from call_fees [OF inv *(4,3)] hosted.call_keeps [OF *(1) _ *(2,4,3)] inv
  show "full_inv tb cc (sequence env) s'" by (simp add: full_inv_def)
next
  fix now later s
  assume "now \<le> later" "full_inv tb cc now s"
  then show "full_inv tb cc later s" by (auto simp: full_inv_def intro: tf_inv_time)
next
  fix now s w
  assume w: "\<And>t. i_token s = Some t \<Longrightarrow> tb t cc (world s) \<le> tb t cc w" and inv: "full_inv tb cc now s"
  have "fees_inv (s\<lparr>world := w\<rparr>)"
    by (rule fees_quiet [of s _ "[]"]) (use inv in \<open>simp_all add: full_inv_def\<close>)
  moreover have "tf_inv tb cc now (s\<lparr>world := w\<rparr>)"
    by (rule tf_inv_world) (use inv w in \<open>simp_all add: full_inv_def\<close>)
  ultimately show "full_inv tb cc now (s\<lparr>world := w\<rparr>)" by (simp add: full_inv_def)
qed

text \<open>Everything that can happen to a deployed contract from some configuration on.\<close>

abbreviation tf_later ::
    "(address \<Rightarrow> address \<Rightarrow> 'w \<Rightarrow> i128) \<Rightarrow> address \<Rightarrow> u32 \<times> 'w trustflow \<Rightarrow> u32 \<times> 'w trustflow \<Rightarrow> bool" where
  "tf_later tb cc \<equiv> (tf_step tb cc)\<^sup>*\<^sup>*"

lemma step_evolves:
  assumes "full_inv tb cc now s" and "tf_step tb cc (now, s) (now', s')"
  shows "evolves s s'"
  using assms(2)
proof (cases rule: tf_step.cases)
  case call
  then show ?thesis using call_evolves [OF assms(1)] by blast
qed (auto intro: evolves_quiet)

lemma later_evolves:
  assumes "tf_reachable tb cc (now, s)" and "tf_later tb cc (now, s) (now', s')"
  shows "evolves s s' \<and> tf_reachable tb cc (now', s')"
  using assms(2)
proof (induction rule: rtranclp_induct2)
  case refl
  then show ?case using assms(1) by (simp add: evolves_quiet)
next
  case (step n t n' t')
  then have "evolves t t'" using step_evolves reachable_full by blast
  with step show ?case using evolves_trans tf_reachable.step by blast
qed

end
