(* ===== verification/Mock_Token.thy ===== *)
theory Mock_Token
  imports Token_Interface
begin

text \<open>
  The test token of \<open>contracts/mock-token/src/lib.rs\<close>: its storage as a record, one
  definition per entry point, the facts that make it a token (nothing is created or lost by
  a transfer, no balance is negative, only the administrator mints), and the interpretation
  of the token interface on it.
\<close>

section \<open>Storage and operations\<close>

record mock_metadata =
  decimal :: u32
  token_name :: string
  token_symbol :: string

text \<open>\<open>DataKey\<close>: \<open>Admin\<close> and \<open>Metadata\<close> are instance keys, \<open>Balance(a)\<close> persistent ones.\<close>

record mock_token =
  mt_admin :: "address option"
  mt_metadata :: "mock_metadata option"
  mt_balance :: "address \<rightharpoonup> i128"

definition mock_initialize ::
    "address \<Rightarrow> u32 \<Rightarrow> string \<Rightarrow> string \<Rightarrow> mock_token \<Rightarrow> mock_token option" where
  "mock_initialize admin dec nm symb e = do {
     ensure (mt_admin e = None);
     let e = e\<lparr>mt_admin := Some admin\<rparr>;
     Some (e\<lparr>mt_metadata := Some \<lparr>decimal = dec, token_name = nm, token_symbol = symb\<rparr>\<rparr>)
   }"

definition mock_balance :: "address \<Rightarrow> mock_token \<Rightarrow> i128" where
  "mock_balance addr e = unwrap_or (mt_balance e addr) 0"

definition mock_mint :: "'w env \<Rightarrow> address \<Rightarrow> i128 \<Rightarrow> mock_token \<Rightarrow> mock_token option" where
  "mock_mint env to amount e = do {
     admin \<leftarrow> mt_admin e;
     ensure (authorized env admin);
     ensure (\<not> amount < 0);
     new_balance \<leftarrow> checked_add (mock_balance to e) amount;
     Some (e\<lparr>mt_balance := (mt_balance e)(to \<mapsto> new_balance)\<rparr>)
   }"

definition mock_transfer ::
    "'w env \<Rightarrow> address \<Rightarrow> address \<Rightarrow> i128 \<Rightarrow> mock_token \<Rightarrow> mock_token option" where
  "mock_transfer env from to amount e = do {
     ensure (authorized env from);
     ensure (\<not> amount < 0);
     let from_balance = mock_balance from e;
     ensure (\<not> from_balance < amount);
     left \<leftarrow> checked_sub from_balance amount;
     let e = e\<lparr>mt_balance := (mt_balance e)(from \<mapsto> left)\<rparr>;
     let to_balance = mock_balance to e;
     received \<leftarrow> checked_add to_balance amount;
     Some (e\<lparr>mt_balance := (mt_balance e)(to \<mapsto> received)\<rparr>)
   }"

definition mock_decimals :: "mock_token \<Rightarrow> u32 option" where
  "mock_decimals e = do { metadata \<leftarrow> mt_metadata e; Some (decimal metadata) }"

definition mock_name :: "mock_token \<Rightarrow> string option" where
  "mock_name e = do { metadata \<leftarrow> mt_metadata e; Some (token_name metadata) }"

definition mock_symbol :: "mock_token \<Rightarrow> string option" where
  "mock_symbol e = do { metadata \<leftarrow> mt_metadata e; Some (token_symbol metadata) }"

section \<open>Correctness of the operations\<close>

lemma mock_mint_Some:
  "mock_mint env to amount e = Some e' \<longleftrightarrow>
     (\<exists>admin. mt_admin e = Some admin \<and> authorized env admin) \<and> 0 \<le> amount \<and>
     in_i128 (mock_balance to e + amount) \<and>
     e' = e\<lparr>mt_balance := (mt_balance e)(to \<mapsto> mock_balance to e + amount)\<rparr>"
  by (auto simp: mock_mint_def bind_eq_Some_conv checked_simps)

lemma mock_transfer_Some:
  "mock_transfer env from to amount e = Some e' \<longleftrightarrow>
     authorized env from \<and> 0 \<le> amount \<and> amount \<le> mock_balance from e \<and>
     in_i128 (mock_balance from e - amount) \<and>
     in_i128 (mock_balance to e + (if from = to then 0 else amount)) \<and>
     e' = e\<lparr>mt_balance := (mt_balance e)(from \<mapsto> mock_balance from e - amount,
                                          to \<mapsto> mock_balance to e + (if from = to then 0 else amount))\<rparr>"
  by (auto simp: mock_transfer_def mock_balance_def Let_def bind_eq_Some_conv checked_simps)

lemma mock_transfer_balance:
  assumes "mock_transfer env from to amount e = Some e'"
  shows "mock_balance a e' =
    mock_balance a e - (if a = from then amount else 0) + (if a = to then amount else 0)"
  using assms by (auto simp: mock_transfer_Some mock_balance_def)

definition mock_supply :: "mock_token \<Rightarrow> int" where
  "mock_supply e = (\<Sum>a\<in>UNIV. mock_balance a e)"

lemma mock_transfer_supply:
  assumes "mock_transfer env from to amount e = Some e'"
  shows "mock_supply e' = mock_supply e"
  by (simp add: mock_supply_def mock_transfer_balance [OF assms] sum.distrib sum_subtractf)

lemma mock_mint_supply:
  assumes "mock_mint env to amount e = Some e'"
  shows "mock_supply e' = mock_supply e + amount"
proof -
  have "mock_balance x e' = mock_balance x e" if "x \<noteq> to" for x
    using assms that by (auto simp: mock_mint_Some mock_balance_def)
  moreover have "mock_balance to e' = mock_balance to e + amount"
    using assms by (auto simp: mock_mint_Some mock_balance_def)
  ultimately show ?thesis
    unfolding mock_supply_def
    using sum_point_change [of to "\<lambda>a. mock_balance a e'" "\<lambda>a. mock_balance a e"] by simp
qed

definition mock_wf :: "mock_token \<Rightarrow> bool" where
  "mock_wf e \<longleftrightarrow> (\<forall>a. 0 \<le> mock_balance a e \<and> in_i128 (mock_balance a e))"

lemma mock_wf_preserved:
  assumes "mock_wf e"
  shows "mock_transfer env from to amount e = Some e' \<Longrightarrow> mock_wf e'"
    and "mock_mint env to amount e = Some e' \<Longrightarrow> mock_wf e'"
  using assms
  by (auto simp: mock_wf_def mock_transfer_Some mock_mint_Some mock_balance_def split: if_splits)

section \<open>The token interface on this token\<close>

text \<open>
  A world of mock tokens: the token contracts by their address. A client call runs
  \<open>transfer\<close> of the contract at \<open>t\<close> with the caller's authorisations, to which the host adds
  the calling contract itself; a trap leaves no trace.
\<close>

type_synonym mock_world = "address \<rightharpoonup> mock_token"

definition callee_env :: "'w env \<Rightarrow> address \<Rightarrow> 'w env" where
  "callee_env env t = env\<lparr>
     authorized := (\<lambda>a. a = current_contract_address env \<or> authorized env a),
     current_contract_address := t\<rparr>"

definition mock_client_transfer ::
    "'w env \<Rightarrow> address \<Rightarrow> address \<Rightarrow> address \<Rightarrow> i128 \<Rightarrow> mock_world \<Rightarrow> mock_world option" where
  "mock_client_transfer env t from to amount w = do {
     e \<leftarrow> w t;
     e' \<leftarrow> mock_transfer (callee_env env t) from to amount e;
     Some (w(t \<mapsto> e'))
   }"

definition mock_client_balance :: "address \<Rightarrow> address \<Rightarrow> mock_world \<Rightarrow> i128" where
  "mock_client_balance t a w = (case w t of Some e \<Rightarrow> mock_balance a e | None \<Rightarrow> 0)"

definition mock_live :: "'w env \<Rightarrow> address \<Rightarrow> address \<Rightarrow> mock_world \<Rightarrow> bool" where
  "mock_live env t cc w \<longleftrightarrow>
     (\<exists>e. w t = Some e \<and> mock_wf e) \<and> authorized (callee_env env t) cc"

definition with_mock_token :: "mock_world env \<Rightarrow> mock_world env" where
  "with_mock_token env =
     env\<lparr>token_transfer := mock_client_transfer env, token_balance := mock_client_balance\<rparr>"

lemma mock_client_transfer_Some:
  "mock_client_transfer env t from to amount w = Some w' \<longleftrightarrow>
     (\<exists>e e'. w t = Some e \<and> mock_transfer (callee_env env t) from to amount e = Some e'
        \<and> w' = w(t \<mapsto> e'))"
  by (auto simp: mock_client_transfer_def bind_eq_Some_conv)

interpretation mock: live_token "mock_client_transfer env" mock_client_balance "mock_live env"
  for env :: "'w env"
proof (unfold_locales, goal_cases)
  case (1 t "from" to amt w w')
  then show ?case by (auto simp: mock_client_transfer_Some mock_transfer_Some)
next
  case (2 t "from" to amt w w')
  then show ?case
    by (auto simp: mock_client_transfer_Some mock_transfer_Some mock_client_balance_def)
next
  case (3 t "from" to amt w w' a)
  then show ?case
    by (auto simp: mock_client_transfer_Some mock_client_balance_def mock_transfer_balance)
next
  case (4 t cc w amt to)
  then obtain e where e: "w t = Some e" "mock_wf e" and auth: "authorized (callee_env env t) cc"
    by (auto simp: mock_live_def)
  have "in_i128 (mock_balance cc e - amt)"
    using 4 e by (auto simp: mock_client_balance_def mock_wf_def intro: in_i128_diff)
  moreover have "in_i128 (mock_balance to e + (if cc = to then 0 else amt))"
    using 4 e by (auto simp: mock_client_balance_def mock_wf_def)
  ultimately show ?case
    using 4 e auth by (auto simp: mock_client_transfer_Some mock_transfer_Some mock_client_balance_def)
next
  case (5 t cc w "from" to amt w')
  then show ?case
    by (auto simp: mock_client_transfer_Some mock_live_def intro: mock_wf_preserved)
qed

end
