(* ===== verification/TrustFlow_Scenario.thy ===== *)
theory TrustFlow_Scenario
  imports TrustFlow_Preservation Mock_Token
begin

text \<open>
  A concrete host for the escrow contract: the repository's mock token as the other side of
  every transfer, the documented TTL rule, and a function in the place of SHA-256. It makes
  the platform hypotheses of \<open>hosted\<close> facts about the repository's own token, and gives the
  reachable states at which the properties are instantiated: a deployment, an escrow paid out
  in tranches, and a dispute from its first commitment to its resolution.
\<close>

section \<open>The host\<close>

definition sample_hash :: "u8 list \<Rightarrow> u8 list" where
  "sample_hash bs = take 32 (bs @ replicate 32 0)"

definition bare_host :: "address \<Rightarrow> address list \<Rightarrow> u32 \<Rightarrow> mock_world env" where
  "bare_host cc signers now =
     \<lparr>sequence = now, timestamp = 0, authorized = (\<lambda>a. a \<in> set signers \<and> a \<noteq> cc),
      current_contract_address = cc, sha256 = sample_hash, host_bump = standard_bump,
      host_new_ttl = (\<lambda>seq. saturating_add seq 4095),
      token_transfer = (\<lambda>_ _ _ _ _. None), token_balance = mock_client_balance\<rparr>"

definition mock_host :: "address \<Rightarrow> address list \<Rightarrow> u32 \<Rightarrow> mock_world env" where
  "mock_host cc signers now = with_mock_token (bare_host cc signers now)"

lemma mock_host_simps [simp]:
  "sequence (mock_host cc signers now) = now"
  "authorized (mock_host cc signers now) a \<longleftrightarrow> a \<in> set signers \<and> a \<noteq> cc"
  "current_contract_address (mock_host cc signers now) = cc"
  "sha256 (mock_host cc signers now) = sample_hash"
  "host_bump (mock_host cc signers now) = standard_bump"
  "token_transfer (mock_host cc signers now) = mock_client_transfer (bare_host cc signers now)"
  by (simp_all add: mock_host_def with_mock_token_def bare_host_def)

interpretation mock_hosted: hosted "mock_host cc signers now" mock_client_balance cc
  for cc :: address and signers :: "address list" and now :: u32
proof unfold_locales
  fix t "from" to amt a w w'
  assume *: "token_transfer (mock_host cc signers now) t from to amt w = Some w'"
  show "0 \<le> amt" and "amt \<le> mock_client_balance t from w"
    and "mock_client_balance t a w' = mock_client_balance t a w
      - (if a = from then amt else 0) + (if a = to then amt else 0)"
    using * unfolding mock_host_simps
    by (rule mock.transfer_nonneg, rule mock.transfer_covered, rule mock.transfer_moves)
qed simp_all

lemma mock_host_live:
  "live_token (token_transfer (mock_host cc signers now)) mock_client_balance
     (mock_live (bare_host cc signers now))"
  unfolding mock_host_simps by (rule mock.live_token_axioms)

section \<open>Scripts\<close>

text \<open>A script is a list of calls, each by some signers at some ledger.\<close>

type_synonym script = "(u32 \<times> address list \<times> tf_call) list"

fun play :: "address \<Rightarrow> script \<Rightarrow> u32 \<Rightarrow> mock_world trustflow \<Rightarrow> (u32 \<times> mock_world trustflow) option" where
  "play cc [] now s = Some (now, s)"
| "play cc ((seq, signers, c) # rest) now s =
     (if seq < now \<or> reinitializes c then None
      else case exec (mock_host cc signers seq) c s of Ok s' \<Rightarrow> play cc rest seq s' | _ \<Rightarrow> None)"

lemma play_reachable:
  "play cc script now s = Some (later, t) \<Longrightarrow> tf_reachable mock_client_balance cc (now, s) \<Longrightarrow>
     tf_reachable mock_client_balance cc (later, t)"
proof (induction script arbitrary: now s)
  case Nil
  then show ?case by simp
next
  case (Cons step script)
  obtain seq signers c where step: "step = (seq, signers, c)" by (cases step) auto
  from Cons.prems(1) obtain s' where le: "now \<le> seq" and once: "\<not> reinitializes c"
    and run: "exec (mock_host cc signers seq) c s = Ok s'"
    and rest: "play cc script seq s' = Some (later, t)"
    by (auto simp: step not_less split: if_splits outcome.splits)
  from tf_step.call [OF mock_hosted.hosted_axioms _ once run] le
  have "tf_step mock_client_balance cc (now, s) (seq, s')" by simp
  from tf_reachable.step [OF Cons.prems(2) this] show ?case by (rule Cons.IH [OF rest])
qed

text \<open>The cast: the escrow contract, its token, and six accounts.\<close>

definition escrow_contract :: address where "escrow_contract = Contract 1"
definition usdc :: address where "usdc = Contract 2"
definition owner :: address where "owner = Account 1"
definition alice :: address where "alice = Account 2"
definition bob :: address where "bob = Account 3"
definition juror1 :: address where "juror1 = Account 4"
definition juror2 :: address where "juror2 = Account 5"
definition juror3 :: address where "juror3 = Account 6"

lemmas cast_defs = escrow_contract_def usdc_def owner_def alice_def bob_def juror1_def juror2_def
  juror3_def

definition start_world :: mock_world where
  "start_world = [usdc \<mapsto> \<lparr>mt_admin = Some owner, mt_metadata = None,
     mt_balance = [alice \<mapsto> 1000000, juror1 \<mapsto> 5000, juror2 \<mapsto> 5000, juror3 \<mapsto> 5000]\<rparr>]"

definition deployed :: "mock_world trustflow" where
  "deployed = (case initialize (mock_host escrow_contract [owner] 100) owner usdc 1000
       (empty_storage start_world) of Ok (_, s) \<Rightarrow> s | _ \<Rightarrow> empty_storage start_world)"

lemma deployed_reachable: "tf_reachable mock_client_balance escrow_contract (100, deployed)"
proof -
  have "\<exists>s. initialize (mock_host escrow_contract [owner] 100) owner usdc 1000
      (empty_storage start_world) = Ok ((), s)"
    by (simp add: initialize_Ok cast_defs)
  then obtain s where s: "initialize (mock_host escrow_contract [owner] 100) owner usdc 1000
      (empty_storage start_world) = Ok ((), s)" by blast
  have "0 \<le> mock_client_balance usdc escrow_contract start_world"
    by (simp add: mock_client_balance_def start_world_def mock_balance_def cast_defs)
  from tf_reachable.deploy [where tb = mock_client_balance, OF this s] show ?thesis by (simp add: deployed_def s)
qed

definition fee_100 :: script where
  "fee_100 = [(100, [owner], Call_set_fee_bps owner 100)]"

definition alices_milestones :: "milestone list" where
  "alices_milestones =
     [\<lparr>m_label = ''design'', m_amount = 400000, m_approved = False, m_release_time = 0\<rparr>,
      \<lparr>m_label = ''build'', m_amount = 600000, m_approved = False, m_release_time = 200\<rparr>]"

text \<open>Alice locks one million and releases the first milestone in two tranches.\<close>

definition tranches :: script where
  "tranches = fee_100 @
     [(110, [juror1], Call_stake juror1 5000),
      (120, [alice], Call_init_escrow alice bob alices_milestones),
      (130, [alice], Call_release_milestone_tranche 1 0 150 alice),
      (140, [alice], Call_release_milestone_tranche 1 0 250 alice)]"

definition sample_salt :: "u8 list" where "sample_salt = replicate 32 7"

text \<open>A dispute over what is left; two jurors vote for Bob, the third for Alice.\<close>

definition dispute_raised :: script where
  "dispute_raised = tranches @
     [(150, [juror2], Call_stake juror2 3000), (150, [juror3], Call_stake juror3 2000),
      (200, [bob], Call_raise_dispute 1 bob ''late'')]"

definition votes_committed :: script where
  "votes_committed = dispute_raised @
     [(300, [juror1], Call_commit_vote 1 juror1 (sample_hash (0 # sample_salt))),
      (300, [juror2], Call_commit_vote 1 juror2 (sample_hash (0 # sample_salt))),
      (300, [juror3], Call_commit_vote 1 juror3 (sample_hash (1 # sample_salt)))]"

definition votes_revealed :: script where
  "votes_revealed = votes_committed @
     [(17480, [juror1], Call_reveal_vote 1 juror1 False sample_salt),
      (17480, [juror2], Call_reveal_vote 1 juror2 False sample_salt),
      (17480, [juror3], Call_reveal_vote 1 juror3 True sample_salt)]"

definition dispute_resolved :: script where
  "dispute_resolved = votes_revealed @ [(40000, [], Call_resolve_dispute 1)]"

fun is_Ok :: "('a, 'e) outcome \<Rightarrow> bool" where
  "is_Ok (Ok v) = True"
| "is_Ok _ = False"

lemma is_Ok_ex: "is_Ok r \<Longrightarrow> \<exists>v. r = Ok v"
  by (cases r) simp_all

text \<open>The configuration a script leads to.\<close>

definition at :: "script \<Rightarrow> u32 \<times> mock_world trustflow" where
  "at script = (case play escrow_contract script 100 deployed of Some c \<Rightarrow> c | None \<Rightarrow> (100, deployed))"

lemma at_reachable: "tf_reachable mock_client_balance escrow_contract (at script)"
  using play_reachable [OF _ deployed_reachable]
  by (auto simp: at_def deployed_reachable split: option.split)

lemma at_reachable_pair:
  "tf_reachable mock_client_balance escrow_contract (fst (at script), snd (at script))"
  using at_reachable by simp

text \<open>A longer script continues a shorter one.\<close>

lemma play_append:
  "play cc (xs @ ys) now s = (case play cc xs now s of Some (later, t) \<Rightarrow> play cc ys later t | None \<Rightarrow> None)"
  by (induction xs arbitrary: now s) (auto split: outcome.splits)

lemma play_later:
  "play cc script now s = Some (later, t) \<Longrightarrow> (tf_step mock_client_balance cc)\<^sup>*\<^sup>* (now, s) (later, t)"
proof (induction script arbitrary: now s)
  case Nil
  then show ?case by simp
next
  case (Cons step script)
  obtain seq signers c where step: "step = (seq, signers, c)" by (cases step) auto
  from Cons.prems obtain s' where le: "now \<le> seq" and once: "\<not> reinitializes c"
    and run: "exec (mock_host cc signers seq) c s = Ok s'" and rest: "play cc script seq s' = Some (later, t)"
    by (auto simp: step not_less split: if_splits outcome.splits)
  from tf_step.call [OF mock_hosted.hosted_axioms _ once run] le
  have "tf_step mock_client_balance cc (now, s) (seq, s')" by simp
  then show ?case using Cons.IH [OF rest] by (rule converse_rtranclp_into_rtranclp)
qed

lemma at_later:
  assumes "play escrow_contract (script @ rest) 100 deployed \<noteq> None"
  shows "(tf_step mock_client_balance escrow_contract)\<^sup>*\<^sup>* (at script) (at (script @ rest))"
proof -
  from assms obtain c c' where "play escrow_contract script 100 deployed = Some c"
    and "play escrow_contract rest (fst c) (snd c) = Some c'"
    by (auto simp: play_append split: option.splits)
  with play_later [of escrow_contract rest "fst c" "snd c" "fst c'" "snd c'"] show ?thesis
    by (cases c) (simp add: at_def play_append)
qed

end
