(* ===== verification/TrustFlow_Properties.thy ===== *)
theory TrustFlow_Properties
  imports TrustFlow_History TrustFlow_Scenario
begin

text \<open>
  What the escrow contract guarantees in every reachable state of a deployment: solvency, the
  accounting of escrows, the dispute protocol, the exact fee split of every release and of
  all releases together. Each property is instantiated on the mock token's host.
\<close>

section \<open>Helpers\<close>

context hosted
begin

lemma paid_moves:
  assumes "paid env t (current_contract_address env) to amt w w'"
  shows "tb t a w' = tb t a w - (if a = cc then amt else 0) + (if a = to then amt else 0)"
  using assms transfer_moves [of t cc to amt w w' a] by (auto simp: paid_def runs_at split: if_splits)

end

lemma reachable_parts:
  assumes "tf_reachable tb cc (now, s)"
  shows "settings_inv s" "stake_inv s" "escrow_inv s" "dispute_inv now s" "funds_inv tb cc s" "fees_inv s"
  using reachable_full [OF assms] by (simp_all add: full_inv_def tf_inv_def)

text \<open>Nothing the contract owes is negative, so its balance covers each part of it alone.\<close>

lemma owed_nonneg:
  assumes "tf_reachable tb cc (now, s)"
  shows "0 \<le> locked i s" and "0 \<le> get_stake j s" and "locked i s \<le> total_locked s" and "get_stake j s \<le> total_stake s"
    and "0 \<le> total_locked s" and "0 \<le> total_stake s"
proof -
  note inv = reachable_parts [OF assms]
  have locked: "0 \<le> locked x s" for x
    using escrow_invD(1) [OF inv(3), of x] by (auto simp: locked_def escrow_ok_def split: option.split)
  have st: "0 \<le> get_stake x s" for x using inv(2) by (simp add: stake_inv_def)
  from locked st show "0 \<le> locked i s" and "0 \<le> get_stake j s" .
  from locked st show "locked i s \<le> total_locked s" and "get_stake j s \<le> total_stake s"
    unfolding total_locked_def total_stake_def by (auto intro: member_le_sum)
  from locked st show "0 \<le> total_locked s" and "0 \<le> total_stake s"
    unfolding total_locked_def total_stake_def by (simp_all add: sum_nonneg)
qed

section \<open>Safety in every reachable state\<close>

text \<open>C1. Solvency: in every state that a contract initialised once can reach, by any calls of anyone in
  any order except a second \<open>initialize\<close> (which can exchange the token), the contract's balance
  in its token covers the unreleased part of every open escrow together with every juror's
  stake. The token is taken to follow its interface, and tokens of the contract to be spent
  by the contract only.\<close>

theorem solvency:
  assumes "tf_reachable tb cc (now, s)" and "i_token s = Some token"
  shows "total_locked s + total_stake s \<le> tb token cc (world s)"
  using reachable_parts(5) [OF assms(1)] assms(2) by (simp add: funds_inv_def)

theorem solvency_witness:
  "total_locked (snd (at dispute_raised)) + total_stake (snd (at dispute_raised))
     \<le> mock_client_balance usdc escrow_contract (world (snd (at dispute_raised)))"
  by (rule solvency [OF at_reachable_pair]) code_simp

text \<open>C2. The accounting of an escrow, in every state that a contract initialised once can reach: the
  released total never exceeds the amount, it is the sum of what its milestones released, no milestone releases more than its own amount or
  before it was approved, and an escrow that is not settled still holds something.\<close>

theorem escrow_accounting:
  assumes "tf_reachable tb cc (now, s)" and "p_escrow s i = Some e"
  shows "0 \<le> released i s \<and> released i s \<le> e_amount e
    \<and> (\<Sum>k\<in>UNIV. m_released i k s) = released i s
    \<and> (\<forall>k m. vec_get (e_milestones e) k = Some m \<longrightarrow> 0 \<le> m_released i k s
         \<and> m_released i k s \<le> m_amount m \<and> (0 < m_released i k s \<longrightarrow> m_approved m))
    \<and> (e_status e \<noteq> Settled \<longrightarrow> released i s < e_amount e)"
  using escrow_invD(1,2) [OF reachable_parts(3) [OF assms(1)] assms(2)]
  by (auto simp: escrow_ok_def milestones_ok_def dest!: spec split: option.splits)

theorem escrow_accounting_witness:
  "\<exists>e. p_escrow (snd (at tranches)) 1 = Some e \<and> released 1 (snd (at tranches)) = 400
     \<and> released 1 (snd (at tranches)) \<le> e_amount e"
proof -
  have "p_escrow (snd (at tranches)) 1 \<noteq> None \<and> released 1 (snd (at tranches)) = 400" by code_simp
  with escrow_accounting [OF at_reachable_pair] show ?thesis by blast
qed

text \<open>C3. The dispute protocol, in every state that a contract initialised once can reach: a dispute
  belongs to an escrow that is disputed until the ruling and settled after it; the jurors on the voter list are exactly those with a revealed vote,
  each listed once, none with a commitment left; nobody reveals before the commit window is
  over; and a resolved dispute was resolved after the reveal window, with at least one vote,
  by the majority.\<close>

theorem dispute_protocol:
  assumes "tf_reachable tb cc (now, s)" and "p_dispute s i = Some d"
  shows "\<exists>e. p_escrow s i = Some e \<and> e_status e = (if d_resolved d then Settled else Disputed)
    \<and> distinct (voters_of s i) \<and> set (voters_of s i) = {j. reveal_of s i j \<noteq> None}
    \<and> (\<forall>j. reveal_of s i j \<noteq> None \<longrightarrow> commit_of s i j = None)
    \<and> (voters_of s i \<noteq> [] \<longrightarrow> d_commit_deadline d \<le> now)
    \<and> (d_resolved d \<longrightarrow> d_reveal_deadline d \<le> now \<and> voters_of s i \<noteq> []
         \<and> d_ruling_for_depositor d = majority_for_depositor s i)"
  using dispute_invD(1) [OF reachable_parts(4) [OF assms(1)] assms(2)]
  by (auto simp: dispute_ok_def)

theorem dispute_protocol_witness:
  "\<exists>d. p_dispute (snd (at dispute_resolved)) 1 = Some d
     \<and> d_reveal_deadline d \<le> fst (at dispute_resolved)
     \<and> d_ruling_for_depositor d = majority_for_depositor (snd (at dispute_resolved)) 1"
proof -
  have "(case p_dispute (snd (at dispute_resolved)) 1 of None \<Rightarrow> False | Some d \<Rightarrow> d_resolved d)"
    by code_simp
  then obtain d where "p_dispute (snd (at dispute_resolved)) 1 = Some d" "d_resolved d"
    by (auto split: option.splits)
  with dispute_protocol [OF at_reachable_pair this(1)] show ?thesis by blast
qed

section \<open>Releasing a milestone\<close>

text \<open>C4. A release, in every state that a contract initialised once can reach, splits the tranche
  without losing a unit: the beneficiary and the treasury of the escrow's own fee snapshot together receive exactly the gross amount, out of the
  contract's balance; the fee is the increase of the exact cumulative fee and lies between
  zero and the tranche; and only the depositor of an active escrow can do it.\<close>

theorem release_pays:
  assumes "tf_reachable tb cc (now, s)" and "hosted env tb cc"
    and run: "release_milestone_tranche env i k g caller s = Ok (u, s')"
  shows "\<exists>e cfg token fee. p_escrow s i = Some e \<and> caller = e_depositor e \<and> authorized env caller
    \<and> e_status e = Active \<and> p_escrow_fee_config s i = Some cfg \<and> i_token s = Some token
    \<and> fee = exact_fee (released i s + g) (uint (f_fee_bps cfg)) - exact_fee (released i s) (uint (f_fee_bps cfg))
    \<and> 0 \<le> fee \<and> fee \<le> g
    \<and> released i s' = released i s + g \<and> m_released i k s' = m_released i k s + g
    \<and> (\<forall>a. tb token a (world s') = tb token a (world s) - (if a = cc then g else 0)
         + (if a = e_beneficiary e then g - fee else 0) + (if a = f_treasury cfg then fee else 0))"
proof -
  from release_Ok [OF run] obtain e m cfg fb fa token w1 w2 il lu where
      e: "p_escrow s i = Some e" "caller = e_depositor e" "e_status e = Active" "authorized env caller"
    and g: "0 < g" "released i s + g \<le> e_amount e"
    and cfg: "p_escrow_fee_config s i = Some cfg" and token: "i_token s = Some token"
    and fee: "cumulative_fee (released i s) (f_fee_bps cfg) = Ok fb"
      "cumulative_fee (released i s + g) (f_fee_bps cfg) = Ok fa"
    and pay: "paid env token (current_contract_address env) (e_beneficiary e) (g - (fa - fb)) (world s) w1"
      "paid env token (current_contract_address env) (f_treasury cfg) (fa - fb) w1 w2"
    and s': "s' = s\<lparr>i_live_until := il,
           p_escrow := (p_escrow s)(i \<mapsto> escrow_after_release e k m (released i s + g)),
           p_milestone_released := (p_milestone_released s)
             (\<lparr>k_escrow_id = i, k_milestone_index = k\<rparr> \<mapsto> m_released i k s + g),
           p_escrow_released := (p_escrow_released s)(i \<mapsto> released i s + g),
           p_live_until := lu, world := w2,
           events := events s @ [MilestoneTrancheReleased i k g (fa - fb) (g - (fa - fb))
             (m_released i k s + g) (released i s + g) (e_beneficiary e) (f_treasury cfg)]\<rparr>"
    by blast
  let ?b = "uint (f_fee_bps cfg)"
  have ok: "0 \<le> released i s" "in_i128 (e_amount e)" "?b \<le> 1000"
    using escrow_invD(1) [OF reachable_parts(3) [OF assms(1)] e(1)] cfg by (auto simp: escrow_ok_def)
  then have "in_i128 (released i s)" "in_i128 (released i s + g)"
    using g in_i128_mono [OF ok(2)] by auto
  then have f: "fb = exact_fee (released i s) ?b" "fa = exact_fee (released i s + g) ?b"
    using ok g fee by (simp_all add: cumulative_fee_total)
  have "0 \<le> fa - fb" "fa - fb \<le> g"
    using exact_fee_mono [of "released i s" "released i s + g" ?b] exact_fee_step [of g ?b "released i s"] ok(3) g
    by (simp_all add: f)
  moreover have "tb token a (world s') = tb token a (world s) - (if a = cc then g else 0)
      + (if a = e_beneficiary e then g - (fa - fb) else 0) + (if a = f_treasury cfg then fa - fb else 0)" for a
    using hosted.paid_moves [OF assms(2) pay(1), of a] hosted.paid_moves [OF assms(2) pay(2), of a]
    by (simp add: s')
  moreover have "released i s' = released i s + g" "m_released i k s' = m_released i k s + g"
    by (simp_all add: s' reading_defs)
  ultimately show ?thesis using e cfg token f by blast
qed

text \<open>The second tranche of the script: of 250 units, Bob gets 247 and the treasury 3.\<close>

definition second_tranche :: "(unit, mock_world) result" where
  "second_tranche = release_milestone_tranche (mock_host escrow_contract [alice] 140) 1 0 250 alice
     (snd (at (take 4 tranches)))"

theorem release_pays_witness:
  "\<exists>s' (fee::int). second_tranche = Ok ((), s') \<and> 0 \<le> fee \<and> fee \<le> 250
     \<and> released 1 s' = released 1 (snd (at (take 4 tranches))) + 250"
proof -
  have "is_Ok second_tranche" by code_simp
  then obtain s' where run: "second_tranche = Ok ((), s')" by (auto dest: is_Ok_ex)
  with release_pays [OF at_reachable_pair mock_hosted.hosted_axioms run [unfolded second_tranche_def]]
  show ?thesis by blast
qed

text \<open>C5. Fragmentation does not change the fees: in every state that a contract initialised once can
  reach, however the releases of an escrow are cut into tranches, the fees in the event log add
  up to \<open>floor (released * fee_bps / 10_000)\<close> of the escrow's snapshot, and the payouts to everything else that was released.\<close>

theorem fees_independent_of_tranches:
  assumes "tf_reachable tb cc (now, s)" and "p_escrow_fee_config s i = Some cfg"
  shows "fees_paid i s = exact_fee (released i s) (uint (f_fee_bps cfg))
    \<and> fees_paid i s + payouts_paid i s = released i s"
  using reachable_parts(6) [OF assms(1)] assms(2)
  by (auto simp: fees_inv_def fees_ok_def dest!: spec [of _ i])

theorem fees_independent_of_tranches_witness:
  "fees_paid 1 (snd (at tranches)) = exact_fee 400 100"
proof -
  have "p_escrow_fee_config (snd (at tranches)) 1 = Some \<lparr>f_treasury = owner, f_fee_bps = 100\<rparr>"
    and "released 1 (snd (at tranches)) = 400" by code_simp+
  with fees_independent_of_tranches [OF at_reachable_pair this(1)] show ?thesis by simp
qed

end
