(* ===== verification/TrustFlow_Votes.thy ===== *)
theory TrustFlow_Votes
  imports TrustFlow_Properties
begin

text \<open>
  What the dispute calls guarantee: a commitment binds the vote, the voting windows do not
  overlap, and the resolution follows the majority and slashes exactly the minority.
\<close>

section \<open>Commitments\<close>

text \<open>The message a commitment is the hash of.\<close>

definition vote_preimage :: "bool \<Rightarrow> u8 list \<Rightarrow> u8 list" where
  "vote_preimage v salt = (if v then 1 else 0) # salt"

lemma hash_vote_preimage: "hash_vote env v salt = sha256 env (vote_preimage v salt)"
  by (simp add: hash_vote_def vote_preimage_def)

lemma vote_preimage_inject: "vote_preimage v salt = vote_preimage v' salt' \<longleftrightarrow> v = v' \<and> salt = salt'"
  by (auto simp: vote_preimage_def split: if_splits)

text \<open>C12. A commitment binds the vote: if one commitment can be opened in two ways, as different
  votes or with different salts, then the two openings are a collision of SHA-256, two
  different messages of 33 bytes with the same hash.\<close>

theorem commitment_binds:
  assumes "sha256 env' = sha256 env"
    and "exec env (Call_reveal_vote i j v salt) s = Ok t"
    and "exec env' (Call_reveal_vote i j v' salt') s = Ok t'"
  shows "(v' = v \<and> salt' = salt)
    \<or> (vote_preimage v salt \<noteq> vote_preimage v' salt'
       \<and> length (vote_preimage v salt) = 33 \<and> length (vote_preimage v' salt') = 33
       \<and> sha256 env (vote_preimage v salt) = sha256 env (vote_preimage v' salt'))"
proof -
  have "length salt = 32" "length salt' = 32"
    using assms(2,3) by (auto simp: exec_def split: if_splits)
  moreover from assms(2) have "p_juror_commit s \<lparr>v_escrow_id = i, v_juror = j\<rparr> = Some (hash_vote env v salt)"
    by (auto simp: exec_def state_of_Ok dest!: reveal_vote_Ok split: if_splits)
  moreover from assms(3) have "p_juror_commit s \<lparr>v_escrow_id = i, v_juror = j\<rparr> = Some (hash_vote env' v' salt')"
    by (auto simp: exec_def state_of_Ok dest!: reveal_vote_Ok split: if_splits)
  ultimately show ?thesis
    using assms(1) by (auto simp: hash_vote_preimage vote_preimage_inject) (simp_all add: vote_preimage_def)
qed

text \<open>A hash that is injective on all messages, for the witness.\<close>

definition identity_host :: "u32 \<Rightarrow> address \<Rightarrow> mock_world env" where
  "identity_host now juror = (mock_host escrow_contract [juror] now)\<lparr>sha256 := (\<lambda>bs. bs)\<rparr>"

definition committed_by_juror1 :: "mock_world trustflow" where
  "committed_by_juror1 = (snd (at dispute_raised))\<lparr>p_juror_commit :=
     [\<lparr>v_escrow_id = 1, v_juror = juror1\<rparr> \<mapsto> 0 # sample_salt]\<rparr>"

theorem commitment_binds_witness:
  "\<exists>t. exec (identity_host 17480 juror1) (Call_reveal_vote 1 juror1 False sample_salt) committed_by_juror1 = Ok t
     \<and> (\<forall>v' salt' t'. exec (identity_host 17490 juror1) (Call_reveal_vote 1 juror1 v' salt')
          committed_by_juror1 = Ok t' \<longrightarrow> v' = False \<and> salt' = sample_salt)"
proof -
  have "is_Ok (exec (identity_host 17480 juror1) (Call_reveal_vote 1 juror1 False sample_salt) committed_by_juror1)"
    by code_simp
  then obtain t where t: "exec (identity_host 17480 juror1) (Call_reveal_vote 1 juror1 False sample_salt)
      committed_by_juror1 = Ok t" by (auto dest: is_Ok_ex)
  have same: "sha256 (identity_host 17490 juror1) = sha256 (identity_host 17480 juror1)"
    and inj: "sha256 (identity_host 17480 juror1) m = m" for m
    by (simp_all add: identity_host_def)
  from commitment_binds [OF same t, unfolded inj] t show ?thesis by blast
qed

section \<open>The voting windows\<close>

text \<open>C14. The windows are disjoint and fixed when the dispute is raised at a ledger \<open>n\<close> with
  \<open>n + 34560\<close> below \<open>2 ^ 32\<close>, in a contract initialised once: in every later state, whatever has
  been called in between except a second \<open>initialize\<close>, a commitment is accepted only before
  \<open>n + 17280\<close>, a reveal only from then until before \<open>n + 34560\<close>, and a resolution only from then on.\<close>

theorem voting_windows:
  assumes "tf_reachable tb cc (now, s)" and "hosted env tb cc" and "now \<le> sequence env"
    and "exec env (Call_raise_dispute i caller reason) s = Ok t"
    and "uint (sequence env) + 34560 < 2 ^ 32"
    and "tf_later tb cc (sequence env, t) (now', s')"
  shows "(\<forall>env' j c u. commit_vote env' i j c s' = Ok u \<longrightarrow> uint (sequence env') < uint (sequence env) + 17280)
    \<and> (\<forall>env' j v sl u. reveal_vote env' i j v sl s' = Ok u \<longrightarrow>
         uint (sequence env) + 17280 \<le> uint (sequence env') \<and> uint (sequence env') < uint (sequence env) + 34560)
    \<and> (\<forall>env' u. resolve_dispute env' i s' = Ok u \<longrightarrow> uint (sequence env) + 34560 \<le> uint (sequence env'))"
proof -
  let ?cd = "saturating_add (sequence env) COMMIT_WINDOW_LEDGERS"
  let ?rd = "saturating_add ?cd REVEAL_WINDOW_LEDGERS"
  from assms(4) have raised: "raise_dispute env i caller reason s = Ok ((), t)"
    by (auto simp: exec_def state_of_Ok split: if_splits)
  from raise_dispute_Ok [OF this] obtain d where d: "p_dispute t i = Some d"
    "d_commit_deadline d = ?cd" "d_reveal_deadline d = ?rd" by auto
  have "tf_step tb cc (now, s) (sequence env, t)"
    by (rule tf_step.call [OF assms(2,3) _ assms(4)]) simp
  then have "tf_reachable tb cc (sequence env, t)" using assms(1) by (rule tf_reachable.step [rotated])
  from later_evolves [OF this assms(6)] have "evolves t s'" ..
  from evolvesD(6) [OF this d(1)] d obtain d' where d': "p_dispute s' i = Some d'"
    "d_commit_deadline d' = ?cd" "d_reveal_deadline d' = ?rd" by (auto simp: same_dispute_def)
  have num: "uint ?cd = uint (sequence env) + 17280" "uint ?rd = uint (sequence env) + 34560"
    using assms(5) by (simp_all add: uint_saturating_add trustflow_constants)
  have "resolve_dispute env' i s' = Ok (r, t') \<Longrightarrow> ?rd \<le> sequence env'" for env' r t'
    using d' by (elim resolve_dispute_steps) simp
  then show ?thesis
    using d' num by (auto dest!: commit_vote_Ok reveal_vote_Ok simp: word_le_def word_less_def)
qed

theorem voting_windows_witness:
  "\<exists>t. exec (mock_host escrow_contract [bob] 200) (Call_raise_dispute 1 bob ''late'')
          (snd (at (take 7 dispute_raised))) = Ok t
     \<and> \<not> is_Ok (resolve_dispute (mock_host escrow_contract [] 34759) 1 t)"
proof -
  let ?s = "snd (at (take 7 dispute_raised))" and ?n = "fst (at (take 7 dispute_raised))"
  let ?env = "mock_host escrow_contract [bob] 200"
  let ?raise = "Call_raise_dispute 1 bob ''late''"
  have n: "?n \<le> sequence ?env" by code_simp
  have "is_Ok (exec ?env ?raise ?s)" by code_simp
  then obtain t where t: "exec ?env ?raise ?s = Ok t" by (auto dest: is_Ok_ex)
  have "\<forall>env' u. resolve_dispute env' 1 t = Ok u \<longrightarrow> uint (sequence ?env) + 34560 \<le> uint (sequence env')"
    using voting_windows [OF at_reachable_pair mock_hosted.hosted_axioms n t _ rtranclp.rtrancl_refl]
    by simp
  then have "\<not> is_Ok (resolve_dispute (mock_host escrow_contract [] 34759) 1 t)"
    by (fastforce dest!: is_Ok_ex)
  with t show ?thesis by blast
qed

section \<open>Resolution\<close>

text \<open>C7. What a resolution does, in every state that a contract initialised once can reach: the
  majority of the revealed votes rules, a tie for the depositor; every juror of the minority loses exactly the slash of its stake, once, and
  nobody else loses any; what the escrow still held goes to the winner out of the contract's
  balance; and the escrow is settled.\<close>

theorem resolution_outcome:
  assumes reach: "tf_reachable tb cc (now, s)" and host: "hosted env tb cc"
    and run: "resolve_dispute env i s = Ok (ruling, s')"
  shows "\<exists>e token. p_escrow s i = Some e \<and> i_token s = Some token
    \<and> ruling = (length (filter (vote_of s i) (voters_of s i)) \<ge>
                length (filter (\<lambda>j. \<not> vote_of s i j) (voters_of s i)))
    \<and> (\<forall>j. get_stake j s' = get_stake j s
         - (if j \<in> set (voters_of s i) \<and> vote_of s i j \<noteq> ruling
            then slash_amount (get_stake j s) (slash_rate s) else 0))
    \<and> (\<forall>j. uint (get_slash_count j s') = uint (get_slash_count j s)
         + (if j \<in> set (voters_of s i) \<and> vote_of s i j \<noteq> ruling then 1 else 0))
    \<and> 0 < e_amount e - released i s
    \<and> (\<forall>a. tb token a (world s') = tb token a (world s)
         - (if a = cc then e_amount e - released i s else 0)
         + (if a = (if ruling then e_depositor e else e_beneficiary e) then e_amount e - released i s else 0))
    \<and> p_escrow s' i = Some (e\<lparr>e_status := Settled\<rparr>)"
proof -
  note inv = reachable_parts [OF reach]
  from run obtain d where d: "p_dispute s i = Some d" "\<not> d_resolved d"
    by (rule resolve_dispute_steps) blast
  from dispute_invD(1) [OF inv(4) d(1)] obtain e where e: "p_escrow s i = Some e"
    and ok: "dispute_ok now s i e d" by blast
  have "e_status e = Disputed" "distinct (voters_of s i)" using ok d(2) by (simp_all add: dispute_ok_def)
  with escrow_invD(1) [OF inv(3) e] have pos: "0 < e_amount e - released i s"
    by (simp add: escrow_ok_def)
  from resolve_dispute_Ok [OF run \<open>distinct (voters_of s i)\<close>] e pos obtain token w stakes counts il lu evs d' where
      *: "ruling = majority_for_depositor s i" "i_token s = Some token"
    and pay: "token_transfer env token (current_contract_address env)
               (if ruling then e_depositor e else e_beneficiary e) (e_amount e - released i s) (world s) = Some w"
    and stakes: "\<forall>j. unwrap_or (stakes j) 0 = get_stake j s
          - (if j \<in> set (voters_of s i) then slashed s i ruling (slash_rate s) j else 0)"
    and counts: "\<forall>j. uint (unwrap_or (counts j) 0) = uint (get_slash_count j s)
          + (if j \<in> set (voters_of s i) \<and> vote_of s i j \<noteq> ruling then 1 else 0)"
    and s': "s' = s\<lparr>i_live_until := il, p_juror_stake := stakes, p_juror_slash_count := counts,
           events := evs, p_dispute := (p_dispute s)(i \<mapsto> d'),
           world := w, p_escrow := (p_escrow s)(i \<mapsto> e\<lparr>e_status := Settled\<rparr>), p_live_until := lu\<rparr>"
    by auto
  from pay pos have "paid env token (current_contract_address env)
      (if ruling then e_depositor e else e_beneficiary e) (e_amount e - released i s) (world s) (world s')"
    by (simp add: paid_def s')
  note moves = hosted.paid_moves [OF host this]
  have "get_stake j s' = unwrap_or (stakes j) 0" "get_slash_count j s' = unwrap_or (counts j) 0" for j
    by (simp_all add: s' get_stake_def get_slash_count_def)
  with stakes counts have "get_stake j s' = get_stake j s
         - (if j \<in> set (voters_of s i) \<and> vote_of s i j \<noteq> ruling
            then slash_amount (get_stake j s) (slash_rate s) else 0)"
    and "uint (get_slash_count j s') = uint (get_slash_count j s)
         + (if j \<in> set (voters_of s i) \<and> vote_of s i j \<noteq> ruling then 1 else 0)" for j
    by (simp_all add: slashed_def)
  moreover have "p_escrow s' i = Some (e\<lparr>e_status := Settled\<rparr>)" by (simp add: s')
  ultimately show ?thesis
    using e * pos moves unfolding majority_for_depositor_def by blast
qed

definition sample_resolution :: "(bool, mock_world) result" where
  "sample_resolution = resolve_dispute (mock_host escrow_contract [] 40000) 1 (snd (at votes_revealed))"

lemma sample_resolution_facts:
  "case at votes_revealed of (n, s) \<Rightarrow>
    get_stake juror1 s = 5000 \<and> get_stake juror3 s = 2000 \<and> slash_amount 2000 (slash_rate s) = 200 \<and>
    juror1 \<in> set (voters_of s 1) \<and> \<not> vote_of s 1 juror1 \<and> juror3 \<in> set (voters_of s 1) \<and> vote_of s 1 juror3 \<and>
    map_option e_amount (p_escrow s 1) = Some 1000000 \<and> map_option e_beneficiary (p_escrow s 1) = Some bob \<and>
    released 1 s = 400 \<and> i_token s = Some usdc \<and> mock_client_balance usdc bob (world s) = 396"
  by code_simp

theorem resolution_outcome_witness:
  "\<exists>s'. sample_resolution = Ok (False, s') \<and> get_stake juror1 s' = 5000 \<and> get_stake juror3 s' = 1800
     \<and> mock_client_balance usdc bob (world s') = 396 + 999600"
proof -
  have "(case sample_resolution of Ok (r, s') \<Rightarrow> \<not> r | _ \<Rightarrow> False)" by code_simp
  then obtain s' where run: "sample_resolution = Ok (False, s')" by (auto split: outcome.splits)
  obtain n s where at: "at votes_revealed = (n, s)" by fastforce
  note facts = sample_resolution_facts [unfolded at prod.case]
  from facts obtain e where e: "p_escrow s 1 = Some e" "e_amount e = 1000000" "e_beneficiary e = bob"
    by auto
  have "bob \<noteq> escrow_contract" by (simp add: cast_defs)
  with resolution_outcome [OF at_reachable_pair mock_hosted.hosted_axioms run [unfolded sample_resolution_def]]
    run facts e show ?thesis unfolding at by auto
qed

end
