(* ===== verification/TrustFlow_Progress.thy ===== *)
theory TrustFlow_Progress
  imports TrustFlow_Properties
begin

text \<open>
  Which calls must succeed: a due resolution and a permitted release go through when the
  token is live. Solvency provides the funds; the token of the scripts stays live.
\<close>

section \<open>The loops return\<close>

lemma slash_voter_returns:
  assumes "0 \<le> get_stake v s" and "in_i128 (get_stake v s)" and "uint bps \<le> 10000"
    and "uint (get_slash_count v s) + 1 < 2 ^ 32"
  shows "\<exists>t. slash_voter env i ruling bps v s = Ok t"
proof (cases "vote_of s i v = ruling")
  case True
  then show ?thesis by (simp add: slash_voter_def)
next
  case False
  have "in_i128 (get_stake v s - slash_amount (get_stake v s) bps)"
    using slash_amount_bounds(1,2) [OF assms(1-3)] by (intro in_i128_diff [OF assms(2)])
  moreover obtain c where "checked_add_word (get_slash_count v s) 1 = Some c"
    using checked_add_word_1 [OF assms(4)] by blast
  ultimately show ?thesis
    using False by (auto simp: slash_voter_def Let_def outcome_run checked_sub_def storage_defs
        get_stake_def get_slash_count_def)
qed

lemma slash_voters_returns:
  assumes "distinct voters" and "uint bps \<le> 10000"
    and "\<And>v. v \<in> set voters \<Longrightarrow> 0 \<le> get_stake v s \<and> in_i128 (get_stake v s)
      \<and> uint (get_slash_count v s) + 1 < 2 ^ 32"
  shows "\<exists>t. slash_voters env i ruling bps voters s = Ok t"
  using assms(1,3)
proof (induction voters arbitrary: s)
  case Nil
  then show ?case by simp
next
  case (Cons v voters)
  from Cons.prems(2) [of v] slash_voter_returns [OF _ _ assms(2)] obtain t where
      t: "slash_voter env i ruling bps v s = Ok t" by fastforce
  have "0 \<le> get_stake x t \<and> in_i128 (get_stake x t) \<and> uint (get_slash_count x t) + 1 < 2 ^ 32"
    if "x \<in> set voters" for x
  proof -
    from that Cons.prems(1) have "x \<noteq> v" by auto
    then show ?thesis using slash_voter_Ok(2,3) [OF t, of x] Cons.prems(2) [of x] that by simp
  qed
  with Cons.IH [of t] Cons.prems(1) show ?case by (auto simp: t outcome_run)
qed

lemma settle_escrow_returns:
  assumes "p_escrow s i = Some e" and "i_token s = Some token"
    and "in_i128 (e_amount e - released i s)"
    and "token_transfer env token (current_contract_address env)
           (if ruling then e_depositor e else e_beneficiary e) (e_amount e - released i s) (world s) = Some w"
  shows "\<exists>t. settle_escrow env i ruling s = Ok t"
  using assms by (auto simp: settle_escrow_def Let_def outcome_run checked_sub_def released_def)

lemma escrow_is_funded:
  assumes "tf_reachable tb cc (now, s)" and "p_escrow s i = Some e" and "e_status e \<noteq> Settled"
    and "i_token s = Some token"
  shows "e_amount e - released i s \<le> tb token cc (world s)"
  using reachable_parts(5) [OF assms(1)] owed_nonneg(3) [OF assms(1), of i] owed_nonneg(6) [OF assms(1)] assms(2-4)
  by (simp add: funds_inv_def locked_def)

section \<open>The token of the scripts stays live\<close>

text \<open>A call touches the world outside the contract only by transfers of a token client.\<close>

definition token_moves :: "'w env \<Rightarrow> 'w \<Rightarrow> 'w \<Rightarrow> bool" where
  "token_moves env w w' \<longleftrightarrow> (\<exists>t from to amt. token_transfer env t from to amt w = Some w')"

lemma token_moves_one: "token_transfer env t from to amt w = Some w' \<Longrightarrow> (token_moves env)\<^sup>*\<^sup>* w w'"
  unfolding token_moves_def by blast

lemma token_moves_paid: "paid env t from to amt w w' \<Longrightarrow> (token_moves env)\<^sup>*\<^sup>* w w'"
  by (auto simp: paid_def intro: token_moves_one split: if_splits)

lemma token_moves_paid_twice:
  "paid env t a b x w w1 \<Longrightarrow> paid env t' a' b' x' w1 w2 \<Longrightarrow> (token_moves env)\<^sup>*\<^sup>* w w2"
  by (rule rtranclp_trans [OF token_moves_paid token_moves_paid])

lemma dispute_world:
  assumes "resolve_dispute env i s = Ok (r, s')" and "distinct (voters_of s i)"
  shows "(token_moves env)\<^sup>*\<^sup>* (world s) (world s')"
  using resolve_dispute_Ok [OF assms] by (elim exE conjE) (auto intro: token_moves_one split: if_splits)

lemma exec_world:
  assumes "exec env c s = Ok s'" and "dispute_inv now s"
  shows "(token_moves env)\<^sup>*\<^sup>* (world s) (world s')"
proof -
  from assms(1) have disp: "dispatch env c s = Ok s'" by (simp add: exec_def split: if_splits)
  have admin: "state_of (set_fee_bps env a b s) = Ok s' \<Longrightarrow> world s' = world s"
    "state_of (set_treasury env a d s) = Ok s' \<Longrightarrow> world s' = world s"
    "state_of (set_pauser env a d s) = Ok s' \<Longrightarrow> world s' = world s"
    "state_of (revoke_pauser env a s) = Ok s' \<Longrightarrow> world s' = world s"
    "state_of (pause env a s) = Ok s' \<Longrightarrow> world s' = world s"
    "state_of (unpause env a s) = Ok s' \<Longrightarrow> world s' = world s"
    "state_of (initialize env a d b s) = Ok s' \<Longrightarrow> world s' = world s" for a b d
    by (auto simp: admin_Ok state_of_Ok storage_defs)
  have funds: "state_of (stake env a amt s) = Ok s' \<Longrightarrow> (token_moves env)\<^sup>*\<^sup>* (world s) (world s')"
    "state_of (unstake env a amt s) = Ok s' \<Longrightarrow> (token_moves env)\<^sup>*\<^sup>* (world s) (world s')"
    "state_of (create_escrow env a b amt s) = Ok s' \<Longrightarrow> (token_moves env)\<^sup>*\<^sup>* (world s) (world s')"
    "state_of (init_escrow env a b ms s) = Ok s' \<Longrightarrow> (token_moves env)\<^sup>*\<^sup>* (world s) (world s')"
    "state_of (bump_juror_stake_ttl env a s) = Ok s' \<Longrightarrow> (token_moves env)\<^sup>*\<^sup>* (world s) (world s')"
    for a b amt ms
    by (auto simp: state_of_Ok elim!: stake_Ok unstake_Ok create_escrow_Ok bump_juror_stake_ttl_Ok
        dest!: init_escrow_Ok intro: token_moves_one)
  have release: "state_of (release_milestone_tranche env i k g a s) = Ok s' \<Longrightarrow>
      (token_moves env)\<^sup>*\<^sup>* (world s) (world s')" for i k g a
    by (auto simp: state_of_Ok dest!: release_Ok intro: token_moves_paid_twice)
  have votes: "state_of (raise_dispute env i a rs s) = Ok s' \<Longrightarrow> world s' = world s"
    "state_of (commit_vote env i a cm s) = Ok s' \<Longrightarrow> world s' = world s"
    "state_of (reveal_vote env i a v sl s) = Ok s' \<Longrightarrow> world s' = world s"
    "state_of (bump_escrow_ttl env i s) = Ok s' \<Longrightarrow> world s' = world s" for i a rs cm v sl
    by (auto simp: state_of_Ok dest!: raise_dispute_Ok commit_vote_Ok reveal_vote_Ok bump_escrow_ttl_Ok)
  have resolve: "state_of (resolve_dispute env i s) = Ok s' \<Longrightarrow> (token_moves env)\<^sup>*\<^sup>* (world s) (world s')" for i
    using dispute_world [OF _ distinct_voters [OF assms(2)]] by (auto simp: state_of_Ok)
  show ?thesis
    by (insert disp, cases c; simp only: dispatch.simps;
        (drule admin votes, simp | erule funds release resolve))
qed

definition sound_token :: "address \<Rightarrow> mock_world \<Rightarrow> bool" where
  "sound_token t w \<longleftrightarrow> (\<exists>e. w t = Some e \<and> mock_wf e)"

lemma sound_token_live: "sound_token t w \<Longrightarrow> mock_live (bare_host cc signers n) t cc w"
  by (simp add: sound_token_def mock_live_def callee_env_def bare_host_def)

lemma sound_token_moves:
  assumes "(token_moves (mock_host cc signers n))\<^sup>*\<^sup>* w w'" and "sound_token t w"
  shows "sound_token t w'"
  using assms
proof (induction rule: rtranclp_induct)
  case (step w1 w2)
  then show ?case
    by (auto simp: token_moves_def sound_token_def mock_client_transfer_Some)
      (metis mock_wf_preserved(1))
qed

lemma play_sound:
  "play cc script now s = Some (later, t) \<Longrightarrow> tf_reachable mock_client_balance cc (now, s) \<Longrightarrow>
     sound_token tok (world s) \<Longrightarrow> sound_token tok (world t)"
proof (induction script arbitrary: now s)
  case Nil
  then show ?case by simp
next
  case (Cons step script)
  obtain seq signers c where step: "step = (seq, signers, c)" by (cases step) auto
  from Cons.prems(1) obtain s' where le: "now \<le> seq" and once: "\<not> reinitializes c"
    and run: "exec (mock_host cc signers seq) c s = Ok s'"
    and rest: "play cc script seq s' = Some (later, t)"
    by (auto simp: step not_less split: if_splits outcome.splits)
  from tf_step.call [OF mock_hosted.hosted_axioms _ once run] le
  have "tf_step mock_client_balance cc (now, s) (seq, s')" by simp
  from tf_reachable.step [OF Cons.prems(2) this] have reach: "tf_reachable mock_client_balance cc (seq, s')" .
  have "sound_token tok (world s')"
    by (rule sound_token_moves [OF exec_world [OF run reachable_parts(4) [OF Cons.prems(2)]] Cons.prems(3)])
  with Cons.IH [OF rest reach] show ?case .
qed

lemma at_sound: "sound_token usdc (world (snd (at script)))"
proof -
  have "sound_token usdc (world deployed)"
  proof -
    have "world deployed = start_world"
      by (simp add: deployed_def initialize_def require_auth_def extend_instance_ttl_def
          empty_storage_def cast_defs)
    then show ?thesis
      by (simp add: sound_token_def start_world_def mock_wf_def mock_balance_def in_i128_def)
  qed
  with play_sound [OF _ deployed_reachable] show ?thesis
    by (auto simp: at_def split: option.split)
qed

section \<open>A due resolution goes through\<close>

text \<open>The tally and the slash loop cannot fail on distinct voters with counters below their limit.\<close>

lemma votes_can_be_counted:
  fixes env :: "'w env" and s :: "'w trustflow"
  assumes distinct: "distinct (voters_of s i)" and size: "int (length (voters_of s i)) < 2 ^ 32"
    and counts: "\<And>j. j \<in> set (voters_of s i) \<Longrightarrow> uint (get_slash_count j s) + 1 < 2 ^ 32"
    and inv: "settings_inv s" "stake_inv s"
  defines "s0 \<equiv> extend_instance_ttl env s" and "r \<equiv> majority_for_depositor s i"
  shows "\<exists>fd fb t. tally s0 i (voters_of s i) 0 0 = Ok (fd, fb) \<and> (fd \<ge> fb) = r
    \<and> slash_voters env i r (slash_rate s) (voters_of s i) s0 = Ok t
    \<and> p_escrow t = p_escrow s \<and> i_token t = i_token s \<and> world t = world s
    \<and> p_escrow_released t = p_escrow_released s"
proof -
  have frame: "voters_of s0 = voters_of s" "slash_rate s0 = slash_rate s"
    "\<And>j. get_stake j s0 = get_stake j s" "\<And>j. get_slash_count j s0 = get_slash_count j s"
    by (simp_all add: s0_def extend_instance_ttl_def reading_defs get_slash_count_def fun_eq_iff)
  obtain fd fb where tally: "tally s0 i (voters_of s i) 0 0 = Ok (fd, fb)"
    using tally_returns [of 0 "voters_of s i" 0 s0 i] size by auto
  have "tally s i (voters_of s i) 0 0 = Ok (fd, fb)"
    using tally tally_frame [of s0 s] by (simp add: s0_def extend_instance_ttl_def)
  then have "(fd \<ge> fb) = r" unfolding r_def by (rule tally_majority)
  moreover obtain t where slash: "slash_voters env i r (slash_rate s) (voters_of s i) s0 = Ok t"
    using slash_voters_returns [OF distinct, of "slash_rate s" s0 env i r] counts inv
    by (auto simp: frame settings_inv_def stake_inv_def)
  moreover obtain stakes cs lu evs where "t = s0\<lparr>p_juror_stake := stakes, p_juror_slash_count := cs,
      p_live_until := lu, events := evs\<rparr>" using slash_voters_Ok [OF slash distinct] by blast
  ultimately show ?thesis using tally by (simp add: s0_def extend_instance_ttl_def)
qed

text \<open>C10. Progress of a dispute, in every state that a contract initialised once can reach: once the
  reveal window is over, anyone's \<open>resolve_dispute\<close> succeeds, with the majority as its ruling, if
  at least one vote was revealed, the contract is not paused, the token works and both parties
  have room for what the escrow still holds, and no counter is at its limit (the votes are
  fewer than \<open>2 ^ 32\<close>, no voter's slash count is the last \<open>u32\<close>). Solvency provides the funds.\<close>

theorem resolution_goes_through:
  assumes reach: "tf_reachable tb cc (now, s)" and live: "live_token (token_transfer env) tb live"
    and cc: "current_contract_address env = cc"
    and d: "p_dispute s i = Some d" "\<not> d_resolved d" "d_reveal_deadline d \<le> sequence env"
    and voters: "voters_of s i \<noteq> []" "int (length (voters_of s i)) < 2 ^ 32"
    and counts: "\<And>j. j \<in> set (voters_of s i) \<Longrightarrow> uint (get_slash_count j s) + 1 < 2 ^ 32"
    and paused: "i_paused s \<noteq> Some True" and e: "p_escrow s i = Some e"
    and token: "i_token s = Some token" "live token cc (world s)"
    and room: "\<And>a. a \<in> {e_depositor e, e_beneficiary e} \<Longrightarrow>
        in_i128 (tb token a (world s) + (e_amount e - released i s))"
  shows "\<exists>t. resolve_dispute env i s = Ok (majority_for_depositor s i, t)"
proof -
  note inv = reachable_parts [OF reach]
  let ?rem = "e_amount e - released i s" and ?s0 = "extend_instance_ttl env s"
  let ?r = "majority_for_depositor s i"
  let ?to = "if ?r then e_depositor e else e_beneficiary e"
  from dispute_invD(1) [OF inv(4) d(1)] e have ok: "dispute_ok now s i e d" by simp
  then have st: "e_status e = Disputed" and distinct: "distinct (voters_of s i)"
    using d(2) by (simp_all add: dispute_ok_def)
  have acc: "0 \<le> released i s" "0 < ?rem" "in_i128 (e_amount e)"
    using escrow_invD(1) [OF inv(3) e] st by (simp_all add: escrow_ok_def)
  then have rem: "in_i128 ?rem" by (intro in_i128_mono [OF acc(3)]) simp_all
  obtain fd fb t where tally: "tally ?s0 i (voters_of s i) 0 0 = Ok (fd, fb)" "(fd \<ge> fb) = ?r"
    and slash: "slash_voters env i ?r (slash_rate s) (voters_of s i) ?s0 = Ok t"
    and t: "p_escrow t = p_escrow s" "i_token t = i_token s" "world t = world s" "p_escrow_released t = p_escrow_released s"
    using votes_can_be_counted [where env = env, OF distinct voters(2) counts inv(1,2)] by blast
  let ?s2 = "extend_persistent_ttl env (Dispute i) (set_dispute env i
        (d\<lparr>d_resolved := True, d_ruling_for_depositor := ?r\<rparr>) t)"
  have s2: "p_escrow ?s2 = p_escrow s" "i_token ?s2 = i_token s" "world ?s2 = world s"
    "released i ?s2 = released i s" by (simp_all add: t storage_defs released_def)
  have "?rem \<le> tb token cc (world s)"
    using escrow_is_funded [OF reach e _ token(1)] st by simp
  moreover have to: "?to \<in> {e_depositor e, e_beneficiary e}" by simp
  ultimately obtain w where pay: "token_transfer env token cc ?to ?rem (world s) = Some w"
    using live_token.transfer_goes [OF live token(2) _ _ room [OF to]] acc(2) by auto
  from settle_escrow_returns [of ?s2 i e token env ?r w] pay e token(1) rem
  obtain u where "settle_escrow env i ?r ?s2 = Ok u"
    by (auto simp: s2 cc simp del: extend_persistent_ttl_update)
  then have "resolve_dispute env i s = Ok (?r, u)"
    using d voters(1) paused tally slash
    by (simp add: resolve_dispute_def Let_def outcome_run extend_instance_ttl_def not_less
        voters_of_def slash_rate_def)
  then show ?thesis by blast
qed

lemma due_resolution_facts:
  "case at votes_revealed of (n, s) \<Rightarrow>
     (case p_dispute s 1 of Some d \<Rightarrow> \<not> d_resolved d \<and> d_reveal_deadline d \<le> 40000 | None \<Rightarrow> False) \<and>
     voters_of s 1 = [juror1, juror2, juror3] \<and> \<not> majority_for_depositor s 1 \<and>
     (\<forall>j\<in>set [juror1, juror2, juror3]. get_slash_count j s = 0) \<and> i_paused s \<noteq> Some True \<and>
     (case p_escrow s 1 of Some e \<Rightarrow> e_amount e = 1000000 \<and> e_depositor e = alice \<and> e_beneficiary e = bob
        | None \<Rightarrow> False) \<and>
     released 1 s = 400 \<and> i_token s = Some usdc \<and>
     (\<forall>a\<in>set [alice, bob]. 0 \<le> mock_client_balance usdc a (world s) \<and>
        mock_client_balance usdc a (world s) \<le> 1000000)"
  by code_simp

theorem resolution_goes_through_witness:
  "\<exists>t. resolve_dispute (mock_host escrow_contract [] 40000) 1 (snd (at votes_revealed)) = Ok (False, t)"
proof -
  obtain n s where at: "at votes_revealed = (n, s)" by fastforce
  note facts = due_resolution_facts [unfolded at prod.case]
  from facts obtain d where d: "p_dispute s 1 = Some d" "\<not> d_resolved d" "d_reveal_deadline d \<le> 40000"
    by (auto split: option.splits)
  from facts obtain e where e: "p_escrow s 1 = Some e" "e_amount e = 1000000" "e_depositor e = alice"
    "e_beneficiary e = bob" by (auto split: option.splits)
  have "\<exists>t. resolve_dispute (mock_host escrow_contract [] 40000) 1 s = Ok (majority_for_depositor s 1, t)"
  proof (rule resolution_goes_through [OF _ mock_host_live _ d(1,2) _ _ _ _ _ e(1)])
    show "tf_reachable mock_client_balance escrow_contract (n, s)" using at_reachable_pair [of votes_revealed] at by simp
    show "mock_live (bare_host escrow_contract [] 40000) usdc escrow_contract (world s)"
      using sound_token_live [OF at_sound [of votes_revealed]] at by simp
  qed (use facts d e in \<open>auto simp: in_i128_def\<close>)
  with facts show ?thesis by (simp add: at)
qed

section \<open>A permitted release goes through\<close>

lemma paid_goes:
  assumes live: "live_token (token_transfer env) tb live" and "live t cc w"
    and "0 \<le> amt" and "amt \<le> tb t cc w" and "in_i128 (tb t to w + amt)"
  shows "\<exists>w'. paid env t cc to amt w w' \<and> live t cc w'"
  using live_token.transfer_goes [OF live assms(2-5)] live_token.transfer_live [OF live assms(2)] assms(2)
  by (cases "amt = 0") (auto simp: paid_def)

text \<open>The numbers of a permitted release: nothing overflows, and the fee is a part of the tranche.\<close>

lemma release_numbers:
  assumes inv: "escrow_inv s" and e: "p_escrow s i = Some e" and cfg: "p_escrow_fee_config s i = Some cfg"
    and g: "0 < g" "released i s + g \<le> e_amount e"
  defines "fb \<equiv> exact_fee (released i s) (uint (f_fee_bps cfg))"
    and "fa \<equiv> exact_fee (released i s + g) (uint (f_fee_bps cfg))"
  shows "in_i128 (m_released i k s + g)" and "in_i128 (released i s + g)"
    and "cumulative_fee (released i s) (f_fee_bps cfg) = Ok fb"
    and "cumulative_fee (released i s + g) (f_fee_bps cfg) = Ok fa"
    and "0 \<le> fa - fb" and "fa - fb \<le> g" and "in_i128 (fa - fb)" and "in_i128 (g - (fa - fb))"
proof -
  let ?b = "uint (f_fee_bps cfg)"
  have acc: "0 \<le> released i s" "in_i128 (e_amount e)" "?b \<le> 1000"
    using escrow_invD(1) [OF inv e] cfg by (auto simp: escrow_ok_def)
  have sum: "(\<Sum>y\<in>UNIV. m_released i y s) = released i s" and mnn: "\<And>y. 0 \<le> m_released i y s"
    using escrow_invD(2) [OF inv e] by (auto simp: milestones_ok_def)
  have "m_released i k s \<le> (\<Sum>y\<in>UNIV. m_released i y s)"
    using mnn by (intro member_le_sum) auto
  with sum have part: "m_released i k s \<le> released i s" by simp
  show range: "in_i128 (m_released i k s + g)" "in_i128 (released i s + g)"
    using g part mnn [of k] acc(1) in_i128_mono [OF acc(2)] by auto
  have "in_i128 (released i s)" using g acc(1) in_i128_mono [OF acc(2)] by auto
  with acc g range show "cumulative_fee (released i s) (f_fee_bps cfg) = Ok fb"
    and "cumulative_fee (released i s + g) (f_fee_bps cfg) = Ok fa"
    unfolding fa_def fb_def by (simp_all add: cumulative_fee_total)
  show fee: "0 \<le> fa - fb" "fa - fb \<le> g"
    using exact_fee_mono [of "released i s" "released i s + g" ?b] exact_fee_step [of g ?b "released i s"]
      acc(3) g(1) by (simp_all add: fa_def fb_def)
  have g128: "in_i128 g" using g acc(1) by (intro in_i128_mono [OF acc(2)]) auto
  from fee show "in_i128 (fa - fb)" "in_i128 (g - (fa - fb))" by (auto intro!: in_i128_mono [OF g128])
qed

text \<open>Two payments out of the contract that together are covered go through.\<close>

lemma paid_twice_goes:
  assumes live: "live_token (token_transfer env) tb live" and "live t cc w"
    and amounts: "0 \<le> x" "0 \<le> y" "x + y \<le> tb t cc w"
    and room: "\<And>c. c \<in> {a, b} \<Longrightarrow> 0 \<le> tb t c w \<and> in_i128 (tb t c w + (x + y))"
  shows "\<exists>w1 w2. paid env t cc a x w w1 \<and> paid env t cc b y w1 w2"
proof -
  have "in_i128 (tb t a w + x)" using room [of a] amounts by (auto simp: in_i128_def)
  with paid_goes [OF live assms(2) amounts(1), of a] amounts obtain w1 where
    w1: "paid env t cc a x w w1" "live t cc w1" by auto
  have moved: "tb t c w1 = tb t c w - (if c = cc then x else 0) + (if c = a then x else 0)" for c
    using w1(1) live_token.axioms(1) [OF live, THEN token_client.transfer_moves]
    by (auto simp: paid_def split: if_splits)
  have "in_i128 (tb t b w1 + y)" unfolding moved using room [of b] amounts by (auto simp: in_i128_def)
  moreover have "y \<le> tb t cc w1" using moved [of cc] amounts by auto
  ultimately show ?thesis using paid_goes [OF live w1(2) amounts(2)] w1(1) by blast
qed

section \<open>The milestones make up the amount\<close>

text \<open>An escrow with milestones locks exactly their sum, so what a milestone still holds, the
  escrow still holds too.\<close>

definition milestones_sum :: "escrow_record \<Rightarrow> bool" where
  "milestones_sum e \<longleftrightarrow> e_milestones e = []
     \<or> (e_amount e = (\<Sum>m\<leftarrow>e_milestones e. m_amount m) \<and> (\<forall>m\<in>set (e_milestones e). 0 < m_amount m))"

lemma same_terms_milestones:
  assumes "same_terms e e'"
  shows "milestones_sum e' \<longleftrightarrow> milestones_sum e"
proof -
  from assms have "map (\<lambda>m. (m_label m, m_amount m, m_release_time m)) (e_milestones e') =
      map (\<lambda>m. (m_label m, m_amount m, m_release_time m)) (e_milestones e)" and a: "e_amount e' = e_amount e"
    by (simp_all add: same_terms_def)
  from arg_cong [OF this(1), of "map (fst \<circ> snd)"]
  have m: "map m_amount (e_milestones e') = map m_amount (e_milestones e)" by (simp add: comp_def)
  have "milestones_sum x \<longleftrightarrow> map m_amount (e_milestones x) = []
      \<or> (e_amount x = sum_list (map m_amount (e_milestones x)) \<and> (\<forall>y\<in>set (map m_amount (e_milestones x)). 0 < y))" for x
    by (simp add: milestones_sum_def)
  then show ?thesis by (simp only: m a)
qed

lemma new_milestones_sum:
  assumes run: "exec env c s = Ok s'" and old: "p_escrow s i = None" and new: "p_escrow s' i = Some e"
    and inv: "dispute_inv now s"
  shows "milestones_sum e"
proof -
  have none: ?thesis if "p_escrow s' i = p_escrow s i" using that old new by simp
  have quiet: "state_of (stake env j amt s) = Ok s' \<Longrightarrow> ?thesis" "state_of (unstake env j amt s) = Ok s' \<Longrightarrow> ?thesis"
    "state_of (bump_juror_stake_ttl env j s) = Ok s' \<Longrightarrow> ?thesis"
    "state_of (commit_vote env x a cm s) = Ok s' \<Longrightarrow> ?thesis" "state_of (reveal_vote env x a v sl s) = Ok s' \<Longrightarrow> ?thesis"
    "state_of (bump_escrow_ttl env x s) = Ok s' \<Longrightarrow> ?thesis" for j amt x a cm v sl
    by (rule none; auto simp: state_of_Ok elim!: stake_Ok unstake_Ok bump_juror_stake_ttl_Ok
        dest!: commit_vote_Ok reveal_vote_Ok bump_escrow_ttl_Ok)+
  have admin: "state_of (set_fee_bps env a n s) = Ok s' \<Longrightarrow> ?thesis" "state_of (set_treasury env a b s) = Ok s' \<Longrightarrow> ?thesis"
    "state_of (set_pauser env a b s) = Ok s' \<Longrightarrow> ?thesis" "state_of (revoke_pauser env a s) = Ok s' \<Longrightarrow> ?thesis"
    "state_of (pause env a s) = Ok s' \<Longrightarrow> ?thesis" "state_of (unpause env a s) = Ok s' \<Longrightarrow> ?thesis"
    "state_of (initialize env a b n s) = Ok s' \<Longrightarrow> ?thesis" for a b n
    by (rule none; auto simp: state_of_Ok admin_Ok storage_defs)+
  have touched: "state_of (release_milestone_tranche env x k g a s) = Ok s' \<Longrightarrow> ?thesis"
    "state_of (raise_dispute env x a rs s) = Ok s' \<Longrightarrow> ?thesis" for x k g a rs
    by (rule none, insert old, cases "x = i"; auto simp: state_of_Ok dest!: release_Ok raise_dispute_Ok)+
  have resolved: ?thesis if "state_of (resolve_dispute env x s) = Ok s'" for x
    using that old none resolve_dispute_keeps_terms [OF _ distinct_voters [OF inv, of x], of env _ s']
    by (cases "x = i") (force simp: state_of_Ok)+
  have created: "state_of (create_escrow env d b amt s) = Ok s' \<Longrightarrow> ?thesis" for d b amt
    using old new by (auto simp: state_of_Ok milestones_sum_def elim!: create_escrow_Ok split: if_splits)
  have init: "state_of (init_escrow env d b ms s) = Ok s' \<Longrightarrow> ?thesis" for d b ms
    using old new by (auto simp: state_of_Ok milestones_sum_def dest!: init_escrow_Ok milestones_total_Ok split: if_splits)
  from run have disp: "dispatch env c s = Ok s'" by (simp add: exec_def split: if_splits)
  show ?thesis
    by (insert disp, cases c; simp only: dispatch.simps; erule quiet admin touched resolved created init)
qed

lemma reachable_milestones_sum:
  assumes "tf_reachable tb cc (now, s)" and "p_escrow s i = Some e"
  shows "milestones_sum e"
proof -
  let ?P = "\<lambda>s. \<forall>i e. p_escrow s i = Some e \<longrightarrow> milestones_sum e"
  from assms(1) have "?P s"
  proof (rule tf_invariant)
    fix env now c s s'
    assume run: "exec env c s = Ok s'" "\<not> reinitializes c" and "?P s" and reach: "tf_reachable tb cc (now, s)"
    show "?P s'"
    proof (intro allI impI)
      fix i e assume e: "p_escrow s' i = Some e"
      show "milestones_sum e"
      proof (cases "p_escrow s i")
        case None
        from new_milestones_sum [OF run(1) this e reachable_parts(4) [OF reach]] show ?thesis .
      next
        case (Some e0)
        from evolvesD(4) [OF call_evolves [OF reachable_full [OF reach] run] this] e have "same_terms e0 e" by auto
        with \<open>?P s\<close> Some show ?thesis by (simp add: same_terms_milestones)
      qed
    qed
  qed (auto simp: initialize_Ok empty_storage_def storage_defs)
  with assms(2) show ?thesis by blast
qed

lemma sum_of_parts:
  fixes f :: "u32 \<Rightarrow> int" and amounts :: "int list"
  assumes "unat k < length amounts"
    and part: "\<And>y. unat y < length amounts \<Longrightarrow> f y \<le> amounts ! unat y"
    and none: "\<And>y. length amounts \<le> unat y \<Longrightarrow> f y = 0" and pos: "\<And>x. x \<in> set amounts \<Longrightarrow> 0 \<le> x"
  shows "(\<Sum>y\<in>UNIV. f y) - f k + amounts ! unat k \<le> sum_list amounts"
proof -
  let ?A = "{y :: u32. unat y < length amounts}" and ?J = "{0..<length amounts}"
  have "(\<Sum>y\<in>UNIV. f y) = (\<Sum>y\<in>?A. f y)"
    using none by (intro sum.mono_neutral_right) (auto simp: not_less)
  also have "\<dots> = f k + (\<Sum>y\<in>?A - {k}. f y)" using assms(1) by (intro sum.remove) auto
  finally have split: "(\<Sum>y\<in>UNIV. f y) - f k = (\<Sum>y\<in>?A - {k}. f y)" by simp
  have "(\<Sum>y\<in>?A - {k}. f y) \<le> (\<Sum>y\<in>?A - {k}. amounts ! unat y)" using part by (intro sum_mono) auto
  also have "\<dots> = (\<Sum>j\<in>unat ` (?A - {k}). amounts ! j)"
    by (simp add: sum.reindex inj_on_def word_unat_eq_iff)
  also have "\<dots> \<le> (\<Sum>j\<in>?J - {unat k}. amounts ! j)"
    using pos by (intro sum_mono2) (auto simp: word_unat_eq_iff)
  also have "\<dots> = sum_list amounts - amounts ! unat k"
    using assms(1) sum.remove [of ?J "unat k" "(!) amounts"] by (simp add: sum_list_sum_nth)
  finally show ?thesis using split by simp
qed

text \<open>A part of a milestone that it still holds is covered by the escrow.\<close>

lemma milestone_part_covered:
  assumes reach: "tf_reachable tb cc (now, s)" and e: "p_escrow s i = Some e"
    and m: "vec_get (e_milestones e) k = Some m" and g: "m_released i k s + g \<le> m_amount m"
  shows "released i s + g \<le> e_amount e"
proof -
  let ?a = "map m_amount (e_milestones e)"
  have k: "unat k < length (e_milestones e)" "m = e_milestones e ! unat k" using m by (auto simp: vec_get_Some)
  from reachable_milestones_sum [OF reach e] k(1) have tot: "e_amount e = sum_list ?a"
    and pos: "\<And>x. x \<in> set ?a \<Longrightarrow> 0 \<le> x" by (auto simp: milestones_sum_def)
  from escrow_invD(2) [OF reachable_parts(3) [OF reach] e]
  have rel: "(\<Sum>y\<in>UNIV. m_released i y s) = released i s"
    and part: "\<And>y. case vec_get (e_milestones e) y of None \<Rightarrow> m_released i y s = 0
      | Some m \<Rightarrow> m_released i y s \<le> m_amount m \<and> (0 < m_released i y s \<longrightarrow> m_approved m)"
    unfolding milestones_ok_def by blast+
  have "(\<Sum>y\<in>UNIV. m_released i y s) - m_released i k s + ?a ! unat k \<le> sum_list ?a"
  proof (rule sum_of_parts)
    fix y show "unat y < length ?a \<Longrightarrow> m_released i y s \<le> ?a ! unat y"
      and "length ?a \<le> unat y \<Longrightarrow> m_released i y s = 0"
      using part [of y] by (simp_all add: vec_get_def)
  qed (use k pos in auto)
  with rel tot k g show ?thesis by simp
qed

text \<open>C11. Progress of a release: in every state that a contract initialised once can reach, while it
  is not paused, the depositor of an active escrow can, by signing, release any positive part of
  a due milestone that the milestone still holds, as long as the token works and beneficiary and
  treasury, with balances that are not negative, have room for the amount. That the contract has
  the funds, that the escrow as a whole still holds the part, and that the fee arithmetic does
  not overflow need no assumption.\<close>

theorem release_goes_through:
  assumes reach: "tf_reachable tb cc (now, s)" and live: "live_token (token_transfer env) tb live"
    and cc: "current_contract_address env = cc"
    and e: "p_escrow s i = Some e" "e_status e = Active" and auth: "authorized env (e_depositor e)"
    and m: "vec_get (e_milestones e) k = Some m" "m_release_time m \<le> sequence env"
    and part: "0 < g" "m_released i k s + g \<le> m_amount m"
    and paused: "i_paused s \<noteq> Some True" and token: "i_token s = Some token" "live token cc (world s)"
    and cfg: "p_escrow_fee_config s i = Some cfg"
    and room: "\<And>a. a \<in> {e_beneficiary e, f_treasury cfg} \<Longrightarrow>
        0 \<le> tb token a (world s) \<and> in_i128 (tb token a (world s) + g)"
  shows "\<exists>t. release_milestone_tranche env i k g (e_depositor e) s = Ok ((), t)"
proof -
  let ?b = "uint (f_fee_bps cfg)"
  let ?fee = "exact_fee (released i s + g) ?b - exact_fee (released i s) ?b"
  note g = part milestone_part_covered [OF reach e(1) m(1) part(2)]
  note n = release_numbers [OF reachable_parts(3) [OF reach] e(1) cfg g(1,3)]
  have "g \<le> tb token cc (world s)"
    using escrow_is_funded [OF reach e(1) _ token(1)] e(2) g(3) by simp
  with paid_twice_goes [OF live token(2), of "g - ?fee" ?fee "e_beneficiary e" "f_treasury cfg"] n(5,6) room
  obtain w1 w2 where "paid env token cc (e_beneficiary e) (g - ?fee) (world s) w1"
    and "paid env token cc (f_treasury cfg) ?fee w1 w2" by auto
  moreover from m(2) have "\<not> sequence env < m_release_time m" by simp
  ultimately show ?thesis
    using e auth m(1) g paused token(1) cfg n(1) [of k] n(2-4,7,8)
    by (auto simp: release_milestone_tranche_def Let_def outcome_run cc checked_add_def checked_sub_def
        storage_defs m_released_def released_def paid_def try_token_transfer_def split: if_splits)
qed

definition release_facts :: "u32 \<times> mock_world trustflow \<Rightarrow> bool" where
  "release_facts c = (case c of (n, s) \<Rightarrow>
     (case p_escrow s 1 of Some e \<Rightarrow> e_amount e = 1000000 \<and> e_depositor e = alice \<and> e_beneficiary e = bob
        \<and> e_status e = Active \<and> vec_get (e_milestones e) 1 = Some (alices_milestones ! 1)
        | None \<Rightarrow> False) \<and>
     p_escrow_fee_config s 1 = Some \<lparr>f_treasury = owner, f_fee_bps = 100\<rparr> \<and>
     released 1 s = 400 \<and> m_released 1 1 s = 0 \<and> i_paused s \<noteq> Some True \<and> i_token s = Some usdc \<and>
     (\<forall>a\<in>set [owner, bob]. 0 \<le> mock_client_balance usdc a (world s) \<and>
        mock_client_balance usdc a (world s) \<le> 1000000))"

lemma release_facts_tranches: "release_facts (at tranches)"
  by code_simp

theorem release_goes_through_witness:
  "\<exists>t. release_milestone_tranche (mock_host escrow_contract [alice] 250) 1 1 600000 alice
     (snd (at tranches)) = Ok ((), t)"
proof -
  obtain n s where at: "at tranches = (n, s)" by fastforce
  note facts = release_facts_tranches [unfolded at release_facts_def prod.case]
  from facts obtain e where e: "p_escrow s 1 = Some e" "e_status e = Active" "e_depositor e = alice"
    "e_amount e = 1000000" "e_beneficiary e = bob"
    "vec_get (e_milestones e) 1 = Some (alices_milestones ! 1)" by (auto split: option.splits)
  have "\<exists>t. release_milestone_tranche (mock_host escrow_contract [alice] 250) 1 1 600000 (e_depositor e) s
      = Ok ((), t)"
  proof (rule release_goes_through [OF _ mock_host_live _ e(1,2) _ e(6)])
    show "tf_reachable mock_client_balance escrow_contract (n, s)" using at_reachable_pair [of tranches] at by simp
    show "mock_live (bare_host escrow_contract [alice] 250) usdc escrow_contract (world s)"
      using sound_token_live [OF at_sound [of tranches]] at by simp
    show "authorized (mock_host escrow_contract [alice] 250) (e_depositor e)"
      by (simp add: e cast_defs)
    show "p_escrow_fee_config s 1 = Some \<lparr>f_treasury = owner, f_fee_bps = 100\<rparr>" using facts by simp
  qed (use facts e in \<open>auto simp: in_i128_def alices_milestones_def\<close>)
  then show ?thesis by (simp add: at e)
qed

end
