(* ===== verification/TrustFlow_Deadlock.thy ===== *)
theory TrustFlow_Deadlock
  imports TrustFlow_Properties
begin

text \<open>
  The dispute nobody voted in: once the reveal window has closed without a revealed vote, no
  sequence of calls ever resolves the dispute or moves the escrow's funds.
\<close>

definition abandoned ::
    "u32 \<Rightarrow> u64 \<Rightarrow> escrow_record \<Rightarrow> dispute_record \<Rightarrow> i128 \<Rightarrow> 'w trustflow \<Rightarrow> bool" where
  "abandoned now i e d r s \<longleftrightarrow> p_escrow s i = Some e \<and> e_status e = Disputed \<and> p_dispute s i = Some d
     \<and> \<not> d_resolved d \<and> d_commit_deadline d \<le> now \<and> d_reveal_deadline d \<le> now \<and> voters_of s i = []
     \<and> released i s = r"

lemmas reading = voters_of_def released_def

lemma abandoned_quiet:
  assumes "abandoned now i e d r s" and "now \<le> later" and "p_escrow t i = p_escrow s i"
    and "p_dispute t i = p_dispute s i" and "voters_of t i = voters_of s i" and "released i t = released i s"
  shows "abandoned later i e d r t"
  using assms by (auto simp: abandoned_def)

lemma abandoned_admin:
  assumes ab: "abandoned now i e d r s" and le: "now \<le> later"
  shows "state_of (set_fee_bps env a b s) = Ok s' \<Longrightarrow> abandoned later i e d r s'"
    and "state_of (set_treasury env a x s) = Ok s' \<Longrightarrow> abandoned later i e d r s'"
    and "state_of (set_pauser env a x s) = Ok s' \<Longrightarrow> abandoned later i e d r s'"
    and "state_of (revoke_pauser env a s) = Ok s' \<Longrightarrow> abandoned later i e d r s'"
    and "state_of (pause env a s) = Ok s' \<Longrightarrow> abandoned later i e d r s'"
    and "state_of (unpause env a s) = Ok s' \<Longrightarrow> abandoned later i e d r s'"
  by (auto simp: admin_Ok state_of_Ok storage_defs reading intro!: abandoned_quiet [OF ab le])

lemma abandoned_stake:
  assumes ab: "abandoned now i e d r s" and le: "now \<le> later"
  shows "state_of (stake env a amt s) = Ok s' \<Longrightarrow> abandoned later i e d r s'"
    and "state_of (unstake env a amt s) = Ok s' \<Longrightarrow> abandoned later i e d r s'"
    and "state_of (bump_juror_stake_ttl env a s) = Ok s' \<Longrightarrow> abandoned later i e d r s'"
    and "state_of (bump_escrow_ttl env x s) = Ok s' \<Longrightarrow> abandoned later i e d r s'"
    and "state_of (commit_vote env x a c s) = Ok s' \<Longrightarrow> abandoned later i e d r s'"
  by (auto simp: state_of_Ok reading elim!: stake_Ok unstake_Ok bump_juror_stake_ttl_Ok
      dest!: commit_vote_Ok bump_escrow_ttl_Ok intro!: abandoned_quiet [OF ab le])

lemma abandoned_escrow:
  assumes ab: "abandoned now i e d r s" and le: "now \<le> sequence env" and inv: "escrow_inv s"
  shows "state_of (create_escrow env a b amt s) = Ok s' \<Longrightarrow> abandoned (sequence env) i e d r s'"
    and "state_of (init_escrow env a b ms s) = Ok s' \<Longrightarrow> abandoned (sequence env) i e d r s'"
    and "state_of (release_milestone_tranche env x k g a s) = Ok s' \<Longrightarrow> abandoned (sequence env) i e d r s'"
    and "state_of (raise_dispute env x a rs s) = Ok s' \<Longrightarrow> abandoned (sequence env) i e d r s'"
proof -
  have fresh: "checked_add_word (escrow_count s) 1 = Some x \<Longrightarrow> x \<noteq> i" for x
    using fresh_escrow(1) [OF inv, of x] ab by (auto simp: abandoned_def)
  show "state_of (create_escrow env a b amt s) = Ok s' \<Longrightarrow> abandoned (sequence env) i e d r s'"
    "state_of (init_escrow env a b ms s) = Ok s' \<Longrightarrow> abandoned (sequence env) i e d r s'"
    by (auto simp: state_of_Ok reading elim!: create_escrow_Ok dest!: init_escrow_Ok
        dest: fresh intro!: abandoned_quiet [OF ab le])
next
  assume "state_of (release_milestone_tranche env x k g a s) = Ok s'"
  then have run: "release_milestone_tranche env x k g a s = Ok ((), s')" by (simp add: state_of_Ok)
  have "x \<noteq> i" using release_Ok [OF run] ab by (auto simp: abandoned_def)
  with release_Ok [OF run] show "abandoned (sequence env) i e d r s'"
    by (auto simp: reading intro!: abandoned_quiet [OF ab le])
next
  assume "state_of (raise_dispute env x a rs s) = Ok s'"
  then have run: "raise_dispute env x a rs s = Ok ((), s')" by (simp add: state_of_Ok)
  have "x \<noteq> i" using raise_dispute_Ok [OF run] ab by (auto simp: abandoned_def)
  with raise_dispute_Ok [OF run] show "abandoned (sequence env) i e d r s'"
    by (auto simp: reading intro!: abandoned_quiet [OF ab le])
qed

lemma resolve_dispute_others:
  assumes "resolve_dispute env x s = Ok (v, s')" and "distinct (voters_of s x)"
  shows "p_dispute_voters s' = p_dispute_voters s \<and> p_escrow_released s' = p_escrow_released s
    \<and> (\<forall>y. y \<noteq> x \<longrightarrow> p_escrow s' y = p_escrow s y \<and> p_dispute s' y = p_dispute s y)"
  using resolve_dispute_Ok [OF assms] by (elim exE conjE, hypsubst) simp

lemma abandoned_votes:
  assumes ab: "abandoned now i e d r s" and le: "now \<le> sequence env" and inv: "dispute_inv now s"
  shows "state_of (reveal_vote env x j v sl s) = Ok s' \<Longrightarrow> abandoned (sequence env) i e d r s'"
    and "state_of (resolve_dispute env x s) = Ok s' \<Longrightarrow> abandoned (sequence env) i e d r s'"
proof -
  assume "state_of (reveal_vote env x j v sl s) = Ok s'"
  then obtain u where run: "reveal_vote env x j v sl s = Ok (u, s')" by (auto simp: state_of_Ok)
  have "x \<noteq> i" using reveal_vote_Ok [OF run] ab le by (auto simp: abandoned_def)
  with reveal_vote_Ok [OF run] show "abandoned (sequence env) i e d r s'"
    by (auto simp: reading intro!: abandoned_quiet [OF ab le])
next
  assume "state_of (resolve_dispute env x s) = Ok s'"
  then obtain v where run: "resolve_dispute env x s = Ok (v, s')" by (auto simp: state_of_Ok)
  have "x \<noteq> i" by (rule resolve_dispute_steps [OF run]) (use ab in \<open>auto simp: abandoned_def\<close>)
  with resolve_dispute_others [OF run distinct_voters [OF inv]] show "abandoned (sequence env) i e d r s'"
    by (intro abandoned_quiet [OF ab le]) (auto simp: reading)
qed

lemma abandoned_call:
  assumes ab: "abandoned now i e d r s" and le: "now \<le> sequence env" and inv: "full_inv tb cc now s"
    and run: "exec env c s = Ok s'" and once: "\<not> reinitializes c"
  shows "abandoned (sequence env) i e d r s'"
proof -
  from run have disp: "dispatch env c s = Ok s'" by (simp add: exec_def split: if_splits)
  have inv': "escrow_inv s" "dispute_inv now s" using inv by (simp_all add: full_inv_def tf_inv_def)
  show ?thesis
    by (insert disp once, cases c; simp only: dispatch.simps reinitializes.simps simp_thms;
        erule abandoned_admin [OF ab le] abandoned_stake [OF ab le] abandoned_escrow [OF ab le inv'(1)]
          abandoned_votes [OF ab le inv'(2)])
qed

text \<open>C25. A dispute whose reveal window closed with no revealed vote is final in the worst way, in a
  contract initialised once: whatever anyone calls afterwards except a second \<open>initialize\<close>, the
  escrow stays disputed with its funds locked, and every attempt to resolve it fails.\<close>

theorem unvoted_dispute_is_stuck:
  assumes reach: "tf_reachable tb cc (now, s)" and d: "p_dispute s i = Some d" "\<not> d_resolved d"
    and closed: "d_reveal_deadline d \<le> now" and none: "voters_of s i = []"
    and later: "tf_later tb cc (now, s) (now', s')"
  shows "p_escrow s' i = p_escrow s i \<and> p_dispute s' i = Some d \<and> locked i s' = locked i s \<and> 0 < locked i s
    \<and> (\<forall>env r. resolve_dispute env i s' \<noteq> Ok r)"
proof -
  note inv = reachable_parts [OF reach]
  from dispute_invD(1) [OF inv(4) d(1)] obtain e where e: "p_escrow s i = Some e"
    and ok: "dispute_ok now s i e d" by blast
  then have "d_commit_deadline d \<le> d_reveal_deadline d" "e_status e = Disputed"
    using d(2) by (simp_all add: dispute_ok_def)
  then have ab: "abandoned now i e d (released i s) s" using e d closed none by (simp add: abandoned_def)
  from later have ab': "abandoned now' i e d (released i s) s' \<and> tf_reachable tb cc (now', s')"
  proof (induction rule: rtranclp_induct2)
    case refl
    show ?case using ab reach by simp
  next
    case (step n t n' t')
    from step.hyps(2) step.IH have "abandoned n' i e d (released i s) t'"
      by (cases rule: tf_step.cases)
        (auto intro: abandoned_call reachable_full abandoned_quiet simp: reading)
    with step show ?case using tf_reachable.step by blast
  qed
  then have e': "p_escrow s' i = Some e" "p_dispute s' i = Some d" "voters_of s' i = []"
    "released i s' = released i s" by (simp_all add: abandoned_def)
  note inv' = reachable_parts [OF conjunct2 [OF ab']]
  have stuck: "resolve_dispute env i s' \<noteq> Ok r" for env r
    using e'(3) by (cases r) (auto elim!: resolve_dispute_steps)
  have "locked i s' = locked i s" by (simp add: locked_def e e')
  moreover have "0 < locked i s"
    using escrow_invD(1) [OF inv(3) e] \<open>e_status e = Disputed\<close> by (simp add: locked_def e escrow_ok_def)
  ultimately show ?thesis using e e' stuck by simp
qed

theorem unvoted_dispute_is_stuck_witness:
  "locked 1 (snd (at dispute_raised)) = 999600
     \<and> (\<forall>env r. resolve_dispute env 1 (snd (at dispute_raised)) \<noteq> Ok r)"
proof -
  let ?s = "snd (at dispute_raised)" and ?n = "fst (at dispute_raised)"
  have facts: "case at dispute_raised of (n, s) \<Rightarrow> n \<le> 40000 \<and> voters_of s 1 = []
      \<and> (case p_dispute s 1 of Some d \<Rightarrow> \<not> d_resolved d \<and> d_reveal_deadline d \<le> 40000 | None \<Rightarrow> False)
      \<and> locked 1 s = 999600" by code_simp
  then obtain d where d: "p_dispute ?s 1 = Some d" "\<not> d_resolved d" "d_reveal_deadline d \<le> 40000"
    and rest: "?n \<le> 40000" "voters_of ?s 1 = []" "locked 1 ?s = 999600"
    by (auto split: option.splits prod.splits)
  have reach: "tf_reachable mock_client_balance escrow_contract (40000, ?s)"
    by (rule tf_reachable.step [OF at_reachable_pair tf_step.time [OF rest(1)]])
  have later: "tf_later mock_client_balance escrow_contract (40000, ?s) (50000, ?s)"
    by (rule r_into_rtranclp, rule tf_step.time) simp
  from unvoted_dispute_is_stuck [OF reach d rest(2) later] rest(3) show ?thesis by simp
qed

end
