(* ===== verification/TrustFlow_Authority.thy ===== *)
theory TrustFlow_Authority
  imports TrustFlow_Properties
begin

text \<open>
  Who can do what, and what nobody can: the terms of an escrow and the ruling of a dispute are
  final, settings change only by the administrator, the circuit breaker stops every call that
  moves value, escrow funds move by the depositor or a ruling, stakes by the juror or a
  ruling; and what a second initialisation does.
\<close>

section \<open>History\<close>

text \<open>The scripts continue each other.\<close>

lemma dispute_resolved_plays: "play escrow_contract dispute_resolved 100 deployed \<noteq> None"
proof -
  have "(case play escrow_contract dispute_resolved 100 deployed of None \<Rightarrow> False | Some c \<Rightarrow> True)" by code_simp
  then show ?thesis by (auto split: option.splits)
qed

lemma tranches_to_resolved:
  "tf_later mock_client_balance escrow_contract (fst (at tranches), snd (at tranches))
     (fst (at dispute_resolved), snd (at dispute_resolved))"
  using at_later [of tranches "drop (length tranches) dispute_resolved"] dispute_resolved_plays
  by (simp add: dispute_resolved_def votes_revealed_def votes_committed_def dispute_raised_def)

lemma revealed_to_resolved:
  "tf_later mock_client_balance escrow_contract (fst (at votes_revealed), snd (at votes_revealed))
     (fst (at dispute_resolved), snd (at dispute_resolved))"
  using at_later [of votes_revealed] dispute_resolved_plays by (simp add: dispute_resolved_def)

text \<open>C8. The terms of an escrow are final as long as \<open>initialize\<close> is not run a second time (which
  restarts the numbering, so that a new escrow can take an old one's place): from any state
  that a contract initialised once can reach, through any other calls by anyone, an escrow
  keeps its parties, its amount, its milestones' labels, amounts and release times and its fee
  snapshot; its released total never shrinks; and its status only moves forward from active
  over disputed to settled.\<close>

theorem escrow_terms_final:
  assumes "tf_reachable tb cc (now, s)" and "tf_later tb cc (now, s) (now', s')"
    and "p_escrow s i = Some e" and "p_escrow_fee_config s i = Some cfg"
  shows "\<exists>e'. p_escrow s' i = Some e' \<and> e_depositor e' = e_depositor e \<and> e_beneficiary e' = e_beneficiary e
    \<and> e_amount e' = e_amount e
    \<and> map (\<lambda>m. (m_label m, m_amount m, m_release_time m)) (e_milestones e') =
      map (\<lambda>m. (m_label m, m_amount m, m_release_time m)) (e_milestones e)
    \<and> status_rank (e_status e) \<le> status_rank (e_status e')
    \<and> p_escrow_fee_config s' i = Some cfg \<and> released i s \<le> released i s'"
  using later_evolves [OF assms(1,2)] evolvesD(4) [of s s' i e] evolvesD(5) [of s s' i cfg]
    evolvesD(8) [of s s' i] assms(3,4) unfolding same_terms_def by blast

theorem escrow_terms_final_witness:
  "\<exists>e e'. p_escrow (snd (at tranches)) 1 = Some e \<and> p_escrow (snd (at dispute_resolved)) 1 = Some e'
     \<and> e_status e = Active \<and> e_status e' = Settled \<and> e_amount e' = e_amount e \<and> e_beneficiary e' = e_beneficiary e"
proof -
  have facts: "(case at tranches of (n, s) \<Rightarrow> map_option e_status (p_escrow s 1) = Some Active
      \<and> p_escrow_fee_config s 1 = Some \<lparr>f_treasury = owner, f_fee_bps = 100\<rparr>)
    \<and> (case at dispute_resolved of (n, s) \<Rightarrow> map_option e_status (p_escrow s 1) = Some Settled)" by code_simp
  then obtain e where "p_escrow (snd (at tranches)) 1 = Some e" "e_status e = Active"
    "p_escrow_fee_config (snd (at tranches)) 1 = Some \<lparr>f_treasury = owner, f_fee_bps = 100\<rparr>"
    by (auto split: prod.splits)
  with escrow_terms_final [OF at_reachable_pair tranches_to_resolved this(1,3)] facts
  show ?thesis by (auto split: prod.splits)
qed

text \<open>C9. Disputes are final, without a second \<open>initialize\<close>: through any other calls, from any state
  a contract initialised once can reach, a dispute keeps who raised it, its reason and its
  deadlines, a revealed vote is never changed or withdrawn, and a ruling, once given, is never given again differently.\<close>

theorem disputes_final:
  assumes "tf_reachable tb cc (now, s)" and "tf_later tb cc (now, s) (now', s')"
    and "p_dispute s i = Some d"
  shows "\<exists>d'. p_dispute s' i = Some d' \<and> d_raised_by d' = d_raised_by d \<and> d_reason d' = d_reason d
    \<and> d_commit_deadline d' = d_commit_deadline d \<and> d_reveal_deadline d' = d_reveal_deadline d
    \<and> (d_resolved d \<longrightarrow> d' = d)
    \<and> (\<forall>j v. reveal_of s i j = Some v \<longrightarrow> reveal_of s' i j = Some v)"
  using later_evolves [OF assms(1,2)] evolvesD(6) [of s s' i d] evolvesD(7) [of s s' i] assms(3)
  unfolding same_dispute_def by blast

theorem disputes_final_witness:
  "\<exists>d d'. p_dispute (snd (at votes_revealed)) 1 = Some d \<and> p_dispute (snd (at dispute_resolved)) 1 = Some d'
     \<and> d_raised_by d' = d_raised_by d \<and> d_reveal_deadline d' = d_reveal_deadline d
     \<and> \<not> d_resolved d \<and> d_resolved d'"
proof -
  have facts: "(case at votes_revealed of (n, s) \<Rightarrow> map_option d_resolved (p_dispute s 1) = Some False)
    \<and> (case at dispute_resolved of (n, s) \<Rightarrow> map_option d_resolved (p_dispute s 1) = Some True)" by code_simp
  then obtain d where "p_dispute (snd (at votes_revealed)) 1 = Some d" "\<not> d_resolved d"
    by (auto split: prod.splits)
  with disputes_final [OF at_reachable_pair revealed_to_resolved this(1)] facts
  show ?thesis by (auto split: prod.splits)
qed

section \<open>The circuit breaker\<close>

text \<open>The calls that move value or change an escrow's fate.\<close>

fun pausable :: "tf_call \<Rightarrow> bool" where
  "pausable (Call_stake juror amount) = True"
| "pausable (Call_unstake juror amount) = True"
| "pausable (Call_create_escrow d b amount) = True"
| "pausable (Call_init_escrow d b ms) = True"
| "pausable (Call_release_milestone_tranche i k g caller) = True"
| "pausable (Call_raise_dispute i caller reason) = True"
| "pausable (Call_commit_vote i juror c) = True"
| "pausable (Call_reveal_vote i juror v sl) = True"
| "pausable (Call_resolve_dispute i) = True"
| "pausable _ = False"

text \<open>Who has to sign such a call (\<open>resolve_dispute\<close> needs nobody).\<close>

fun signer :: "tf_call \<Rightarrow> address option" where
  "signer (Call_stake juror amount) = Some juror"
| "signer (Call_unstake juror amount) = Some juror"
| "signer (Call_create_escrow d b amount) = Some d"
| "signer (Call_init_escrow d b ms) = Some d"
| "signer (Call_release_milestone_tranche i k g caller) = Some caller"
| "signer (Call_raise_dispute i caller reason) = Some caller"
| "signer (Call_commit_vote i juror c) = Some juror"
| "signer (Call_reveal_vote i juror v sl) = Some juror"
| "signer _ = None"

definition signed :: "'w env \<Rightarrow> tf_call \<Rightarrow> bool" where
  "signed env c \<longleftrightarrow> (case signer c of Some a \<Rightarrow> authorized env a | None \<Rightarrow> True)"

lemma paused_guard:
  "i_paused s = Some True \<Longrightarrow> attempt (require_not_paused (extend_instance_ttl env s)) k = Err ContractPausedError"
  by (simp add: outcome_run extend_instance_ttl_def)

text \<open>C19. The circuit breaker: while the contract is paused, every call that moves value or changes
  an escrow fails, whatever the rest of the state: with \<open>ContractPausedError\<close> exactly when its
  arguments decode and its signer has authorised it, with a panic otherwise. The administrator
  can always lift the pause by signing for it, and doing so changes nothing but the pause flag,
  the instance's expiration and the event log.\<close>

theorem pause_stops_value:
  assumes "i_paused s = Some True"
  shows "(pausable c \<longrightarrow> exec env c s = (if decodes c \<and> signed env c then Err ContractPausedError else Panic))
    \<and> (\<forall>a. i_admin s = Some a \<longrightarrow> authorized env a \<longrightarrow> (\<exists>l. unpause env a s =
         Ok ((), s\<lparr>i_live_until := l, i_paused := Some False, events := events s @ [ContractUnpaused a]\<rparr>)))"
proof
  note guards = stake_def unstake_def create_escrow_def init_escrow_def release_milestone_tranche_def
    raise_dispute_def commit_vote_def reveal_vote_def resolve_dispute_def
  show "pausable c \<longrightarrow> exec env c s = (if decodes c \<and> signed env c then Err ContractPausedError else Panic)"
    by (cases c) (simp_all add: exec_def signed_def guards Let_def paused_guard [OF assms] require_auth_def state_of_def)
  show "\<forall>a. i_admin s = Some a \<longrightarrow> authorized env a \<longrightarrow> (\<exists>l. unpause env a s =
         Ok ((), s\<lparr>i_live_until := l, i_paused := Some False, events := events s @ [ContractUnpaused a]\<rparr>))"
    using assms by (auto simp: unpause_Ok is_paused_def storage_defs)
qed

theorem pause_stops_value_witness:
  "\<exists>s. pause (mock_host escrow_contract [owner] 150) owner (snd (at tranches)) = Ok ((), s)
     \<and> exec (mock_host escrow_contract [alice] 250) (Call_release_milestone_tranche 1 1 5 alice) s
         = Err ContractPausedError
     \<and> exec (mock_host escrow_contract [bob] 250) (Call_release_milestone_tranche 1 1 5 alice) s = Panic"
proof -
  let ?s = "snd (at tranches)"
  let ?p = "pause (mock_host escrow_contract [owner] 150) owner ?s"
  let ?x = "Call_release_milestone_tranche 1 1 5 alice"
  have "case ?p of Ok (u, s) \<Rightarrow> i_paused s = Some True | _ \<Rightarrow> False" by code_simp
  then obtain s where s: "?p = Ok ((), s)" "i_paused s = Some True"
    by (cases ?p) (auto split: prod.splits)
  have "decodes ?x" "signed (mock_host escrow_contract [alice] 250) ?x" "\<not> signed (mock_host escrow_contract [bob] 250) ?x"
    by (simp_all add: in_i128_def signed_def cast_defs)
  with pause_stops_value [OF s(2), of ?x] s(1) show ?thesis by simp
qed

section \<open>Authority\<close>

text \<open>C18. Settings belong to the administrator: in every state that a contract initialised once
  can reach, a call (other than a second initialisation) that changes the fee, the treasury or the pauser, or that lifts a pause, is authorised by the
  administrator; one that imposes a pause by the administrator or the pauser; and no call
  changes the administrator, the token or the slash rate.\<close>

theorem settings_authority:
  assumes "exec env c s = Ok s'" and "\<not> reinitializes c" and "tf_reachable tb cc (now, s)"
  shows "((i_fee_bps s' \<noteq> i_fee_bps s \<or> i_treasury s' \<noteq> i_treasury s \<or> i_pauser s' \<noteq> i_pauser s
           \<or> (is_paused s \<and> \<not> is_paused s')) \<longrightarrow> (\<exists>a. i_admin s = Some a \<and> authorized env a))
    \<and> (\<not> is_paused s \<and> is_paused s' \<longrightarrow>
         (\<exists>a. (i_admin s = Some a \<or> i_pauser s = Some a) \<and> authorized env a))
    \<and> i_admin s' = i_admin s \<and> i_token s' = i_token s \<and> i_slash_bps s' = i_slash_bps s"
    (is ?P)
proof -
  let ?same = "i_fee_bps s' = i_fee_bps s \<and> i_treasury s' = i_treasury s \<and> i_pauser s' = i_pauser s
    \<and> i_paused s' = i_paused s \<and> i_admin s' = i_admin s \<and> i_token s' = i_token s \<and> i_slash_bps s' = i_slash_bps s"
  have same: ?P if ?same using that by (simp add: is_paused_def)
  have quiet: "state_of (stake env j amt s) = Ok s' \<Longrightarrow> ?P" "state_of (unstake env j amt s) = Ok s' \<Longrightarrow> ?P"
    "state_of (bump_juror_stake_ttl env j s) = Ok s' \<Longrightarrow> ?P" "state_of (create_escrow env d b amt s) = Ok s' \<Longrightarrow> ?P"
    "state_of (init_escrow env d b ms s) = Ok s' \<Longrightarrow> ?P" "state_of (raise_dispute env i a rs s) = Ok s' \<Longrightarrow> ?P"
    "state_of (release_milestone_tranche env i k g a s) = Ok s' \<Longrightarrow> ?P"
    "state_of (commit_vote env i a cm s) = Ok s' \<Longrightarrow> ?P" "state_of (reveal_vote env i a v sl s) = Ok s' \<Longrightarrow> ?P"
    "state_of (bump_escrow_ttl env i s) = Ok s' \<Longrightarrow> ?P" for j amt d b i ms a rs k g cm v sl
    by (rule same; auto simp: state_of_Ok elim!: stake_Ok unstake_Ok bump_juror_stake_ttl_Ok create_escrow_Ok
        dest!: init_escrow_Ok raise_dispute_Ok release_Ok commit_vote_Ok reveal_vote_Ok bump_escrow_ttl_Ok)+
  have resolve: "state_of (resolve_dispute env i s) = Ok s' \<Longrightarrow> ?P" for i
    by (rule same, unfold state_of_Ok, erule exE, drule resolve_dispute_Ok [OF _ distinct_voters [OF reachable_parts(4) [OF assms(3)]]],
        elim exE conjE, hypsubst) simp
  have admin: "state_of (set_fee_bps env a n s) = Ok s' \<Longrightarrow> ?P" "state_of (set_treasury env a b s) = Ok s' \<Longrightarrow> ?P"
    "state_of (set_pauser env a b s) = Ok s' \<Longrightarrow> ?P" "state_of (revoke_pauser env a s) = Ok s' \<Longrightarrow> ?P"
    "state_of (pause env a s) = Ok s' \<Longrightarrow> ?P" "state_of (unpause env a s) = Ok s' \<Longrightarrow> ?P" for a b n
    by (auto simp: state_of_Ok admin_Ok storage_defs is_paused_def split: if_splits)
  from assms(1) have disp: "dispatch env c s = Ok s'" by (simp add: exec_def split: if_splits)
  show ?P
    by (insert disp assms(2), cases c; simp only: dispatch.simps reinitializes.simps simp_thms;
        erule admin quiet resolve)
qed

theorem settings_authority_witness:
  "\<exists>s'. exec (mock_host escrow_contract [owner] 150) (Call_set_fee_bps owner 20) (snd (at tranches)) = Ok s'
     \<and> (\<exists>a. i_admin (snd (at tranches)) = Some a \<and> authorized (mock_host escrow_contract [owner] 150) a)"
proof -
  let ?e = "exec (mock_host escrow_contract [owner] 150) (Call_set_fee_bps owner 20) (snd (at tranches))"
  have "case ?e of Ok s' \<Rightarrow> i_fee_bps s' \<noteq> i_fee_bps (snd (at tranches)) | _ \<Rightarrow> False" by code_simp
  then obtain s' where s': "?e = Ok s'" "i_fee_bps s' \<noteq> i_fee_bps (snd (at tranches))"
    by (auto split: outcome.splits)
  from settings_authority [OF s'(1) _ at_reachable_pair] s' show ?thesis by simp
qed

text \<open>C16. An escrow's funds move by its depositor or by a ruling: in every state that a contract
  initialised once can reach, a call (other than a second \<open>initialize\<close>) that raises the released
  total is a release by the depositor of that active escrow, and a call that settles an
  escrow is such a release or the resolution of its dispute.\<close>

theorem escrow_authority:
  assumes "exec env c s = Ok s'" and "\<not> reinitializes c" and "tf_reachable tb cc (now, s)" and "p_escrow s i = Some e"
  shows "(released i s' \<noteq> released i s \<longrightarrow> (\<exists>k g. c = Call_release_milestone_tranche i k g (e_depositor e)
           \<and> authorized env (e_depositor e) \<and> e_status e = Active))
    \<and> (e_status e \<noteq> Settled \<and> (\<exists>e'. p_escrow s' i = Some e' \<and> e_status e' = Settled) \<longrightarrow>
         c = Call_resolve_dispute i \<or> (\<exists>k g. c = Call_release_milestone_tranche i k g (e_depositor e)
           \<and> authorized env (e_depositor e)))"
    (is "?P c")
proof -
  let ?same = "released i s' = released i s \<and> p_escrow s' i = p_escrow s i"
  have same: "?P x" if ?same for x using that assms(4) by auto
  have fresh: "checked_add_word (escrow_count s) 1 = Some x \<Longrightarrow> x \<noteq> i" for x
    using fresh_escrow(1) [OF reachable_parts(3) [OF assms(3)], of x] assms(4) by auto
  have quiet: "state_of (stake env j amt s) = Ok s' \<Longrightarrow> ?P y" "state_of (unstake env j amt s) = Ok s' \<Longrightarrow> ?P y"
    "state_of (bump_juror_stake_ttl env j s) = Ok s' \<Longrightarrow> ?P y" "state_of (create_escrow env d b amt s) = Ok s' \<Longrightarrow> ?P y"
    "state_of (init_escrow env d b ms s) = Ok s' \<Longrightarrow> ?P y"
    "state_of (commit_vote env x a cm s) = Ok s' \<Longrightarrow> ?P y" "state_of (reveal_vote env x a v sl s) = Ok s' \<Longrightarrow> ?P y"
    "state_of (bump_escrow_ttl env x s) = Ok s' \<Longrightarrow> ?P y" for j amt d b ms x a cm v sl y
    by (rule same; auto simp: state_of_Ok released_def elim!: stake_Ok unstake_Ok bump_juror_stake_ttl_Ok
        create_escrow_Ok dest!: init_escrow_Ok commit_vote_Ok reveal_vote_Ok bump_escrow_ttl_Ok dest: fresh)+
  have admin: "state_of (set_fee_bps env a n s) = Ok s' \<Longrightarrow> ?P y" "state_of (set_treasury env a b s) = Ok s' \<Longrightarrow> ?P y"
    "state_of (set_pauser env a b s) = Ok s' \<Longrightarrow> ?P y" "state_of (revoke_pauser env a s) = Ok s' \<Longrightarrow> ?P y"
    "state_of (pause env a s) = Ok s' \<Longrightarrow> ?P y" "state_of (unpause env a s) = Ok s' \<Longrightarrow> ?P y" for a b n y
    by (rule same; auto simp: state_of_Ok admin_Ok storage_defs released_def)+
  have release: "state_of (release_milestone_tranche env x k g a s) = Ok s' \<Longrightarrow>
      ?P (Call_release_milestone_tranche x k g a)" for x k g a
    using assms(4) by (cases "x = i") (auto simp: state_of_Ok released_def dest!: release_Ok)
  have raised: "state_of (raise_dispute env x a rs s) = Ok s' \<Longrightarrow> ?P y" for x a rs y
    using assms(4) by (cases "x = i") (auto simp: state_of_Ok released_def dest!: raise_dispute_Ok)
  have resolve: "state_of (resolve_dispute env x s) = Ok s' \<Longrightarrow> ?P (Call_resolve_dispute x)" for x
    using assms(4) resolve_dispute_keeps_terms [OF _ distinct_voters [OF reachable_parts(4) [OF assms(3)], of x], of env _ s']
    by (cases "x = i") (force simp: state_of_Ok released_def)+
  from assms(1) have disp: "dispatch env c s = Ok s'" by (simp add: exec_def split: if_splits)
  show "?P c"
    by (insert disp assms(2), cases c; simp only: dispatch.simps reinitializes.simps simp_thms;
        erule admin quiet raised release resolve)
qed

theorem escrow_authority_witness:
  "\<exists>s'. exec (mock_host escrow_contract [alice] 250) (Call_release_milestone_tranche 1 1 600000 alice)
       (snd (at tranches)) = Ok s' \<and> released 1 s' \<noteq> released 1 (snd (at tranches))
     \<and> authorized (mock_host escrow_contract [alice] 250) alice"
proof -
  let ?s = "snd (at tranches)"
  let ?c = "Call_release_milestone_tranche 1 1 600000 alice" and ?env = "mock_host escrow_contract [alice] 250"
  have "case exec ?env ?c ?s of Ok s' \<Rightarrow> released 1 s' \<noteq> released 1 ?s | _ \<Rightarrow> False" by code_simp
  then obtain s' where s': "exec ?env ?c ?s = Ok s'" "released 1 s' \<noteq> released 1 ?s"
    by (auto split: outcome.splits)
  have "case at tranches of (n, s) \<Rightarrow> map_option e_depositor (p_escrow s 1) = Some alice" by code_simp
  then obtain e where "p_escrow ?s 1 = Some e" by (auto split: prod.splits)
  from escrow_authority [OF s'(1) _ at_reachable_pair this] s' show ?thesis by auto
qed

text \<open>C17. A stake shrinks only by its juror or by a ruling: in every state that a contract initialised
  once can reach, a call (other than a second \<open>initialize\<close>) that lowers a juror's stake is
  that juror's own withdrawal, or the resolution of a dispute in which the juror revealed a
  vote against the majority.\<close>

theorem stake_authority:
  assumes "tf_reachable tb cc (now, s)" and "exec env c s = Ok s'" and "\<not> reinitializes c"
    and less: "get_stake j s' < get_stake j s"
  shows "(\<exists>amount. c = Call_unstake j amount \<and> authorized env j)
    \<or> (\<exists>i. c = Call_resolve_dispute i \<and> j \<in> set (voters_of s i) \<and> vote_of s i j \<noteq> majority_for_depositor s i)"
    (is "?P c")
proof -
  note inv = reachable_parts [OF assms(1)]
  have same: "?P y" if "p_juror_stake s' = p_juror_stake s" for y
    using that less by (simp add: get_stake_def)
  have quiet: "state_of (bump_juror_stake_ttl env a s) = Ok s' \<Longrightarrow> ?P y"
    "state_of (create_escrow env d b amt s) = Ok s' \<Longrightarrow> ?P y"
    "state_of (init_escrow env d b ms s) = Ok s' \<Longrightarrow> ?P y"
    "state_of (release_milestone_tranche env x k g a s) = Ok s' \<Longrightarrow> ?P y"
    "state_of (raise_dispute env x a rs s) = Ok s' \<Longrightarrow> ?P y"
    "state_of (commit_vote env x a cm s) = Ok s' \<Longrightarrow> ?P y" "state_of (reveal_vote env x a v sl s) = Ok s' \<Longrightarrow> ?P y"
    "state_of (bump_escrow_ttl env x s) = Ok s' \<Longrightarrow> ?P y" for amt d b ms x a cm v sl k g rs y
    by (rule same; auto simp: state_of_Ok elim!: bump_juror_stake_ttl_Ok create_escrow_Ok
        dest!: init_escrow_Ok release_Ok raise_dispute_Ok commit_vote_Ok reveal_vote_Ok bump_escrow_ttl_Ok)+
  have admin: "state_of (set_fee_bps env a n s) = Ok s' \<Longrightarrow> ?P y" "state_of (set_treasury env a b s) = Ok s' \<Longrightarrow> ?P y"
    "state_of (set_pauser env a b s) = Ok s' \<Longrightarrow> ?P y" "state_of (revoke_pauser env a s) = Ok s' \<Longrightarrow> ?P y"
    "state_of (pause env a s) = Ok s' \<Longrightarrow> ?P y" "state_of (unpause env a s) = Ok s' \<Longrightarrow> ?P y" for a b n y
    by (rule same; auto simp: state_of_Ok admin_Ok storage_defs)+
  have staked: "state_of (stake env a amt s) = Ok s' \<Longrightarrow> ?P y"
    "state_of (unstake env a amt s) = Ok s' \<Longrightarrow> ?P (Call_unstake a amt)" for a amt y
    using less by (auto simp: state_of_Ok get_stake_def elim!: stake_Ok unstake_Ok split: if_splits)
  have resolve: "?P (Call_resolve_dispute i)" if res: "state_of (resolve_dispute env i s) = Ok s'" for i
  proof -
    from res obtain r where run: "resolve_dispute env i s = Ok (r, s')" by (auto simp: state_of_Ok)
    from resolve_dispute_Ok [OF run distinct_voters [OF inv(4)]] have "r = majority_for_depositor s i"
      and "get_stake j s' = get_stake j s
        - (if j \<in> set (voters_of s i) then slashed s i r (slash_rate s) j else 0)"
      by (auto simp: get_stake_def)
    with less show ?thesis by (auto simp: slashed_def split: if_splits)
  qed
  from assms(2) have disp: "dispatch env c s = Ok s'" by (simp add: exec_def split: if_splits)
  show "?P c"
    by (insert disp assms(3), cases c; simp only: dispatch.simps reinitializes.simps not_True_eq_False
          not_False_eq_True; erule admin quiet staked resolve)
qed

theorem stake_authority_witness:
  "\<exists>s'. exec (mock_host escrow_contract [] 40000) (Call_resolve_dispute 1) (snd (at votes_revealed)) = Ok s'
     \<and> get_stake juror3 s' < get_stake juror3 (snd (at votes_revealed))
     \<and> vote_of (snd (at votes_revealed)) 1 juror3 \<noteq> majority_for_depositor (snd (at votes_revealed)) 1"
proof -
  let ?s = "snd (at votes_revealed)" and ?env = "mock_host escrow_contract [] 40000"
  have "case exec ?env (Call_resolve_dispute 1) ?s of Ok s' \<Rightarrow> get_stake juror3 s' < get_stake juror3 ?s | _ \<Rightarrow> False"
    by code_simp
  then obtain s' where s': "exec ?env (Call_resolve_dispute 1) ?s = Ok s'" "get_stake juror3 s' < get_stake juror3 ?s"
    by (auto split: outcome.splits)
  from stake_authority [OF at_reachable_pair s'(1) _ s'(2)] s' show ?thesis by auto
qed

section \<open>A second initialisation\<close>

text \<open>C24. Initialisation is not protected against being run again: on any state of the contract,
  whoever signs for the new administrator takes the contract over, with a token of their
  choice, and the escrow counter restarts, so that the next escrow overwrites the first one.\<close>

theorem reinitialisation_takes_over:
  assumes "authorized env mallory" and "bps \<le> 10000"
  shows "\<exists>t. exec env (Call_initialize mallory token bps) s = Ok t \<and> i_admin t = Some mallory
    \<and> i_token t = Some token \<and> i_treasury t = Some mallory \<and> escrow_count t = 0 \<and> p_escrow t = p_escrow s
    \<and> (\<forall>env' d b amount i u. create_escrow env' d b amount t = Ok (i, u) \<longrightarrow>
         i = 1 \<and> (\<exists>e. p_escrow u 1 = Some e \<and> e_depositor e = d \<and> e_amount e = amount))"
proof -
  obtain t where t: "initialize env mallory token bps s = Ok ((), t)"
    using assms by (simp add: initialize_Ok)
  then have fields: "i_admin t = Some mallory" "i_token t = Some token" "i_treasury t = Some mallory"
    "i_escrow_counter t = Some 0" "p_escrow t = p_escrow s"
    by (simp_all add: initialize_Ok storage_defs)
  have "i = 1 \<and> (\<exists>e. p_escrow u 1 = Some e \<and> e_depositor e = d \<and> e_amount e = amount)"
    if "create_escrow env' d b amount t = Ok (i, u)" for env' :: "'a env" and d b amount i u
    using that by (rule create_escrow_Ok) (auto simp: escrow_count_def fields checked_add_word_def)
  with t fields show ?thesis by (auto simp: exec_def state_of_def escrow_count_def)
qed

theorem reinitialisation_takes_over_witness:
  "\<exists>t. exec (mock_host escrow_contract [juror3] 150) (Call_initialize juror3 usdc 0) (snd (at tranches)) = Ok t
     \<and> i_admin t = Some juror3 \<and> escrow_count t = 0 \<and> p_escrow t = p_escrow (snd (at tranches))"
proof -
  have "authorized (mock_host escrow_contract [juror3] 150) juror3" by (simp add: cast_defs)
  from reinitialisation_takes_over [OF this, of 0 usdc "snd (at tranches)"] show ?thesis by auto
qed

end
