(* ===== verification/TrustFlow_Calls.thy ===== *)
theory TrustFlow_Calls
  imports TrustFlow_Properties
begin

text \<open>
  What single calls compute: the fee and the slash to the unit, a new escrow and its deposit,
  the error a rejected release reports, and what the escrow keeper's call extends.
\<close>

section \<open>Arithmetic\<close>

text \<open>C20. The fee function is exact: on a non-negative amount the overflow-safe split computes
  \<open>floor (amount * fee_bps / 10_000)\<close> of the unbounded product, and reports an error exactly
  when that value itself is not an \<open>i128\<close>; at a rate of at most 100 percent it never fails.\<close>

theorem cumulative_fee_exact:
  assumes "0 \<le> amount"
  shows "cumulative_fee amount bps =
      (let fee = amount * uint bps div 10000 in if in_i128 fee then Ok fee else Err InvalidAmount)
    \<and> (in_i128 amount \<and> bps \<le> 10000 \<longrightarrow> cumulative_fee amount bps = Ok (amount * uint bps div 10000))"
  using cumulative_fee_eq [OF assms] cumulative_fee_total [OF assms]
  by (simp add: exact_fee_def Let_def word_le_def)

theorem cumulative_fee_exact_witness:
  "cumulative_fee (2 ^ 127 - 1) 1000 = Ok ((2 ^ 127 - 1) * 1000 div 10000)"
  using cumulative_fee_exact [of "2 ^ 127 - 1" 1000] by (simp add: in_i128_def)

text \<open>C21. The slash amount: a juror never loses more than the stake, and loses the exact share
  whenever the product of stake and rate fits 128 bits; past that bound (a stake above
  \<open>2 ^ 128 / 10_000\<close>) the division comes first and the slash falls short by at most the
  number of basis points.\<close>

theorem slash_amount_exact:
  assumes "0 \<le> st" and "in_i128 st" and "bps \<le> 10000"
  shows "0 \<le> slash_amount st bps \<and> slash_amount st bps \<le> st
    \<and> (st * uint bps < 2 ^ 128 \<longrightarrow> slash_amount st bps = st * uint bps div 10000)
    \<and> st * uint bps div 10000 - uint bps \<le> slash_amount st bps
    \<and> slash_amount st bps \<le> st * uint bps div 10000"
proof -
  have bps: "uint bps \<le> 10000" using assms(3) by (simp add: word_le_def)
  show ?thesis
    using slash_amount_bounds [OF assms(1,2) bps] slash_amount_eq [OF assms(1,2) bps]
    by (simp add: exact_fee_def)
qed

theorem slash_amount_exact_witness:
  "slash_amount 2005 1000 = 200 \<and> slash_amount (2 ^ 127 - 1) 9999 \<le> (2 ^ 127 - 1) * 9999 div 10000"
  using slash_amount_exact [of 2005 1000] slash_amount_exact [of "2 ^ 127 - 1" 9999]
  by (simp add: in_i128_def)

section \<open>A new escrow\<close>

text \<open>Which lists of milestones the loop accepts, and how it rejects the others.\<close>

definition acceptable :: "milestone list \<Rightarrow> bool" where
  "acceptable ms \<longleftrightarrow> ms \<noteq> [] \<and> (\<forall>m\<in>set ms. 0 < m_amount m) \<and> in_i128 (\<Sum>m\<leftarrow>ms. m_amount m)"

lemma milestones_total_accepts:
  "\<forall>m\<in>set ms. 0 < m_amount m \<Longrightarrow> 0 \<le> t \<Longrightarrow> in_i128 (t + (\<Sum>m\<leftarrow>ms. m_amount m)) \<Longrightarrow>
     milestones_total ms t = Ok (t + (\<Sum>m\<leftarrow>ms. m_amount m))"
proof (induction ms arbitrary: t)
  case Nil
  then show ?case by simp
next
  case (Cons m ms)
  have rest: "0 \<le> (\<Sum>m\<leftarrow>ms. m_amount m)" using Cons.prems(1) by (intro sum_list_nonneg) auto
  have "in_i128 (t + m_amount m)" by (rule in_i128_mono [OF Cons.prems(3)]) (use Cons.prems rest in auto)
  with Cons.IH [of "t + m_amount m"] Cons.prems show ?case
    by (simp add: checked_add_def outcome_run add.assoc not_le)
qed

lemma milestones_total_results:
  "milestones_total ms t \<noteq> Panic \<and> (milestones_total ms t = Err e \<longrightarrow> e \<in> {InvalidAmount, ArithmeticOverflow})"
proof (induction ms arbitrary: t)
  case Nil
  then show ?case by simp
next
  case (Cons m ms)
  then show ?case by (cases "checked_add t (m_amount m)") (auto simp: outcome_run)
qed

lemma milestones_accepted:
  "(\<exists>tot. milestones_total ms 0 = Ok tot \<and> 0 < tot) \<longleftrightarrow> acceptable ms"
proof
  assume "\<exists>tot. milestones_total ms 0 = Ok tot \<and> 0 < tot"
  then obtain tot where "milestones_total ms 0 = Ok tot" "0 < tot" by blast
  with milestones_total_Ok [OF this(1)] show "acceptable ms" by (cases "ms = []") (auto simp: acceptable_def)
next
  assume ok: "acceptable ms"
  then have "0 < (\<Sum>m\<leftarrow>ms. m_amount m)"
    by (cases ms) (auto simp: acceptable_def less_imp_le intro!: add_pos_nonneg sum_list_nonneg)
  with milestones_total_accepts [of ms 0] ok show "\<exists>tot. milestones_total ms 0 = Ok tot \<and> 0 < tot"
    by (auto simp: acceptable_def)
qed

text \<open>What the creation of such an escrow does.\<close>

lemma init_escrow_effect:
  assumes "tf_reachable tb cc (now, s)" and "hosted env tb cc"
    and run: "init_escrow env d b ms s = Ok (i, s')"
  shows "\<exists>token tr. let amount = (\<Sum>m\<leftarrow>ms. m_amount m) in
      authorized env d \<and> (\<forall>m\<in>set ms. 0 < m_amount m) \<and> 0 < amount \<and> in_i128 amount
    \<and> p_escrow s i = None \<and> uint i = uint (escrow_count s) + 1 \<and> escrow_count s' = i
    \<and> p_escrow s' = (p_escrow s)(i \<mapsto> \<lparr>e_id = i, e_depositor = d, e_beneficiary = b,
          e_amount = amount, e_status = Active, e_milestones = ms\<rparr>)
    \<and> i_treasury s = Some tr
    \<and> p_escrow_fee_config s' i = Some \<lparr>f_treasury = tr, f_fee_bps = get_fee_bps s\<rparr>
    \<and> i_token s = Some token
    \<and> (\<forall>a. tb token a (world s') = tb token a (world s)
         - (if a = d then amount else 0) + (if a = cc then amount else 0))"
proof -
  from init_escrow_Ok [OF run] obtain amount token w treasury il lu where
      tot: "milestones_total ms 0 = Ok amount" and pos: "0 < amount" and auth: "authorized env d"
    and token: "i_token s = Some token" and tr: "i_treasury s = Some treasury"
    and pay: "token_transfer env token d (current_contract_address env) amount (world s) = Some w"
    and next_id: "checked_add_word (escrow_count s) 1 = Some i"
    and s': "s' = s\<lparr>i_live_until := il, world := w, i_escrow_counter := Some i,
           p_escrow := (p_escrow s)(i \<mapsto> \<lparr>e_id = i, e_depositor = d, e_beneficiary = b,
              e_amount = amount, e_status = Active, e_milestones = ms\<rparr>),
           p_escrow_fee_config := (p_escrow_fee_config s)(i \<mapsto> \<lparr>f_treasury = treasury, f_fee_bps = get_fee_bps s\<rparr>),
           p_live_until := lu, events := events s @ [EscrowInitialized i d b amount]\<rparr>" by blast
  have ms: "amount = (\<Sum>m\<leftarrow>ms. m_amount m)" "\<forall>m\<in>set ms. 0 < m_amount m" "in_i128 amount"
    using milestones_total_Ok [OF tot] pos by (cases "ms = []"; simp)+
  have moved: "tb token a w = tb token a (world s) - (if a = d then amount else 0) + (if a = cc then amount else 0)" for a
    using token_client.transfer_moves [OF hosted.axioms(1) [OF assms(2)] pay, of a] hosted.runs_at [OF assms(2)]
    by simp
  show ?thesis
    using fresh_escrow(1) [OF reachable_parts(3) [OF assms(1)] next_id] checked_add_word_one [OF next_id]
      ms pos auth token tr moved
    by (simp add: s' escrow_count_def Let_def)
qed

lemma init_escrow_succeeds:
  assumes inv: "settings_inv s" and cc: "current_contract_address env = cc"
    and auth: "authorized env d" and paused: "i_paused s \<noteq> Some True" and ms: "acceptable ms"
    and pay: "i_token s = Some token" "token_transfer env token d cc (\<Sum>m\<leftarrow>ms. m_amount m) (world s) = Some w"
    and counter: "uint (escrow_count s) + 1 < 2 ^ 64"
  shows "\<exists>i s'. init_escrow env d b ms s = Ok (i, s')"
proof -
  from ms milestones_accepted [of ms] obtain tot where tot: "milestones_total ms 0 = Ok tot" "0 < tot" by blast
  with milestones_total_Ok [OF tot(1)] have eq: "tot = (\<Sum>m\<leftarrow>ms. m_amount m)" by simp
  from inv obtain tr where tr: "i_treasury s = Some tr" by (auto simp: settings_inv_def)
  have "checked_add_word (escrow_count s) 1 = Some (escrow_count s + 1)"
    using counter by (simp add: checked_add_word_def)
  with tot pay tr auth paused show ?thesis
    unfolding eq by (simp add: init_escrow_def snapshot_fee_config_def Let_def outcome_run cc storage_defs escrow_count_def)
qed

lemma init_escrow_rejects:
  assumes "authorized env d" and "i_paused s \<noteq> Some True" and "\<not> acceptable ms"
  shows "init_escrow env d b ms s \<in> {Err InvalidAmount, Err ArithmeticOverflow}"
proof (cases "milestones_total ms 0")
  case (Ok tot)
  with assms(3) milestones_accepted [of ms] have "tot \<le> 0" by (auto simp: not_less)
  with Ok assms(1,2) show ?thesis
    by (simp add: init_escrow_def Let_def outcome_run extend_instance_ttl_def)
next
  case (Err e)
  with milestones_total_results [of ms 0 e] assms(1,2) show ?thesis
    by (auto simp: init_escrow_def Let_def outcome_run extend_instance_ttl_def)
qed (use milestones_total_results [of ms 0] in simp)

text \<open>C15. A new escrow with milestones, in a state that a contract initialised once can reach: the
  call succeeds exactly when the depositor signed, the contract is not paused, the list is not
  empty, every amount is positive and their sum fits an \<open>i128\<close>, the token transfers that sum,
  and the counter is not at its limit; any other list is rejected with \<open>InvalidAmount\<close> or
  \<open>ArithmeticOverflow\<close>. The escrow gets a number nobody had, holds the sum of its milestones
  and the current fee settings as its snapshot, and the depositor pays exactly that sum to
  the contract.\<close>

theorem init_escrow_spec:
  assumes "tf_reachable tb cc (now, s)" and "hosted env tb cc"
  shows "((\<exists>i s'. init_escrow env d b ms s = Ok (i, s')) \<longleftrightarrow>
      authorized env d \<and> i_paused s \<noteq> Some True \<and> acceptable ms \<and> uint (escrow_count s) + 1 < 2 ^ 64
    \<and> (\<exists>token w. i_token s = Some token
         \<and> token_transfer env token d cc (\<Sum>m\<leftarrow>ms. m_amount m) (world s) = Some w))
    \<and> (authorized env d \<and> i_paused s \<noteq> Some True \<and> \<not> acceptable ms \<longrightarrow>
         init_escrow env d b ms s \<in> {Err InvalidAmount, Err ArithmeticOverflow})
    \<and> (\<forall>i s'. init_escrow env d b ms s = Ok (i, s') \<longrightarrow> (\<exists>token tr. let amount = (\<Sum>m\<leftarrow>ms. m_amount m) in
         p_escrow s i = None \<and> uint i = uint (escrow_count s) + 1 \<and> escrow_count s' = i
       \<and> p_escrow s' = (p_escrow s)(i \<mapsto> \<lparr>e_id = i, e_depositor = d, e_beneficiary = b,
             e_amount = amount, e_status = Active, e_milestones = ms\<rparr>)
       \<and> i_treasury s = Some tr
       \<and> p_escrow_fee_config s' i = Some \<lparr>f_treasury = tr, f_fee_bps = get_fee_bps s\<rparr>
       \<and> i_token s = Some token
       \<and> (\<forall>a. tb token a (world s') = tb token a (world s)
            - (if a = d then amount else 0) + (if a = cc then amount else 0))))"
proof (intro conjI impI allI iffI)
  assume "\<exists>i s'. init_escrow env d b ms s = Ok (i, s')"
  then obtain i s' where run: "init_escrow env d b ms s = Ok (i, s')" by blast
  from init_escrow_Ok [OF run] milestones_accepted [of ms] checked_add_word_one [of "escrow_count s" i]
  obtain tot token w where *: "authorized env d" "i_paused s \<noteq> Some True" "acceptable ms" "i_token s = Some token"
    "milestones_total ms 0 = Ok tot" "token_transfer env token d (current_contract_address env) tot (world s) = Some w"
    "uint i = uint (escrow_count s) + 1" by blast
  with milestones_total_Ok [OF *(5)] hosted.runs_at [OF assms(2)] uint_lt2p [of i]
  show "authorized env d" "i_paused s \<noteq> Some True" "acceptable ms" "uint (escrow_count s) + 1 < 2 ^ 64"
    "\<exists>token w. i_token s = Some token
       \<and> token_transfer env token d cc (\<Sum>m\<leftarrow>ms. m_amount m) (world s) = Some w" by auto
qed (use init_escrow_succeeds [OF reachable_parts(1) [OF assms(1)] hosted.runs_at [OF assms(2)]]
    init_escrow_rejects init_escrow_effect [OF assms] in \<open>blast | (fastforce simp: Let_def)\<close>)+

definition sample_init :: "(u64, mock_world) result" where
  "sample_init = init_escrow (mock_host escrow_contract [alice] 120) alice bob alices_milestones
     (snd (at (take 2 tranches)))"

theorem init_escrow_spec_witness:
  "(\<exists>i s'. sample_init = Ok (i, s') \<and> p_escrow (snd (at (take 2 tranches))) i = None \<and> escrow_count s' = i)
   \<and> init_escrow (mock_host escrow_contract [alice] 120) alice bob [] (snd (at (take 2 tranches)))
       \<in> {Err InvalidAmount, Err ArithmeticOverflow}"
proof
  note spec = init_escrow_spec [OF at_reachable_pair [of "take 2 tranches"]
    mock_hosted.hosted_axioms [of escrow_contract "[alice]" 120], of alice bob]
  have "is_Ok sample_init" by code_simp
  then obtain i s' where run: "sample_init = Ok (i, s')" by (auto dest: is_Ok_ex)
  with spec [of alices_milestones] show "\<exists>i s'. sample_init = Ok (i, s')
      \<and> p_escrow (snd (at (take 2 tranches))) i = None \<and> escrow_count s' = i"
    unfolding sample_init_def Let_def by blast
  have "authorized (mock_host escrow_contract [alice] 120) alice" by (simp add: cast_defs)
  moreover have "case at (take 2 tranches) of (n, s) \<Rightarrow> i_paused s \<noteq> Some True" by code_simp
  then have "i_paused (snd (at (take 2 tranches))) \<noteq> Some True" by (simp split: prod.splits)
  moreover have "\<not> acceptable []" by (simp add: acceptable_def)
  ultimately show "init_escrow (mock_host escrow_contract [alice] 120) alice bob [] (snd (at (take 2 tranches)))
      \<in> {Err InvalidAmount, Err ArithmeticOverflow}"
    using spec [of "[]"] by blast
qed

section \<open>Rejected releases\<close>

text \<open>C22. What a rejected release reports, in the order of the checks: paused, a non-positive
  amount, an unknown escrow, a caller who is not the depositor, an escrow that is not active,
  an unknown milestone, a milestone before its release time, and more than the milestone or
  the escrow still holds. None of them changes the state.\<close>

theorem release_errors:
  assumes auth: "authorized env caller" and dec: "in_i128 g"
    and out: "out = exec env (Call_release_milestone_tranche i k g caller) s"
  shows "(i_paused s = Some True \<longrightarrow> out = Err ContractPausedError)
    \<and> (i_paused s \<noteq> Some True \<longrightarrow>
        (g \<le> 0 \<longrightarrow> out = Err InvalidAmount)
      \<and> (0 < g \<and> p_escrow s i = None \<longrightarrow> out = Err EscrowNotFound)
      \<and> (\<forall>e. 0 < g \<and> p_escrow s i = Some e \<longrightarrow>
          (caller \<noteq> e_depositor e \<longrightarrow> out = Err Unauthorized)
        \<and> (caller = e_depositor e \<and> e_status e \<noteq> Active \<longrightarrow> out = Err InvalidState)
        \<and> (caller = e_depositor e \<and> e_status e = Active \<and> vec_get (e_milestones e) k = None
            \<longrightarrow> out = Err MilestoneNotFound)
        \<and> (\<forall>m. caller = e_depositor e \<and> e_status e = Active \<and> vec_get (e_milestones e) k = Some m \<longrightarrow>
            (sequence env < m_release_time m \<longrightarrow> out = Err MilestoneTimeLocked)
          \<and> (m_release_time m \<le> sequence env \<and> in_i128 (m_released i k s + g) \<and> m_amount m < m_released i k s + g
              \<longrightarrow> out = Err MilestoneAmountMismatch)
          \<and> (m_release_time m \<le> sequence env \<and> in_i128 (m_released i k s + g) \<and> m_released i k s + g \<le> m_amount m
              \<and> in_i128 (released i s + g) \<and> e_amount e < released i s + g
              \<longrightarrow> out = Err MilestoneAmountMismatch))))"
  using auth dec unfolding out exec_def
  by (auto simp: release_milestone_tranche_def Let_def outcome_run state_of_def extend_instance_ttl_def
      m_released_def released_def checked_add_def)

theorem release_errors_witness:
  "exec (mock_host escrow_contract [bob] 300) (Call_release_milestone_tranche 1 1 5 bob) (snd (at tranches))
     = Err Unauthorized"
proof -
  have "case at tranches of (n, s) \<Rightarrow> map_option e_depositor (p_escrow s 1) = Some alice \<and> i_paused s \<noteq> Some True"
    by code_simp
  then obtain e where "p_escrow (snd (at tranches)) 1 = Some e" "e_depositor e = alice"
    "i_paused (snd (at tranches)) \<noteq> Some True" by (auto split: prod.splits)
  moreover have "authorized (mock_host escrow_contract [bob] 300) bob" "bob \<noteq> alice" by (simp_all add: cast_defs)
  ultimately show ?thesis
    using release_errors [OF _ _ refl, where env = "mock_host escrow_contract [bob] 300"
        and caller = bob and g = 5 and i = 1 and k = 1 and s = "snd (at tranches)"]
    by (simp add: in_i128_def)
qed

section \<open>The keeper's calls\<close>

abbreviation extend_all :: "'w env \<Rightarrow> datakey list \<Rightarrow> 'w trustflow \<Rightarrow> 'w trustflow" where
  "extend_all env keys s \<equiv> fold (extend_persistent_ttl env) keys s"

lemma extend_all_has_key [simp]: "has_key (extend_all env keys s) k = has_key s k"
  by (induction keys arbitrary: s) (simp_all add: extend_persistent_ttl_update)

lemma extend_all_mono:
  assumes "ttl_host (host_bump env)"
  shows "uint (p_live_until s k) \<le> uint (p_live_until (extend_all env keys s) k)"
proof (induction keys arbitrary: s)
  case (Cons key keys)
  from order_trans [OF extend_persistent_ttl_mono [OF assms] Cons.IH] show ?case by simp
qed simp

lemma extend_all_lives:
  assumes "ttl_host (host_bump env)" and "k \<in> set keys" and "has_key s k"
  shows "uint (saturating_add (sequence env) PERSISTENT_LIFETIME_THRESHOLD)
     \<le> uint (p_live_until (extend_all env keys s) k)"
  using assms(2,3)
proof (induction keys arbitrary: s)
  case (Cons key keys)
  show ?case
  proof (cases "key = k")
    case True
    with order_trans [OF extend_persistent_ttl_lives [OF assms(1) Cons.prems(2)] extend_all_mono [OF assms(1)]]
    show ?thesis by simp
  next
    case False
    with Cons show ?thesis by (simp add: extend_persistent_ttl_update)
  qed
qed simp

lemma extend_all_other: "k \<notin> set keys \<Longrightarrow> p_live_until (extend_all env keys s) k = p_live_until s k"
  by (induction keys arbitrary: s) (auto simp: extend_persistent_ttl_def)

lemma extend_milestones_as_fold:
  "extend_milestones_ttl env i n ms s = extend_all env
     (map (\<lambda>j. MilestoneReleased \<lparr>k_escrow_id = i, k_milestone_index = of_nat j\<rparr>) [n..<n + length ms]) s"
proof (induction ms arbitrary: n s)
  case (Cons m ms)
  have "[n..<n + length (m # ms)] = n # [Suc n..<Suc n + length ms]" by (simp add: upt_conv_Cons del: upt_Suc)
  then show ?case by (simp add: Cons.IH)
qed simp

definition kept_keys :: "u64 \<Rightarrow> escrow_record \<Rightarrow> 'w trustflow \<Rightarrow> datakey list" where
  "kept_keys i e s = [Escrow i, EscrowFeeConfig i, EscrowReleased i]
     @ map (\<lambda>j. MilestoneReleased \<lparr>k_escrow_id = i, k_milestone_index = of_nat j\<rparr>) [0..<length (e_milestones e)]
     @ (if has_key s (Dispute i)
        then Dispute i # (if has_key s (DisputeVoters i) then [DisputeVoters i] else []) else [])"

lemma bump_escrow_ttl_as_fold:
  assumes "p_escrow s i = Some e"
  shows "\<exists>t. bump_escrow_ttl env i s = Ok (saturating_add (sequence env) PERSISTENT_BUMP_AMOUNT, t)
    \<and> p_live_until t = p_live_until (extend_all env (kept_keys i e s) (extend_instance_ttl env s))"
proof -
  have hk: "has_key (extend_instance_ttl env s) k = has_key s k" for k
    by (simp add: extend_instance_ttl_def)
  have ext: "has_key (extend_persistent_ttl env k' u) k = has_key u k" for k k' u
    by (simp add: extend_persistent_ttl_update)
  show ?thesis
    using assms unfolding bump_escrow_ttl_def Let_def
    by (simp only: outcome_run extend_milestones_as_fold extend_all_has_key ext hk)
      (simp add: kept_keys_def publish_def del: has_key.simps)
qed

text \<open>The entries of the escrow stay alive.\<close>

lemma keeper_keeps_alive:
  assumes "ttl_host (host_bump env)" and e: "p_escrow s i = Some e"
  shows "\<exists>s' l. bump_escrow_ttl env i s = Ok (l, s')
    \<and> (\<forall>key \<in> {Escrow i, EscrowFeeConfig i, EscrowReleased i, Dispute i, DisputeVoters i}
         \<union> {MilestoneReleased \<lparr>k_escrow_id = i, k_milestone_index = k\<rparr> | k. unat k < length (e_milestones e)}.
       has_key s key \<and> (key = DisputeVoters i \<longrightarrow> has_key s (Dispute i)) \<longrightarrow>
       uint (saturating_add (sequence env) (30 * 17280)) \<le> uint (p_live_until s' key))
    \<and> (\<forall>key. uint (p_live_until s key) \<le> uint (p_live_until s' key))
    \<and> (\<exists>il lu. s' = s\<lparr>i_live_until := il, p_live_until := lu, events := events s @ [EscrowTtlBumped i l]\<rparr>)"
proof -
  from bump_escrow_ttl_as_fold [OF e] obtain t where
      t: "bump_escrow_ttl env i s = Ok (saturating_add (sequence env) PERSISTENT_BUMP_AMOUNT, t)"
    and lu: "p_live_until t = p_live_until (extend_all env (kept_keys i e s) (extend_instance_ttl env s))"
    by blast
  have same: "p_live_until (extend_instance_ttl env s) = p_live_until s"
    "has_key (extend_instance_ttl env s) k = has_key s k" for k by (simp_all add: extend_instance_ttl_def)
  have mem: "MilestoneReleased \<lparr>k_escrow_id = i, k_milestone_index = k\<rparr> \<in> set (kept_keys i e s)"
    if "unat k < length (e_milestones e)" for k
    using that by (auto simp: kept_keys_def image_iff intro!: bexI [of _ "unat k"])
  have "key \<in> set (kept_keys i e s)"
    if "key \<in> {Escrow i, EscrowFeeConfig i, EscrowReleased i, Dispute i, DisputeVoters i}
         \<union> {MilestoneReleased \<lparr>k_escrow_id = i, k_milestone_index = k\<rparr> | k. unat k < length (e_milestones e)}"
      "has_key s key" "key = DisputeVoters i \<longrightarrow> has_key s (Dispute i)" for key
    using that mem by (auto simp: kept_keys_def)
  then have lives: "uint (saturating_add (sequence env) (30 * 17280)) \<le> uint (p_live_until t key)"
    if "key \<in> {Escrow i, EscrowFeeConfig i, EscrowReleased i, Dispute i, DisputeVoters i}
         \<union> {MilestoneReleased \<lparr>k_escrow_id = i, k_milestone_index = k\<rparr> | k. unat k < length (e_milestones e)}"
      "has_key s key" "key = DisputeVoters i \<longrightarrow> has_key s (Dispute i)" for key
    using that extend_all_lives [OF assms(1), of key "kept_keys i e s" "extend_instance_ttl env s"]
    by (simp add: lu same trustflow_constants)
  have "uint (p_live_until s key) \<le> uint (p_live_until t key)" for key
    using extend_all_mono [OF assms(1), of "extend_instance_ttl env s" key] by (simp add: lu same)
  with lives t bump_escrow_ttl_Ok [OF t] show ?thesis by blast
qed

text \<open>An entry that is not due is not extended.\<close>

lemma keeper_overstates_life:
  assumes "ttl_host (host_bump env)" and e: "p_escrow s i = Some e"
    and left: "uint (sequence env) + 30 * 17280 < uint (p_live_until s (Escrow i))"
    and less: "uint (p_live_until s (Escrow i)) < uint (sequence env) + 90 * 17280"
    and room: "uint (sequence env) + 90 * 17280 < 2 ^ 32"
  shows "\<exists>s' l. bump_escrow_ttl env i s = Ok (l, s') \<and> uint l = uint (sequence env) + 90 * 17280
    \<and> p_live_until s' (Escrow i) = p_live_until s (Escrow i) \<and> uint (p_live_until s' (Escrow i)) < uint l"
proof -
  from bump_escrow_ttl_as_fold [OF e] obtain t where
      t: "bump_escrow_ttl env i s = Ok (saturating_add (sequence env) PERSISTENT_BUMP_AMOUNT, t)"
    and lu: "p_live_until t = p_live_until (extend_all env (kept_keys i e s) (extend_instance_ttl env s))"
    by blast
  let ?s0 = "extend_instance_ttl env s"
  have keys: "kept_keys i e s = Escrow i # tl (kept_keys i e s)" "Escrow i \<notin> set (tl (kept_keys i e s))"
    by (auto simp: kept_keys_def)
  have thr: "uint PERSISTENT_LIFETIME_THRESHOLD = 30 * 17280" by (simp add: trustflow_constants)
  have "p_live_until t (Escrow i) = p_live_until (extend_persistent_ttl env (Escrow i) ?s0) (Escrow i)"
    unfolding lu by (subst keys(1)) (simp add: extend_all_other [OF keys(2)])
  also have "\<dots> = p_live_until s (Escrow i)"
    using e ttl_host.bump_not_due [OF assms(1), of "sequence env" PERSISTENT_LIFETIME_THRESHOLD] left
    by (simp add: extend_persistent_ttl_def extend_instance_ttl_def thr)
  finally have "p_live_until t (Escrow i) = p_live_until s (Escrow i)" .
  moreover have "uint (saturating_add (sequence env) PERSISTENT_BUMP_AMOUNT) = uint (sequence env) + 90 * 17280"
    using room by (simp add: uint_saturating_add trustflow_constants)
  ultimately show ?thesis using t less by auto
qed

text \<open>C23. What the keeper's \<open>bump_escrow_ttl\<close> guarantees, and what it only announces: the escrow's
  entry, its fee snapshot, its released totals, its dispute and its voter list live at least
  30 days on, no entry's life is shortened, and nothing else of the contract changes; but the
  ledger it returns and publishes is 90 days on, and an entry that still had between 30 and
  90 days is not extended and expires before that ledger.\<close>

theorem keeper_lifetimes:
  assumes "ttl_host (host_bump env)" and e: "p_escrow s i = Some e"
  shows "\<exists>s' l. bump_escrow_ttl env i s = Ok (l, s')
    \<and> (\<forall>key \<in> {Escrow i, EscrowFeeConfig i, EscrowReleased i, Dispute i, DisputeVoters i}
         \<union> {MilestoneReleased \<lparr>k_escrow_id = i, k_milestone_index = k\<rparr> | k. unat k < length (e_milestones e)}.
       has_key s key \<and> (key = DisputeVoters i \<longrightarrow> has_key s (Dispute i)) \<longrightarrow>
       uint (saturating_add (sequence env) (30 * 17280)) \<le> uint (p_live_until s' key))
    \<and> (\<forall>key. uint (p_live_until s key) \<le> uint (p_live_until s' key))
    \<and> (\<exists>il lu. s' = s\<lparr>i_live_until := il, p_live_until := lu, events := events s @ [EscrowTtlBumped i l]\<rparr>)
    \<and> (uint (sequence env) + 30 * 17280 < uint (p_live_until s (Escrow i))
        \<and> uint (p_live_until s (Escrow i)) < uint (sequence env) + 90 * 17280
        \<and> uint (sequence env) + 90 * 17280 < 2 ^ 32 \<longrightarrow>
        uint l = uint (sequence env) + 90 * 17280 \<and> uint (p_live_until s' (Escrow i)) < uint l)"
proof -
  from keeper_keeps_alive [OF assms] obtain s' l where run: "bump_escrow_ttl env i s = Ok (l, s')" and rest:
    "\<forall>key \<in> {Escrow i, EscrowFeeConfig i, EscrowReleased i, Dispute i, DisputeVoters i}
         \<union> {MilestoneReleased \<lparr>k_escrow_id = i, k_milestone_index = k\<rparr> | k. unat k < length (e_milestones e)}.
       has_key s key \<and> (key = DisputeVoters i \<longrightarrow> has_key s (Dispute i)) \<longrightarrow>
       uint (saturating_add (sequence env) (30 * 17280)) \<le> uint (p_live_until s' key)"
    "\<forall>key. uint (p_live_until s key) \<le> uint (p_live_until s' key)"
    "\<exists>il lu. s' = s\<lparr>i_live_until := il, p_live_until := lu, events := events s @ [EscrowTtlBumped i l]\<rparr>"
    by blast
  have "uint l = uint (sequence env) + 90 * 17280 \<and> uint (p_live_until s' (Escrow i)) < uint l"
    if "uint (sequence env) + 30 * 17280 < uint (p_live_until s (Escrow i))"
      "uint (p_live_until s (Escrow i)) < uint (sequence env) + 90 * 17280"
      "uint (sequence env) + 90 * 17280 < 2 ^ 32"
    using keeper_overstates_life [OF assms that] run by auto
  with run rest show ?thesis by blast
qed

theorem keeper_lifetimes_witness:
  "\<exists>s' l. bump_escrow_ttl (mock_host escrow_contract [] 17280) 1 (snd (at tranches)) = Ok (l, s')
     \<and> uint (p_live_until s' (Escrow 1)) < uint l
     \<and> uint (saturating_add (17280 :: u32) (30 * 17280)) \<le> uint (p_live_until s' (Escrow 1))"
proof -
  let ?s = "snd (at tranches)" and ?env = "mock_host escrow_contract [] 17280"
  have facts: "case at tranches of (n, s) \<Rightarrow> map_option e_amount (p_escrow s 1) = Some 1000000
      \<and> 17280 + 30 * 17280 < uint (p_live_until s (Escrow 1))
      \<and> uint (p_live_until s (Escrow 1)) < 17280 + 90 * 17280" by code_simp
  then obtain e where e: "p_escrow ?s 1 = Some e" by (auto split: prod.splits)
  have "ttl_host (host_bump ?env)" by (simp add: standard.ttl_host_axioms)
  from keeper_lifetimes [OF this e] obtain s' l where run: "bump_escrow_ttl ?env 1 ?s = Ok (l, s')"
    and live: "has_key ?s (Escrow 1) \<longrightarrow>
       uint (saturating_add (sequence ?env) (30 * 17280)) \<le> uint (p_live_until s' (Escrow 1))"
    and over: "uint (sequence ?env) + 30 * 17280 < uint (p_live_until ?s (Escrow 1))
        \<and> uint (p_live_until ?s (Escrow 1)) < uint (sequence ?env) + 90 * 17280
        \<and> uint (sequence ?env) + 90 * 17280 < 2 ^ 32 \<longrightarrow> uint (p_live_until s' (Escrow 1)) < uint l"
    by blast
  have "uint (p_live_until s' (Escrow 1)) < uint l" using over facts by (auto split: prod.splits)
  moreover have "uint (saturating_add (17280 :: u32) (30 * 17280)) \<le> uint (p_live_until s' (Escrow 1))"
    using live e by simp
  ultimately show ?thesis using run by blast
qed

end
