(* ===== verification/TrustFlow_Lifecycle.thy ===== *)
theory TrustFlow_Lifecycle
  imports TrustFlow_Properties
begin

text \<open>
  The life of an escrow as an abstract machine of four transitions, which every call of the
  contract implements, the round trip of an honest juror's vote from commitment to reveal, and
  the well-formedness of every reachable state.
\<close>

section \<open>The abstract escrow\<close>

text \<open>What an escrow is to its parties: a phase and the funds it still holds.\<close>

type_synonym abstract_escrow = "escrow_status \<times> int"

inductive escrow_spec :: "abstract_escrow \<Rightarrow> abstract_escrow \<Rightarrow> bool" where
  release: "0 < g \<Longrightarrow> g < held \<Longrightarrow> escrow_spec (Active, held) (Active, held - g)"
| release_all: "0 < held \<Longrightarrow> escrow_spec (Active, held) (Settled, 0)"
| dispute: "escrow_spec (Active, held) (Disputed, held)"
| ruling: "0 < held \<Longrightarrow> escrow_spec (Disputed, held) (Settled, 0)"

inductive_simps escrow_spec_simps [simp]: "escrow_spec (p, h) (p', h')"

definition escrow_view :: "'w trustflow \<Rightarrow> u64 \<Rightarrow> abstract_escrow option" where
  "escrow_view s i = map_option (\<lambda>e. (e_status e, locked i s)) (p_escrow s i)"

text \<open>How one call changes the view of one escrow: not at all, by a step of the specification, or
  by creating it.\<close>

definition view_step :: "abstract_escrow option \<Rightarrow> abstract_escrow option \<Rightarrow> bool" where
  "view_step v v' \<longleftrightarrow> v' = v \<or> (\<exists>a b. v = Some a \<and> v' = Some b \<and> escrow_spec a b)
     \<or> (v = None \<and> (\<exists>amount>0. v' = Some (Active, amount)))"

lemma view_step_refl [simp]: "view_step v v"
  by (simp add: view_step_def)

lemma view_same:
  "p_escrow s' = p_escrow s \<Longrightarrow> p_escrow_released s' = p_escrow_released s \<Longrightarrow>
     view_step (escrow_view s i) (escrow_view s' i)"
  by (cases "p_escrow s i") (simp_all add: escrow_view_def locked_def released_def)

lemma view_new:
  assumes "escrow_inv s" and "checked_add_word (escrow_count s) 1 = Some n"
    and "p_escrow s' = (p_escrow s)(n \<mapsto> e)" and "p_escrow_released s' = p_escrow_released s"
    and "e_status e = Active" and "0 < e_amount e"
  shows "view_step (escrow_view s i) (escrow_view s' i)"
proof (cases "i = n")
  case True
  from fresh_escrow(1) [OF assms(1,2)] have "p_escrow s n = None" .
  moreover from this assms(1) have "released n s = 0" by (auto simp: escrow_inv_def dest: spec [of _ n])
  then have "released n s' = 0" using assms(4) by (simp add: released_def)
  ultimately show ?thesis using True assms(3,5,6) by (simp add: view_step_def escrow_view_def locked_def)
next
  case False
  then show ?thesis using assms(3,4)
    by (cases "p_escrow s i") (simp_all add: escrow_view_def locked_def released_def)
qed

lemma admin_view:
  "set_fee_bps env caller bps s = Ok (u, s') \<Longrightarrow> view_step (escrow_view s i) (escrow_view s' i)"
  "set_treasury env caller a s = Ok (u, s') \<Longrightarrow> view_step (escrow_view s i) (escrow_view s' i)"
  "set_pauser env caller a s = Ok (u, s') \<Longrightarrow> view_step (escrow_view s i) (escrow_view s' i)"
  "revoke_pauser env caller s = Ok (u, s') \<Longrightarrow> view_step (escrow_view s i) (escrow_view s' i)"
  "pause env caller s = Ok (u, s') \<Longrightarrow> view_step (escrow_view s i) (escrow_view s' i)"
  "unpause env caller s = Ok (u, s') \<Longrightarrow> view_step (escrow_view s i) (escrow_view s' i)"
  by (auto simp: admin_Ok storage_defs intro!: view_same)

lemma other_view:
  "stake env j amount s = Ok (u, s') \<Longrightarrow> view_step (escrow_view s i) (escrow_view s' i)"
  "unstake env j amount s = Ok (u, s') \<Longrightarrow> view_step (escrow_view s i) (escrow_view s' i)"
  "bump_juror_stake_ttl env j s = Ok (l, s') \<Longrightarrow> view_step (escrow_view s i) (escrow_view s' i)"
  "bump_escrow_ttl env k s = Ok (l, s') \<Longrightarrow> view_step (escrow_view s i) (escrow_view s' i)"
  "commit_vote env k j c s = Ok (u, s') \<Longrightarrow> view_step (escrow_view s i) (escrow_view s' i)"
  "reveal_vote env k j v sl s = Ok (u, s') \<Longrightarrow> view_step (escrow_view s i) (escrow_view s' i)"
  by (auto elim!: stake_Ok unstake_Ok bump_juror_stake_ttl_Ok
      dest!: bump_escrow_ttl_Ok commit_vote_Ok reveal_vote_Ok intro!: view_same)

lemma create_view:
  "escrow_inv s \<Longrightarrow> create_escrow env d b amount s = Ok (n, s') \<Longrightarrow> view_step (escrow_view s i) (escrow_view s' i)"
  by (erule create_escrow_Ok, erule view_new, assumption) auto

lemma init_view:
  "escrow_inv s \<Longrightarrow> init_escrow env d b ms s = Ok (n, s') \<Longrightarrow> view_step (escrow_view s i) (escrow_view s' i)"
  by (drule init_escrow_Ok, elim exE conjE, erule view_new, assumption) auto

lemma raise_view:
  "raise_dispute env k a rs s = Ok (u, s') \<Longrightarrow> view_step (escrow_view s i) (escrow_view s' i)"
  by (drule raise_dispute_Ok, cases "p_escrow s i")
    (auto simp: view_step_def escrow_view_def locked_def released_def)

lemma resolve_view:
  assumes "escrow_inv s" and "dispute_inv now s" and run: "resolve_dispute env k s = Ok (r, s')"
  shows "view_step (escrow_view s i) (escrow_view s' i)"
proof -
  from resolve_dispute_keeps_terms [OF run distinct_voters [OF assms(2)]] obtain e where
    e: "p_escrow s k = Some e" "p_escrow s' = (p_escrow s)(k \<mapsto> e\<lparr>e_status := Settled\<rparr>)"
    and rel: "p_escrow_released s' = p_escrow_released s" by blast
  from run obtain d where "p_dispute s k = Some d" "\<not> d_resolved d" by (rule resolve_dispute_steps)
  with dispute_invD [OF assms(2)] e(1) have "e_status e = Disputed" by (force simp: dispute_ok_def)
  moreover from this escrow_invD(1) [OF assms(1) e(1)] have "released k s < e_amount e" by (simp add: escrow_ok_def)
  ultimately show ?thesis
    using e rel by (cases "p_escrow s i"; cases "i = k")
      (simp_all add: view_step_def escrow_view_def locked_def released_def)
qed

lemma release_view:
  assumes "release_milestone_tranche env k m g a s = Ok (u, s')"
  shows "view_step (escrow_view s i) (escrow_view s' i)"
proof -
  from release_Ok [OF assms] obtain e ms where e: "p_escrow s k = Some e" "e_status e = Active" "0 < g"
    "released k s + g \<le> e_amount e"
    "p_escrow s' = (p_escrow s)(k \<mapsto> escrow_after_release e m ms (released k s + g))"
    "p_escrow_released s' = (p_escrow_released s)(k \<mapsto> released k s + g)"
    by (elim exE conjE, hypsubst) simp
  have rel: "released i s' = released i s + (if i = k then g else 0)" by (simp add: released_def e(6))
  show ?thesis
  proof (cases "i = k")
    case True
    show ?thesis
    proof (cases "released k s + g = e_amount e")
      case all: True
      with e rel True show ?thesis
        by (simp add: view_step_def escrow_view_def locked_def escrow_after_release_def)
    next
      case False
      with e rel True show ?thesis
        by (simp add: view_step_def escrow_view_def locked_def escrow_after_release_def)
    qed
  next
    case False
    with e rel show ?thesis by (cases "p_escrow s i") (simp_all add: escrow_view_def locked_def)
  qed
qed

text \<open>C6. The contract implements the abstract escrow, as long as \<open>initialize\<close> is not run a second
  time: seen as a phase with the funds it still holds, every escrow is created active, and in
  every state that a contract initialised once can reach, every successful call by anyone other
  than \<open>initialize\<close> is for every escrow one step of the specification (a partial release, the
  last release, a dispute, a ruling that pays everything out), its creation, or no change.\<close>

theorem escrow_refines_spec:
  assumes "tf_reachable tb cc (now, s)" and "exec env c s = Ok s'" and "\<not> reinitializes c"
  shows "escrow_view s' i = escrow_view s i
    \<or> (\<exists>v v'. escrow_view s i = Some v \<and> escrow_view s' i = Some v' \<and> escrow_spec v v')
    \<or> (escrow_view s i = None \<and> (\<exists>amount>0. escrow_view s' i = Some (Active, amount)))"
proof -
  note inv = reachable_parts [OF assms(1)]
  from assms(2) have disp: "dispatch env c s = Ok s'" by (simp add: exec_def split: if_splits)
  have "view_step (escrow_view s i) (escrow_view s' i)"
    by (insert disp assms(3), cases c; simp add: state_of_Ok; (erule exE)?;
        erule admin_view other_view raise_view release_view create_view [OF inv(3)] init_view [OF inv(3)]
          resolve_view [OF inv(3,4)])
  then show ?thesis by (simp add: view_step_def)
qed

theorem escrow_refines_spec_witness:
  "\<exists>s'. exec (mock_host escrow_contract [alice] 250) (Call_release_milestone_tranche 1 1 600000 alice)
       (snd (at tranches)) = Ok s'
     \<and> escrow_view (snd (at tranches)) 1 = Some (Active, 999600) \<and> escrow_view s' 1 = Some (Active, 399600)"
proof -
  let ?s = "snd (at tranches)"
  let ?c = "Call_release_milestone_tranche 1 1 600000 alice" and ?env = "mock_host escrow_contract [alice] 250"
  have "case exec ?env ?c ?s of Ok s' \<Rightarrow> escrow_view ?s 1 = Some (Active, 999600) \<and> escrow_view s' 1 = Some (Active, 399600)
      | _ \<Rightarrow> False" by code_simp
  then obtain s' where s': "exec ?env ?c ?s = Ok s'" "escrow_view ?s 1 = Some (Active, 999600)"
    "escrow_view s' 1 = Some (Active, 399600)" by (auto split: outcome.splits)
  from escrow_refines_spec [OF at_reachable_pair s'(1), of 1] s'
  have "escrow_spec (Active, 999600) (Active, 399600)" by simp
  with s' show ?thesis by blast
qed

section \<open>The round trip of a vote\<close>

text \<open>Until it is revealed, nothing removes or replaces a commitment.\<close>

definition commits_kept :: "'w trustflow \<Rightarrow> 'w trustflow \<Rightarrow> bool" where
  "commits_kept s t \<longleftrightarrow> (\<forall>i j c. commit_of s i j = Some c \<longrightarrow> commit_of t i j = Some c \<or> reveal_of t i j \<noteq> None)"

lemma commits_quiet: "p_juror_commit t = p_juror_commit s \<Longrightarrow> commits_kept s t"
  by (simp add: commits_kept_def commit_of_def)

lemma admin_commits:
  "set_fee_bps env caller bps s = Ok (u, s') \<Longrightarrow> commits_kept s s'"
  "set_treasury env caller a s = Ok (u, s') \<Longrightarrow> commits_kept s s'"
  "set_pauser env caller a s = Ok (u, s') \<Longrightarrow> commits_kept s s'"
  "revoke_pauser env caller s = Ok (u, s') \<Longrightarrow> commits_kept s s'"
  "pause env caller s = Ok (u, s') \<Longrightarrow> commits_kept s s'"
  "unpause env caller s = Ok (u, s') \<Longrightarrow> commits_kept s s'"
  by (auto simp: admin_Ok storage_defs intro!: commits_quiet)

lemma other_commits:
  "stake env j amount s = Ok (u, s') \<Longrightarrow> commits_kept s s'"
  "unstake env j amount s = Ok (u, s') \<Longrightarrow> commits_kept s s'"
  "bump_juror_stake_ttl env j s = Ok (l, s') \<Longrightarrow> commits_kept s s'"
  "create_escrow env d b amount s = Ok (n, s') \<Longrightarrow> commits_kept s s'"
  "init_escrow env d b ms s = Ok (n, s') \<Longrightarrow> commits_kept s s'"
  "release_milestone_tranche env k m g a s = Ok (u, s') \<Longrightarrow> commits_kept s s'"
  "raise_dispute env k a rs s = Ok (u, s') \<Longrightarrow> commits_kept s s'"
  "bump_escrow_ttl env k s = Ok (l, s') \<Longrightarrow> commits_kept s s'"
  by (auto elim!: stake_Ok unstake_Ok bump_juror_stake_ttl_Ok create_escrow_Ok
      dest!: init_escrow_Ok release_Ok raise_dispute_Ok bump_escrow_ttl_Ok intro!: commits_quiet)

lemma vote_commits:
  "commit_vote env i j c s = Ok (u, s') \<Longrightarrow> commits_kept s s'"
  "reveal_vote env i j v salt s = Ok (u, s') \<Longrightarrow> commits_kept s s'"
  by (auto simp: commits_kept_def commit_of_def reveal_of_def dest!: commit_vote_Ok reveal_vote_Ok)

lemma resolve_commits:
  assumes "dispute_inv now s" and "resolve_dispute env i s = Ok (r, s')"
  shows "commits_kept s s'"
  using resolve_dispute_Ok [OF assms(2) distinct_voters [OF assms(1)]]
  by (elim exE conjE, hypsubst) (rule commits_quiet, simp)

lemma step_commits:
  assumes "dispute_inv now s" and "tf_step tb cc (now, s) (now', s')"
  shows "commits_kept s s'"
  using assms(2)
proof (cases rule: tf_step.cases)
  case (call env c)
  from call(5) have disp: "dispatch env c s = Ok s'" by (simp add: exec_def split: if_splits)
  show ?thesis
    by (insert disp call(4), cases c; simp add: state_of_Ok; (erule exE)?;
        erule admin_commits other_commits vote_commits resolve_commits [OF assms(1)])
qed (auto intro: commits_quiet)

lemma later_commit:
  assumes "tf_later tb cc (now, s) (now', s')" and "tf_reachable tb cc (now, s)"
    and "commit_of s i j = Some c" and "reveal_of s' i j = None"
  shows "commit_of s' i j = Some c"
  using assms(1,4)
proof (induction rule: rtranclp_induct2)
  case refl
  then show ?case using assms(3) by simp
next
  case (step n t n' t')
  from later_evolves [OF assms(2) step.hyps(1)] have reach: "tf_reachable tb cc (n, t)" ..
  have "evolves t t'" by (rule step_evolves [OF reachable_full [OF reach] step.hyps(2)])
  then have "reveal_of t i j = None" using step.prems evolvesD(7) [of t t' i j] by (cases "reveal_of t i j") auto
  then have "commit_of t i j = Some c" by (rule step.IH)
  with step_commits [OF reachable_parts(4) [OF reach] step.hyps(2)] step.prems show ?case
    unfolding commits_kept_def by metis
qed

text \<open>C13. An honest vote makes the round trip: a juror who committed to the hash of a vote and a salt
  can, whatever other than a second \<open>initialize\<close> has been called since, reveal exactly that
  vote with that salt during the whole reveal window (the contract not being paused); the vote is recorded, the juror joins the
  voter list, and the commitment is cleared.\<close>

theorem honest_reveal_accepted:
  assumes reach: "tf_reachable tb cc (now, s)" and host: "hosted env tb cc" and le: "now \<le> sequence env"
    and commit: "exec env (Call_commit_vote i j (hash_vote env v salt)) s = Ok t"
    and later: "tf_later tb cc (sequence env, t) (now', s')" and unrevealed: "reveal_of s' i j = None"
    and d: "p_dispute s' i = Some d" "d_commit_deadline d \<le> sequence env'" "sequence env' < d_reveal_deadline d"
    and env': "now' \<le> sequence env'" "authorized env' j" "sha256 env' = sha256 env"
    and paused: "i_paused s' \<noteq> Some True"
  shows "\<exists>t'. reveal_vote env' i j v salt s' = Ok ((), t') \<and> reveal_of t' i j = Some v
    \<and> voters_of t' i = voters_of s' i @ [j] \<and> commit_of t' i j = None"
proof -
  from commit have run: "commit_vote env i j (hash_vote env v salt) s = Ok ((), t)"
    by (auto simp: exec_def state_of_Ok split: if_splits)
  from commit_vote_Ok [OF run] have ct: "commit_of t i j = Some (hash_vote env v salt)" by (auto simp: commit_of_def)
  have "tf_step tb cc (now, s) (sequence env, t)" by (rule tf_step.call [OF host le _ commit]) simp
  then have reach_t: "tf_reachable tb cc (sequence env, t)" using reach by (rule tf_reachable.step [rotated])
  from later_commit [OF later reach_t ct unrevealed] have cs: "commit_of s' i j = Some (hash_vote env v salt)" .
  from later_evolves [OF reach_t later] have "tf_reachable tb cc (now', s')" ..
  from dispute_invD [OF reachable_parts(4) [OF this]] d(1) have "d_resolved d \<longrightarrow> d_reveal_deadline d \<le> now'"
    by (force simp: dispute_ok_def)
  with d(3) env'(1) have open_d: "\<not> d_resolved d" by auto
  from cs d open_d env'(2,3) unrevealed paused show ?thesis
    by (simp add: reveal_vote_def outcome_run Let_def storage_defs commit_of_def reveal_of_def voters_of_def
        hash_vote_def not_le not_less)
qed

theorem honest_reveal_accepted_witness:
  "\<exists>t t'. exec (mock_host escrow_contract [juror1] 300)
         (Call_commit_vote 1 juror1 (hash_vote (mock_host escrow_contract [juror1] 300) True sample_salt))
         (snd (at dispute_raised)) = Ok t
     \<and> reveal_vote (mock_host escrow_contract [juror1] 17600) 1 juror1 True sample_salt t = Ok ((), t')
     \<and> reveal_of t' 1 juror1 = Some True"
proof -
  let ?s = "snd (at dispute_raised)" and ?env = "mock_host escrow_contract [juror1] 300"
  let ?env' = "mock_host escrow_contract [juror1] 17600"
  let ?c = "Call_commit_vote 1 juror1 (hash_vote ?env True sample_salt)"
  have now: "fst (at dispute_raised) \<le> sequence ?env" by code_simp
  have "case exec ?env ?c ?s of Ok t \<Rightarrow> reveal_of t 1 juror1 = None \<and> \<not> is_paused t
      \<and> (case p_dispute t 1 of Some d \<Rightarrow> d_commit_deadline d \<le> 17600 \<and> 17600 < d_reveal_deadline d | None \<Rightarrow> False)
    | _ \<Rightarrow> False" by code_simp
  then obtain t d where t: "exec ?env ?c ?s = Ok t" and r: "reveal_of t 1 juror1 = None" "\<not> is_paused t"
    and d: "p_dispute t 1 = Some d" "d_commit_deadline d \<le> 17600" "17600 < d_reveal_deadline d"
    by (auto split: outcome.splits option.splits)
  have later: "tf_later mock_client_balance escrow_contract (sequence ?env, t) (17500, t)"
    by (intro r_into_rtranclp tf_step.time) simp
  have "authorized ?env' juror1" by (simp add: cast_defs)
  moreover have "i_paused t \<noteq> Some True" using r(2) by (auto simp: is_paused_def)
  ultimately show ?thesis
    using honest_reveal_accepted [OF at_reachable_pair mock_hosted.hosted_axioms now t later r(1) d(1), of ?env'] d t by auto
qed

section \<open>Well-formed states\<close>

text \<open>C27. Every state that a contract initialised once can reach is well-formed: the administrator,
  the token and the treasury are set, so no \<open>unwrap\<close> of a setting can panic; the rates are within their limits, in the settings
  and in every snapshot; every stake is a non-negative \<open>i128\<close>; every escrow is stored under
  its own number, not beyond the counter, with a positive amount and a fee snapshot; and
  every dispute belongs to the escrow it is stored under.\<close>

theorem state_well_formed:
  assumes "tf_reachable tb cc (now, s)"
  shows "i_admin s \<noteq> None \<and> i_token s \<noteq> None \<and> i_treasury s \<noteq> None
    \<and> uint (get_fee_bps s) \<le> 1000 \<and> uint (slash_rate s) \<le> 10000
    \<and> (\<forall>j. 0 \<le> get_stake j s \<and> in_i128 (get_stake j s))
    \<and> (\<forall>i e. p_escrow s i = Some e \<longrightarrow> e_id e = i \<and> 0 < e_amount e \<and> in_i128 (e_amount e)
         \<and> uint i \<le> uint (escrow_count s)
         \<and> (\<exists>cfg. p_escrow_fee_config s i = Some cfg \<and> uint (f_fee_bps cfg) \<le> 1000))
    \<and> (\<forall>i d. p_dispute s i = Some d \<longrightarrow> d_escrow_id d = i \<and> d_commit_deadline d \<le> d_reveal_deadline d
         \<and> p_escrow s i \<noteq> None)"
proof -
  note inv = reachable_parts [OF assms]
  have "p_dispute s i = Some d \<Longrightarrow> d_escrow_id d = i \<and> d_commit_deadline d \<le> d_reveal_deadline d \<and> p_escrow s i \<noteq> None"
    for i d using dispute_invD(1) [OF inv(4), of i d] by (auto simp: dispute_ok_def)
  with inv(1,2) escrow_invD(1) [OF inv(3)] show ?thesis by (simp add: settings_inv_def stake_inv_def escrow_ok_def)
qed

theorem state_well_formed_witness:
  "i_treasury (snd (at dispute_resolved)) \<noteq> None \<and> 0 \<le> get_stake juror3 (snd (at dispute_resolved))"
  using state_well_formed [OF at_reachable_pair, of dispute_resolved] by blast

end
