(* ===== verification/TrustFlow_Evasion.thy ===== *)
theory TrustFlow_Evasion
  imports TrustFlow_Progress
begin

text \<open>
  What a stake is worth: a juror can take the whole stake back at any time, also between the
  revealing of a vote and the resolution, and the vote keeps its weight.
\<close>

lemma stake_is_funded:
  assumes "tf_reachable tb cc (now, s)" and "i_token s = Some token"
  shows "get_stake j s \<le> tb token cc (world s)"
  using reachable_parts(5) [OF assms(1)] owed_nonneg(4) [OF assms(1), of j] owed_nonneg(5) [OF assms(1)] assms(2) by (simp add: funds_inv_def)

lemma resolve_stakes:
  assumes "resolve_dispute env i s = Ok (r, s')" and "distinct (voters_of s i)"
  shows "r = majority_for_depositor s i"
    and "get_stake j s' = get_stake j s - (if j \<in> set (voters_of s i) then slashed s i r (slash_rate s) j else 0)"
proof -
  from resolve_dispute_Ok [OF assms] obtain stakes where "r = majority_for_depositor s i"
    and stakes: "\<forall>j. unwrap_or (stakes j) 0 = get_stake j s
      - (if j \<in> set (voters_of s i) then slashed s i r (slash_rate s) j else 0)"
    and after: "p_juror_stake s' = stakes"
    by (elim exE conjE) (rule that; (assumption | simp (no_asm_simp)))
  then show "r = majority_for_depositor s i"
    and "get_stake j s' = get_stake j s - (if j \<in> set (voters_of s i) then slashed s i r (slash_rate s) j else 0)"
    by (simp_all add: get_stake_def [of j s'])
qed

text \<open>A stake of zero stays zero, also in a resolution, until its juror stakes again.\<close>

lemma empty_stake_not_slashed:
  assumes reach: "tf_reachable tb cc (now, s)" and zero: "get_stake j s = 0"
    and res: "resolve_dispute env i s = Ok (r, s')"
  shows "r = majority_for_depositor s i \<and> get_stake j s' = 0"
proof -
  note inv = reachable_parts [OF reach]
  have "slash_amount 0 (slash_rate s) = 0"
    using slash_amount_bounds(1,2) [of 0 "slash_rate s"] inv(1) by (simp add: settings_inv_def)
  then have "slashed s i r (slash_rate s) j = 0" by (simp add: slashed_def zero)
  with resolve_stakes [OF res distinct_voters [OF inv(4)]] show ?thesis by (simp add: zero)
qed

lemma empty_stake_stays:
  assumes reach: "tf_reachable tb cc (now, s)" and host: "hosted env tb cc" and zero: "get_stake j s = 0"
    and run: "exec env c s = Ok s'" and once: "\<not> reinitializes c"
  shows "get_stake j s' = 0 \<or> (\<exists>amount. c = Call_stake j amount \<and> authorized env j)" (is "?P c")
proof -
  have same: "?P y" if "p_juror_stake s' = p_juror_stake s" for y using that zero by (simp add: get_stake_def)
  have quiet: "state_of (bump_juror_stake_ttl env a s) = Ok s' \<Longrightarrow> ?P y"
    "state_of (create_escrow env d b amt s) = Ok s' \<Longrightarrow> ?P y"
    "state_of (init_escrow env d b ms s) = Ok s' \<Longrightarrow> ?P y"
    "state_of (release_milestone_tranche env x k g a s) = Ok s' \<Longrightarrow> ?P y"
    "state_of (raise_dispute env x a rs s) = Ok s' \<Longrightarrow> ?P y"
    "state_of (commit_vote env x a cm s) = Ok s' \<Longrightarrow> ?P y" "state_of (reveal_vote env x a v sl s) = Ok s' \<Longrightarrow> ?P y"
    "state_of (bump_escrow_ttl env x s) = Ok s' \<Longrightarrow> ?P y" for amt d b ms x a cm v sl k g rs y
    by (rule same; auto simp: state_of_Ok elim!: bump_juror_stake_ttl_Ok create_escrow_Ok
        dest!: init_escrow_Ok release_Ok raise_dispute_Ok commit_vote_Ok reveal_vote_Ok bump_escrow_ttl_Ok)+
  have admin: "state_of (set_fee_bps env a n s) = Ok s' \<Longrightarrow> ?P y" "state_of (set_treasury env a b s) = Ok s' \<Longrightarrow> ?P y"
    "state_of (set_pauser env a b s) = Ok s' \<Longrightarrow> ?P y" "state_of (revoke_pauser env a s) = Ok s' \<Longrightarrow> ?P y"
    "state_of (pause env a s) = Ok s' \<Longrightarrow> ?P y" "state_of (unpause env a s) = Ok s' \<Longrightarrow> ?P y" for a b n y
    by (rule same; auto simp: state_of_Ok admin_Ok storage_defs)+
  have staked: "state_of (stake env a amt s) = Ok s' \<Longrightarrow> ?P (Call_stake a amt)" for a amt
    using zero by (cases "a = j") (auto simp: state_of_Ok get_stake_def elim!: stake_Ok)
  have unstaked: "?P y" if out: "state_of (unstake env a amt s) = Ok s'" for a amt y
  proof -
    from out obtain u where "unstake env a amt s = Ok (u, s')" by (auto simp: state_of_Ok)
    then show ?thesis
    proof (rule unstake_Ok)
      fix token w il lu
      assume "token_transfer env token (current_contract_address env) a amt (world s) = Some w"
        and amt: "amt \<le> get_stake a s" and s': "s' = s\<lparr>i_live_until := il, world := w,
           p_juror_stake := (p_juror_stake s)(a \<mapsto> get_stake a s - amt), p_live_until := lu,
           events := events s @ [Unstaked a amt (get_stake a s - amt)]\<rparr>"
      from token_client.transfer_nonneg [OF hosted.axioms(1) [OF host] this(1)] amt zero
      show ?thesis by (cases "a = j") (auto simp: s' get_stake_def)
    qed
  qed
  have resolved: "state_of (resolve_dispute env i s) = Ok s' \<Longrightarrow> ?P y" for i y
    using empty_stake_not_slashed [OF reach zero] by (auto simp: state_of_Ok)
  from run have disp: "dispatch env c s = Ok s'" by (simp add: exec_def split: if_splits)
  show "?P c"
    by (insert disp once, cases c; simp only: dispatch.simps reinitializes.simps not_True_eq_False
          not_False_eq_True; erule admin quiet staked unstaked resolved)
qed

text \<open>C26. Slashing can be evaded: in every state that a contract initialised once can reach, not
  paused, a juror who signs can withdraw the whole stake, whatever votes it has revealed in
  disputes that are not yet resolved, when the token works and has room for the amount (the
  contract has the funds). In every later state, reached by any calls except a second
  \<open>initialize\<close>, the votes are still there and the juror still is a voter; and as long as the
  stake is zero, a resolution rules by the majority of all votes and takes nothing from the
  juror, and no call makes the stake anything but zero except the juror's own \<open>stake\<close>.\<close>

theorem slashing_can_be_evaded:
  assumes reach: "tf_reachable tb cc (now, s)" and host: "hosted env tb cc" and le: "now \<le> sequence env"
    and live: "live_token (token_transfer env) tb live"
    and token: "i_token s = Some token" "live token cc (world s)"
    and paused: "i_paused s \<noteq> Some True" and auth: "authorized env j"
    and range: "in_i128 (tb token j (world s) + get_stake j s)"
  shows "\<exists>t. exec env (Call_unstake j (get_stake j s)) s = Ok t \<and> get_stake j t = 0
    \<and> tb token j (world t) = tb token j (world s) + get_stake j s
    \<and> (\<forall>now' u. tf_later tb cc (sequence env, t) (now', u) \<longrightarrow>
         (\<forall>i v. reveal_of s i j = Some v \<longrightarrow> reveal_of u i j = Some v \<and> j \<in> set (voters_of u i))
       \<and> (get_stake j u = 0 \<longrightarrow>
            (\<forall>env' i r u'. resolve_dispute env' i u = Ok (r, u') \<longrightarrow>
               r = majority_for_depositor u i \<and> get_stake j u' = 0)
          \<and> (\<forall>env' c u'. hosted env' tb cc \<longrightarrow> exec env' c u = Ok u' \<longrightarrow> \<not> reinitializes c \<longrightarrow>
               get_stake j u' = 0 \<or> (\<exists>amount. c = Call_stake j amount \<and> authorized env' j))))"
proof -
  note inv = reachable_parts [OF reach]
  have cc: "current_contract_address env = cc" and j: "j \<noteq> cc"
    using host auth by (auto simp: hosted_def hosted_axioms_def)
  have st: "0 \<le> get_stake j s" "in_i128 (get_stake j s)" using inv(2) by (simp_all add: stake_inv_def)
  from live_token.transfer_goes [OF live token(2) st(1) stake_is_funded [OF reach token(1)] range] obtain w where
    w: "token_transfer env token cc j (get_stake j s) (world s) = Some w" by blast
  have "\<exists>t. unstake env j (get_stake j s) s = Ok ((), t)"
    using auth paused token(1) w
    by (simp add: unstake_def outcome_run Let_def cc checked_sub_def get_stake_def storage_defs)
  then obtain t where run: "unstake env j (get_stake j s) s = Ok ((), t)" by blast
  then obtain token' w' il lu where "i_token s = Some token'"
    and "token_transfer env token' (current_contract_address env) j (get_stake j s) (world s) = Some w'"
    and t: "t = s\<lparr>i_live_until := il, world := w', p_juror_stake := (p_juror_stake s)(j \<mapsto> get_stake j s - get_stake j s),
       p_live_until := lu, events := events s @ [Unstaked j (get_stake j s) (get_stake j s - get_stake j s)]\<rparr>"
    by (blast elim: unstake_Ok)
  then have w': "token_transfer env token cc j (get_stake j s) (world s) = Some w'" using token(1) cc by simp
  have paid: "tb token j (world t) = tb token j (world s) + get_stake j s"
    using token_client.transfer_moves [OF live_token.axioms(1) [OF live] w', of j] j by (simp add: t)
  have zero: "get_stake j t = 0" by (simp add: t get_stake_def)
  have call: "exec env (Call_unstake j (get_stake j s)) s = Ok t" using run st(2) by (simp add: exec_def state_of_def)
  from tf_step.call [OF host le _ call] have step: "tf_step tb cc (now, s) (sequence env, t)" by simp
  then have reach': "tf_reachable tb cc (sequence env, t)" by (rule tf_reachable.step [OF reach])
  have votes: "reveal_of u i j = Some v \<and> j \<in> set (voters_of u i)"
    if "reveal_of s i j = Some v" and later: "tf_later tb cc (sequence env, t) (now', u)" for now' u i v
  proof -
    from that(1) have "reveal_of t i j = Some v" by (simp add: t reveal_of_def)
    with later_evolves [OF reach' later] have r: "reveal_of u i j = Some v" and "tf_reachable tb cc (now', u)"
      by (auto dest: evolvesD(7))
    from dispute_invD [OF reachable_parts(4) [OF this(2)], of i] r show ?thesis
      by (cases "p_dispute u i") (force simp: no_dispute_def dispute_ok_def)+
  qed
  have idle: "(resolve_dispute env' i u = Ok (r, u') \<longrightarrow> r = majority_for_depositor u i \<and> get_stake j u' = 0)
      \<and> (hosted env'' tb cc \<longrightarrow> exec env'' c u = Ok u' \<longrightarrow> \<not> reinitializes c \<longrightarrow>
           get_stake j u' = 0 \<or> (\<exists>amount. c = Call_stake j amount \<and> authorized env'' j))"
    if "tf_later tb cc (sequence env, t) (now', u)" and "get_stake j u = 0" for now' u env' env'' i r c u'
  proof -
    from later_evolves [OF reach' that(1)] have "tf_reachable tb cc (now', u)" ..
    from empty_stake_not_slashed [OF this that(2), of env' i r u'] empty_stake_stays [OF this _ that(2), of env'' c u']
    show ?thesis by blast
  qed
  note rules = votes [THEN conjunct1] votes [THEN conjunct2] idle [THEN conjunct1, rule_format, THEN conjunct1]
    idle [THEN conjunct1, rule_format, THEN conjunct2] idle [THEN conjunct2, rule_format]
  show ?thesis
    by (intro exI [of _ t] conjI allI impI; (fact call zero paid | (rule rules; assumption)))
qed

theorem slashing_can_be_evaded_witness:
  "\<exists>t. exec (mock_host escrow_contract [juror3] 20000) (Call_unstake juror3 2000) (snd (at votes_revealed)) = Ok t
     \<and> get_stake juror3 (snd (at votes_revealed)) = 2000 \<and> juror3 \<in> set (voters_of t 1)
     \<and> (\<forall>env' r t'. resolve_dispute env' 1 t = Ok (r, t') \<longrightarrow> get_stake juror3 t' = 0)"
proof -
  let ?s = "snd (at votes_revealed)" and ?env = "mock_host escrow_contract [juror3] 20000"
  have "case at votes_revealed of (n, s) \<Rightarrow> n \<le> 20000 \<and> get_stake juror3 s = 2000 \<and> reveal_of s 1 juror3 = Some True
      \<and> i_token s = Some usdc \<and> i_paused s \<noteq> Some True
      \<and> in_i128 (mock_client_balance usdc juror3 (world s) + 2000)" by code_simp
  then have facts: "fst (at votes_revealed) \<le> sequence ?env" "get_stake juror3 ?s = 2000"
    "reveal_of ?s 1 juror3 = Some True" "i_token ?s = Some usdc" "i_paused ?s \<noteq> Some True"
    "in_i128 (mock_client_balance usdc juror3 (world ?s) + get_stake juror3 ?s)"
    by (auto split: prod.splits)
  have "authorized ?env juror3" by (simp add: cast_defs)
  from slashing_can_be_evaded [OF at_reachable_pair mock_hosted.hosted_axioms facts(1) mock_host_live facts(4)
      sound_token_live [OF at_sound] facts(5) this facts(6)]
  show ?thesis
  proof (elim exE conjE, goal_cases)
    case (1 t)
    note later = 1(4) [rule_format, OF rtranclp.rtrancl_refl]
    from later [THEN conjunct1] facts(3) have "juror3 \<in> set (voters_of t 1)" by blast
    with 1(1) later [THEN conjunct2, rule_format, OF 1(2), THEN conjunct1] facts(2) show ?case by auto
  qed
qed

end
