(* ===== verification/Abundance.thy ===== *)
theory Abundance
  imports Mock_Token
begin

text \<open>
  The Abundance token, \<open>contracts/abundance/src\<close>: administrator, metadata, balances and
  allowances with their storage lifetimes, the entry points of the token interface, and the
  interpretation of \<open>live_token\<close> on them. The token SDK's helper \<open>TokenUtils\<close> is used for two
  things: it keeps one metadata value in the instance storage (reading it traps when there is
  none) and publishes the standard events, which are a log here.
\<close>

section \<open>Storage\<close>

definition DAY_IN_LEDGERS :: u32 where "DAY_IN_LEDGERS = 17280"
definition AB_INSTANCE_BUMP_AMOUNT :: u32 where "AB_INSTANCE_BUMP_AMOUNT = 7 * DAY_IN_LEDGERS"
definition AB_INSTANCE_LIFETIME_THRESHOLD :: u32 where
  "AB_INSTANCE_LIFETIME_THRESHOLD = AB_INSTANCE_BUMP_AMOUNT - DAY_IN_LEDGERS"
definition BALANCE_BUMP_AMOUNT :: u32 where "BALANCE_BUMP_AMOUNT = 30 * DAY_IN_LEDGERS"
definition BALANCE_LIFETIME_THRESHOLD :: u32 where
  "BALANCE_LIFETIME_THRESHOLD = BALANCE_BUMP_AMOUNT - DAY_IN_LEDGERS"

lemmas abundance_constants = DAY_IN_LEDGERS_def AB_INSTANCE_BUMP_AMOUNT_def
  AB_INSTANCE_LIFETIME_THRESHOLD_def BALANCE_BUMP_AMOUNT_def BALANCE_LIFETIME_THRESHOLD_def

record allowance_data_key =
  ak_from :: address
  ak_spender :: address

record allowance_value =
  av_amount :: i128
  av_expiration_ledger :: u32

record token_metadata =
  tm_decimal :: u32
  tm_name :: string
  tm_symbol :: string

datatype token_event =
    Minted address address i128
  | AdminSet address address
  | Approved address address i128 u32
  | Transferred address address i128
  | Burned address i128

text \<open>
  \<open>DataKey::Nonce\<close> and \<open>DataKey::State\<close> are never read or written. The allowances are
  temporary entries, with an expiration ledger each; so are, in persistent storage, the
  balances, and the instance.
\<close>

record abundance =
  ab_admin :: "address option"
  ab_metadata :: "token_metadata option"
  ab_allowance :: "allowance_data_key \<rightharpoonup> allowance_value"
  ab_balance :: "address \<rightharpoonup> i128"
  ab_instance_live :: u32
  ab_allowance_live :: "allowance_data_key \<Rightarrow> u32"
  ab_balance_live :: "address \<Rightarrow> u32"
  ab_events :: "token_event list"

section \<open>Administrator and metadata\<close>

definition has_administrator :: "abundance \<Rightarrow> bool" where
  "has_administrator e = (ab_admin e \<noteq> None)"

definition read_administrator :: "abundance \<Rightarrow> address option" where
  "read_administrator e = ab_admin e"

definition write_administrator :: "address \<Rightarrow> abundance \<Rightarrow> abundance" where
  "write_administrator admin e = e\<lparr>ab_admin := Some admin\<rparr>"

definition read_decimal :: "abundance \<Rightarrow> u32 option" where
  "read_decimal e = map_option tm_decimal (ab_metadata e)"

definition read_name :: "abundance \<Rightarrow> string option" where
  "read_name e = map_option tm_name (ab_metadata e)"

definition read_symbol :: "abundance \<Rightarrow> string option" where
  "read_symbol e = map_option tm_symbol (ab_metadata e)"

definition write_metadata :: "token_metadata \<Rightarrow> abundance \<Rightarrow> abundance" where
  "write_metadata metadata e = e\<lparr>ab_metadata := Some metadata\<rparr>"

section \<open>Allowances\<close>

text \<open>A temporary entry past its expiration ledger is gone.\<close>

definition temporary_get :: "'w env \<Rightarrow> allowance_data_key \<Rightarrow> abundance \<Rightarrow> allowance_value option" where
  "temporary_get env key e =
     (if ab_allowance e key \<noteq> None \<and> ab_allowance_live e key < sequence env then None
      else ab_allowance e key)"

definition temporary_set ::
    "'w env \<Rightarrow> allowance_data_key \<Rightarrow> allowance_value \<Rightarrow> abundance \<Rightarrow> abundance" where
  "temporary_set env key v e =
     (let e' = (if temporary_get env key e = None
                then e\<lparr>ab_allowance_live := (ab_allowance_live e)(key := host_new_ttl env (sequence env))\<rparr>
                else e)
      in e'\<lparr>ab_allowance := (ab_allowance e')(key \<mapsto> v)\<rparr>)"

definition read_allowance :: "'w env \<Rightarrow> address \<Rightarrow> address \<Rightarrow> abundance \<Rightarrow> allowance_value" where
  "read_allowance env from spender e =
     (let key = \<lparr>ak_from = from, ak_spender = spender\<rparr>
      in case temporary_get env key e of
           Some allowance \<Rightarrow>
             (if av_expiration_ledger allowance < sequence env
              then \<lparr>av_amount = 0, av_expiration_ledger = av_expiration_ledger allowance\<rparr>
              else allowance)
         | None \<Rightarrow> \<lparr>av_amount = 0, av_expiration_ledger = 0\<rparr>)"

definition write_allowance ::
    "'w env \<Rightarrow> address \<Rightarrow> address \<Rightarrow> i128 \<Rightarrow> u32 \<Rightarrow> abundance \<Rightarrow> abundance option" where
  "write_allowance env from spender amount expiration_ledger e = do {
     let allowance = \<lparr>av_amount = amount, av_expiration_ledger = expiration_ledger\<rparr>;
     ensure (\<not> (amount > 0 \<and> expiration_ledger < sequence env));
     let key = \<lparr>ak_from = from, ak_spender = spender\<rparr>;
     let e = temporary_set env key allowance e;
     if amount > 0
     then do {
       live_for \<leftarrow> checked_sub_word expiration_ledger (sequence env);
       Some (e\<lparr>ab_allowance_live := (ab_allowance_live e)(key :=
         host_bump env live_for live_for (sequence env) (ab_allowance_live e key))\<rparr>)
     }
     else Some e
   }"

definition spend_allowance ::
    "'w env \<Rightarrow> address \<Rightarrow> address \<Rightarrow> i128 \<Rightarrow> abundance \<Rightarrow> abundance option" where
  "spend_allowance env from spender amount e = do {
     let allowance = read_allowance env from spender e;
     ensure (\<not> av_amount allowance < amount);
     left \<leftarrow> checked_sub (av_amount allowance) amount;
     write_allowance env from spender left (av_expiration_ledger allowance) e
   }"

section \<open>Balances\<close>

definition bump_balance :: "'w env \<Rightarrow> address \<Rightarrow> abundance \<Rightarrow> abundance" where
  "bump_balance env addr e = e\<lparr>ab_balance_live := (ab_balance_live e)(addr :=
     host_bump env BALANCE_LIFETIME_THRESHOLD BALANCE_BUMP_AMOUNT (sequence env) (ab_balance_live e addr))\<rparr>"

definition read_balance :: "'w env \<Rightarrow> address \<Rightarrow> abundance \<Rightarrow> i128 \<times> abundance" where
  "read_balance env addr e =
     (case ab_balance e addr of
        Some balance \<Rightarrow> (balance, bump_balance env addr e)
      | None \<Rightarrow> (0, e))"

definition write_balance :: "'w env \<Rightarrow> address \<Rightarrow> i128 \<Rightarrow> abundance \<Rightarrow> abundance" where
  "write_balance env addr amount e =
     (let e' = (if ab_balance e addr = None
                then e\<lparr>ab_balance_live := (ab_balance_live e)(addr := host_new_ttl env (sequence env))\<rparr>
                else e)
      in bump_balance env addr (e'\<lparr>ab_balance := (ab_balance e')(addr \<mapsto> amount)\<rparr>))"

definition receive_balance :: "'w env \<Rightarrow> address \<Rightarrow> i128 \<Rightarrow> abundance \<Rightarrow> abundance option" where
  "receive_balance env addr amount e = do {
     let (balance, e) = read_balance env addr e;
     new_balance \<leftarrow> checked_add balance amount;
     Some (write_balance env addr new_balance e)
   }"

definition spend_balance :: "'w env \<Rightarrow> address \<Rightarrow> i128 \<Rightarrow> abundance \<Rightarrow> abundance option" where
  "spend_balance env addr amount e = do {
     let (balance, e) = read_balance env addr e;
     ensure (\<not> balance < amount);
     new_balance \<leftarrow> checked_sub balance amount;
     Some (write_balance env addr new_balance e)
   }"

section \<open>Entry points\<close>

definition check_nonnegative_amount :: "i128 \<Rightarrow> unit option" where
  "check_nonnegative_amount amount = ensure (\<not> amount < 0)"

definition bump_instance :: "'w env \<Rightarrow> abundance \<Rightarrow> abundance" where
  "bump_instance env e = e\<lparr>ab_instance_live :=
     host_bump env AB_INSTANCE_LIFETIME_THRESHOLD AB_INSTANCE_BUMP_AMOUNT (sequence env) (ab_instance_live e)\<rparr>"

definition emit :: "token_event \<Rightarrow> abundance \<Rightarrow> abundance" where
  "emit ev e = e\<lparr>ab_events := ab_events e @ [ev]\<rparr>"

definition ab_initialize ::
    "address \<Rightarrow> u32 \<Rightarrow> string \<Rightarrow> string \<Rightarrow> abundance \<Rightarrow> abundance option" where
  "ab_initialize admin dec nm symb e = do {
     ensure (\<not> has_administrator e);
     let e = write_administrator admin e;
     ensure (\<not> dec > 255);
     Some (write_metadata \<lparr>tm_decimal = dec, tm_name = nm, tm_symbol = symb\<rparr> e)
   }"

definition ab_mint :: "'w env \<Rightarrow> address \<Rightarrow> i128 \<Rightarrow> abundance \<Rightarrow> abundance option" where
  "ab_mint env to amount e = do {
     check_nonnegative_amount amount;
     ensure (authorized env to);
     let e = bump_instance env e;
     e \<leftarrow> receive_balance env to amount e;
     Some (emit (Minted to to amount) e)
   }"

definition ab_set_admin :: "'w env \<Rightarrow> address \<Rightarrow> abundance \<Rightarrow> abundance option" where
  "ab_set_admin env new_admin e = do {
     admin \<leftarrow> read_administrator e;
     ensure (authorized env admin);
     let e = bump_instance env e;
     let e = write_administrator new_admin e;
     Some (emit (AdminSet admin new_admin) e)
   }"

definition ab_allowance_of :: "'w env \<Rightarrow> address \<Rightarrow> address \<Rightarrow> abundance \<Rightarrow> i128 \<times> abundance" where
  "ab_allowance_of env from spender e =
     (let e = bump_instance env e in (av_amount (read_allowance env from spender e), e))"

definition ab_approve ::
    "'w env \<Rightarrow> address \<Rightarrow> address \<Rightarrow> i128 \<Rightarrow> u32 \<Rightarrow> abundance \<Rightarrow> abundance option" where
  "ab_approve env from spender amount expiration_ledger e = do {
     ensure (authorized env from);
     check_nonnegative_amount amount;
     let e = bump_instance env e;
     e \<leftarrow> write_allowance env from spender amount expiration_ledger e;
     Some (emit (Approved from spender amount expiration_ledger) e)
   }"

definition ab_balance_of :: "'w env \<Rightarrow> address \<Rightarrow> abundance \<Rightarrow> i128 \<times> abundance" where
  "ab_balance_of env addr e = read_balance env addr (bump_instance env e)"

definition ab_spendable_balance :: "'w env \<Rightarrow> address \<Rightarrow> abundance \<Rightarrow> i128 \<times> abundance" where
  "ab_spendable_balance env addr e = read_balance env addr (bump_instance env e)"

definition ab_transfer ::
    "'w env \<Rightarrow> address \<Rightarrow> address \<Rightarrow> i128 \<Rightarrow> abundance \<Rightarrow> abundance option" where
  "ab_transfer env from to amount e = do {
     ensure (authorized env from);
     check_nonnegative_amount amount;
     let e = bump_instance env e;
     e \<leftarrow> spend_balance env from amount e;
     e \<leftarrow> receive_balance env to amount e;
     Some (emit (Transferred from to amount) e)
   }"

definition ab_transfer_from ::
    "'w env \<Rightarrow> address \<Rightarrow> address \<Rightarrow> address \<Rightarrow> i128 \<Rightarrow> abundance \<Rightarrow> abundance option" where
  "ab_transfer_from env spender from to amount e = do {
     ensure (authorized env spender);
     check_nonnegative_amount amount;
     let e = bump_instance env e;
     e \<leftarrow> spend_allowance env from spender amount e;
     e \<leftarrow> spend_balance env from amount e;
     e \<leftarrow> receive_balance env to amount e;
     Some (emit (Transferred from to amount) e)
   }"

definition ab_burn :: "'w env \<Rightarrow> address \<Rightarrow> i128 \<Rightarrow> abundance \<Rightarrow> abundance option" where
  "ab_burn env from amount e = do {
     ensure (authorized env from);
     check_nonnegative_amount amount;
     let e = bump_instance env e;
     e \<leftarrow> spend_balance env from amount e;
     Some (emit (Burned from amount) e)
   }"

definition ab_burn_from :: "'w env \<Rightarrow> address \<Rightarrow> address \<Rightarrow> i128 \<Rightarrow> abundance \<Rightarrow> abundance option" where
  "ab_burn_from env spender from amount e = do {
     ensure (authorized env spender);
     check_nonnegative_amount amount;
     let e = bump_instance env e;
     e \<leftarrow> spend_allowance env from spender amount e;
     e \<leftarrow> spend_balance env from amount e;
     Some (emit (Burned from amount) e)
   }"

definition ab_decimals :: "abundance \<Rightarrow> u32 option" where
  "ab_decimals e = read_decimal e"

definition ab_name :: "abundance \<Rightarrow> string option" where
  "ab_name e = read_name e"

definition ab_symbol :: "abundance \<Rightarrow> string option" where
  "ab_symbol e = read_symbol e"

section \<open>What the storage helpers do\<close>

definition bal :: "address \<Rightarrow> abundance \<Rightarrow> i128" where
  "bal a e = unwrap_or (ab_balance e a) 0"

text \<open>The part of the state that is not a lifetime.\<close>

definition data_of :: "abundance \<Rightarrow> address option \<times> token_metadata option \<times>
    (allowance_data_key \<rightharpoonup> allowance_value) \<times> (address \<rightharpoonup> i128) \<times> token_event list" where
  "data_of e = (ab_admin e, ab_metadata e, ab_allowance e, ab_balance e, ab_events e)"

lemma read_balance_value [simp]: "fst (read_balance env a e) = bal a e"
  by (simp add: read_balance_def bal_def split: option.split)

lemma receive_balance_Some:
  "receive_balance env a amount e = Some e' \<Longrightarrow>
     in_i128 (bal a e + amount) \<and> ab_balance e' = (ab_balance e)(a \<mapsto> bal a e + amount)
     \<and> ab_allowance e' = ab_allowance e \<and> ab_allowance_live e' = ab_allowance_live e
     \<and> ab_admin e' = ab_admin e \<and> ab_events e' = ab_events e"
  by (auto simp: receive_balance_def read_balance_def bal_def Let_def write_balance_def bump_balance_def
      bind_eq_Some_conv checked_simps split: option.splits prod.splits)

lemma receive_balance_None:
  "receive_balance env a amount e = None \<longleftrightarrow> \<not> in_i128 (bal a e + amount)"
  by (auto simp: receive_balance_def read_balance_def bal_def Let_def checked_add_def
      split: option.splits prod.splits)

lemma spend_balance_Some:
  "spend_balance env a amount e = Some e' \<Longrightarrow>
     amount \<le> bal a e \<and> in_i128 (bal a e - amount) \<and> ab_balance e' = (ab_balance e)(a \<mapsto> bal a e - amount)
     \<and> ab_allowance e' = ab_allowance e \<and> ab_allowance_live e' = ab_allowance_live e
     \<and> ab_admin e' = ab_admin e \<and> ab_events e' = ab_events e"
  by (auto simp: spend_balance_def read_balance_def bal_def Let_def write_balance_def bump_balance_def
      bind_eq_Some_conv checked_simps split: option.splits prod.splits)

lemma spend_balance_None:
  "spend_balance env a amount e = None \<longleftrightarrow> bal a e < amount \<or> \<not> in_i128 (bal a e - amount)"
  by (auto simp: spend_balance_def read_balance_def bal_def Let_def checked_sub_def ensure_def
      split: option.splits prod.splits)

lemma write_allowance_Some:
  "write_allowance env from spender amount exp e = Some e' \<Longrightarrow>
     (0 < amount \<longrightarrow> sequence env \<le> exp)
     \<and> ab_allowance e' = (ab_allowance e)(\<lparr>ak_from = from, ak_spender = spender\<rparr> \<mapsto>
         \<lparr>av_amount = amount, av_expiration_ledger = exp\<rparr>)
     \<and> ab_balance e' = ab_balance e \<and> ab_admin e' = ab_admin e \<and> ab_events e' = ab_events e"
  by (auto simp: write_allowance_def temporary_set_def Let_def checked_sub_word_def bind_eq_Some_conv
      not_less split: if_splits)

lemma spend_allowance_Some:
  "spend_allowance env from spender amount e = Some e' \<Longrightarrow>
     amount \<le> av_amount (read_allowance env from spender e)
     \<and> ab_allowance e' = (ab_allowance e)(\<lparr>ak_from = from, ak_spender = spender\<rparr> \<mapsto>
         \<lparr>av_amount = av_amount (read_allowance env from spender e) - amount,
          av_expiration_ledger = av_expiration_ledger (read_allowance env from spender e)\<rparr>)
     \<and> ab_balance e' = ab_balance e \<and> ab_admin e' = ab_admin e \<and> ab_events e' = ab_events e"
  by (auto simp: spend_allowance_def Let_def bind_eq_Some_conv checked_simps dest!: write_allowance_Some)

lemma bump_instance_fields [simp]:
  "ab_balance (bump_instance env e) = ab_balance e" "ab_allowance (bump_instance env e) = ab_allowance e"
  "ab_allowance_live (bump_instance env e) = ab_allowance_live e"
  "ab_admin (bump_instance env e) = ab_admin e" "ab_events (bump_instance env e) = ab_events e"
  "bal a (bump_instance env e) = bal a e"
  "read_allowance env' from spender (bump_instance env e) = read_allowance env' from spender e"
  by (simp_all add: bump_instance_def bal_def read_allowance_def temporary_get_def Let_def
      cong: if_cong option.case_cong)

lemma emit_fields [simp]:
  "ab_balance (emit ev e) = ab_balance e" "ab_allowance (emit ev e) = ab_allowance e"
  "ab_allowance_live (emit ev e) = ab_allowance_live e"
  "ab_admin (emit ev e) = ab_admin e" "ab_events (emit ev e) = ab_events e @ [ev]" "bal a (emit ev e) = bal a e"
  by (simp_all add: emit_def bal_def)

section \<open>What the entry points do\<close>

lemma ab_mint_Some:
  assumes "ab_mint env to amount e = Some e'"
  shows "authorized env to" and "0 \<le> amount" and "in_i128 (bal to e + amount)"
    and "ab_balance e' = (ab_balance e)(to \<mapsto> bal to e + amount)"
    and "ab_events e' = ab_events e @ [Minted to to amount]" and "ab_allowance e' = ab_allowance e"
  using assms
  by (auto simp: ab_mint_def check_nonnegative_amount_def Let_def bind_eq_Some_conv dest!: receive_balance_Some)

lemma ab_transfer_Some:
  assumes "ab_transfer env from to amount e = Some e'"
  shows "authorized env from" and "0 \<le> amount" and "amount \<le> bal from e"
    and "bal a e' = bal a e - (if a = from then amount else 0) + (if a = to then amount else 0)"
    and "ab_events e' = ab_events e @ [Transferred from to amount]" and "ab_allowance e' = ab_allowance e"
    and "in_i128 (bal from e - amount)" and "in_i128 (bal to e + (if from = to then 0 else amount))"
  using assms
  by (auto simp: ab_transfer_def check_nonnegative_amount_def Let_def bind_eq_Some_conv bal_def
      dest!: receive_balance_Some spend_balance_Some split: if_splits)

lemma ab_transfer_from_Some:
  assumes "ab_transfer_from env spender from to amount e = Some e'"
  shows "authorized env spender" and "0 \<le> amount" and "amount \<le> bal from e"
    and "amount \<le> av_amount (read_allowance env from spender e)"
    and "bal a e' = bal a e - (if a = from then amount else 0) + (if a = to then amount else 0)"
    and "ab_events e' = ab_events e @ [Transferred from to amount]"
    and "ab_allowance e' = (ab_allowance e)(\<lparr>ak_from = from, ak_spender = spender\<rparr> \<mapsto>
         \<lparr>av_amount = av_amount (read_allowance env from spender e) - amount,
          av_expiration_ledger = av_expiration_ledger (read_allowance env from spender e)\<rparr>)"
    and "in_i128 (bal from e - amount)" and "in_i128 (bal to e + (if from = to then 0 else amount))"
  using assms
  by (auto simp: ab_transfer_from_def check_nonnegative_amount_def Let_def bind_eq_Some_conv bal_def
      dest!: receive_balance_Some spend_balance_Some spend_allowance_Some split: if_splits)

lemma ab_burn_Some:
  assumes "ab_burn env from amount e = Some e'"
  shows "authorized env from" and "0 \<le> amount" and "amount \<le> bal from e"
    and "ab_balance e' = (ab_balance e)(from \<mapsto> bal from e - amount)"
    and "ab_events e' = ab_events e @ [Burned from amount]" and "in_i128 (bal from e - amount)"
  using assms
  by (auto simp: ab_burn_def check_nonnegative_amount_def Let_def bind_eq_Some_conv bal_def
      dest!: spend_balance_Some)

lemma ab_burn_from_Some:
  assumes "ab_burn_from env spender from amount e = Some e'"
  shows "authorized env spender" and "0 \<le> amount" and "amount \<le> bal from e"
    and "amount \<le> av_amount (read_allowance env from spender e)"
    and "ab_balance e' = (ab_balance e)(from \<mapsto> bal from e - amount)"
    and "ab_events e' = ab_events e @ [Burned from amount]" and "in_i128 (bal from e - amount)"
  using assms
  by (auto simp: ab_burn_from_def check_nonnegative_amount_def Let_def bind_eq_Some_conv bal_def
      dest!: spend_balance_Some spend_allowance_Some)

lemma ab_others_Some:
  "ab_approve env from spender amount exp e = Some e' \<Longrightarrow> authorized env from \<and> 0 \<le> amount
     \<and> ab_balance e' = ab_balance e \<and> ab_events e' = ab_events e @ [Approved from spender amount exp]"
  "ab_set_admin env a e = Some e' \<Longrightarrow> (\<exists>admin. ab_admin e = Some admin \<and> authorized env admin
     \<and> ab_admin e' = Some a \<and> ab_balance e' = ab_balance e \<and> ab_events e' = ab_events e @ [AdminSet admin a])"
  "ab_initialize a dec nm sy e = Some e' \<Longrightarrow> ab_admin e = None \<and> ab_admin e' = Some a
     \<and> ab_balance e' = ab_balance e \<and> ab_events e' = ab_events e"
  by (auto simp: ab_approve_def ab_set_admin_def ab_initialize_def check_nonnegative_amount_def Let_def
      has_administrator_def read_administrator_def write_administrator_def write_metadata_def
      bind_eq_Some_conv dest!: write_allowance_Some)

section \<open>Histories of the token\<close>

datatype ab_call =
    AB_initialize address u32 string string
  | AB_mint address i128
  | AB_set_admin address
  | AB_approve address address i128 u32
  | AB_transfer address address i128
  | AB_transfer_from address address address i128
  | AB_burn address i128
  | AB_burn_from address address i128

fun ab_exec :: "'w env \<Rightarrow> ab_call \<Rightarrow> abundance \<Rightarrow> abundance option" where
  "ab_exec env (AB_initialize a dec nm sy) e = ab_initialize a dec nm sy e"
| "ab_exec env (AB_mint to amount) e = ab_mint env to amount e"
| "ab_exec env (AB_set_admin a) e = ab_set_admin env a e"
| "ab_exec env (AB_approve from spender amount exp) e = ab_approve env from spender amount exp e"
| "ab_exec env (AB_transfer from to amount) e = ab_transfer env from to amount e"
| "ab_exec env (AB_transfer_from spender from to amount) e = ab_transfer_from env spender from to amount e"
| "ab_exec env (AB_burn from amount) e = ab_burn env from amount e"
| "ab_exec env (AB_burn_from spender from amount) e = ab_burn_from env spender from amount e"

text \<open>A call that traps leaves no trace.\<close>

fun ab_run :: "('w env \<times> ab_call) list \<Rightarrow> abundance \<Rightarrow> abundance" where
  "ab_run [] e = e"
| "ab_run ((env, c) # calls) e = ab_run calls (case ab_exec env c e of Some e' \<Rightarrow> e' | None \<Rightarrow> e)"

definition ab_empty :: abundance where
  "ab_empty = \<lparr>ab_admin = None, ab_metadata = None, ab_allowance = Map.empty, ab_balance = Map.empty,
     ab_instance_live = 0, ab_allowance_live = (\<lambda>_. 0), ab_balance_live = (\<lambda>_. 0), ab_events = []\<rparr>"

fun issued :: "token_event \<Rightarrow> int" where
  "issued (Minted admin to amount) = amount"
| "issued (Burned from amount) = - amount"
| "issued ev = 0"

definition ab_supply :: "abundance \<Rightarrow> int" where
  "ab_supply e = (\<Sum>a\<in>UNIV. bal a e)"

definition ab_inv :: "abundance \<Rightarrow> bool" where
  "ab_inv e \<longleftrightarrow> (\<forall>a. 0 \<le> bal a e \<and> in_i128 (bal a e)) \<and> ab_supply e = (\<Sum>ev\<leftarrow>ab_events e. issued ev)"

lemma supply_point:
  assumes "ab_balance e' = (ab_balance e)(a \<mapsto> x)"
  shows "ab_supply e' = ab_supply e - bal a e + x"
proof -
  have "(\<Sum>y\<in>UNIV. bal y e') = (\<Sum>y\<in>UNIV. bal y e) - bal a e + bal a e'"
    by (rule sum_point_change) (simp add: bal_def assms)
  then show ?thesis by (simp add: ab_supply_def bal_def assms)
qed

lemma supply_moved:
  assumes "\<And>a. bal a e' = bal a e - (if a = from then amount else 0) + (if a = to then amount else 0)"
  shows "ab_supply e' = ab_supply e"
  by (simp add: ab_supply_def assms sum.distrib sum_subtractf)

lemma ab_inv_moved:
  assumes "ab_inv e" and "\<And>a. bal a e' = bal a e - (if a = from then amount else 0) + (if a = to then amount else 0)"
    and "amount \<le> bal from e" and "0 \<le> amount" and "in_i128 (bal from e - amount)"
    and "in_i128 (bal to e + (if from = to then 0 else amount))"
    and "ab_events e' = ab_events e @ [Transferred from to amount]"
  shows "ab_inv e'"
  using assms supply_moved [OF assms(2)] by (auto simp: ab_inv_def split: if_splits)

lemma ab_inv_point:
  assumes "ab_inv e" and "ab_balance e' = (ab_balance e)(a \<mapsto> bal a e + d)"
    and "0 \<le> bal a e + d" and "in_i128 (bal a e + d)"
    and "ab_events e' = ab_events e @ [ev]" and "issued ev = d"
  shows "ab_inv e'"
  using assms supply_point [OF assms(2)] by (auto simp: ab_inv_def bal_def split: if_splits)

lemma ab_inv_same:
  assumes "ab_inv e" and "ab_balance e' = ab_balance e" and "ab_events e' = ab_events e @ evs"
    and "(\<Sum>ev\<leftarrow>evs. issued ev) = 0"
  shows "ab_inv e'"
  using assms by (simp add: ab_inv_def ab_supply_def bal_def)

lemma ab_inv_exec:
  assumes inv: "ab_inv e" and run: "ab_exec env c e = Some e'"
  shows "ab_inv e'"
proof (cases c)
  case (AB_initialize a dec nm sy)
  then show ?thesis using run ab_others_Some(3) by (intro ab_inv_same [OF inv, of _ "[]"]) auto
next
  case (AB_mint to amount)
  with run have m: "ab_mint env to amount e = Some e'" by simp
  note ab_mint_Some [OF m]
  then show ?thesis
    using inv by (intro ab_inv_point [OF inv, of _ to amount]) (auto simp: ab_inv_def)
next
  case (AB_set_admin a)
  with run show ?thesis using ab_others_Some(2) [of env a e e'] by (auto intro: ab_inv_same [OF inv])
next
  case (AB_approve "from" spender amount exp)
  with run show ?thesis using ab_others_Some(1) [of env "from" spender amount exp e e'] by (auto intro: ab_inv_same [OF inv])
next
  case (AB_transfer "from" to amount)
  with run have t: "ab_transfer env from to amount e = Some e'" by simp
  show ?thesis by (rule ab_inv_moved [OF inv]) (rule ab_transfer_Some [OF t])+
next
  case (AB_transfer_from spender "from" to amount)
  with run have t: "ab_transfer_from env spender from to amount e = Some e'" by simp
  show ?thesis by (rule ab_inv_moved [OF inv]) (rule ab_transfer_from_Some [OF t])+
next
  case (AB_burn "from" amount)
  with run have b: "ab_burn env from amount e = Some e'" by simp
  note ab_burn_Some [OF b]
  then show ?thesis by (intro ab_inv_point [OF inv, of _ "from" "- amount"]) auto
next
  case (AB_burn_from spender "from" amount)
  with run have b: "ab_burn_from env spender from amount e = Some e'" by simp
  note ab_burn_from_Some [OF b]
  then show ?thesis by (intro ab_inv_point [OF inv, of _ "from" "- amount"]) auto
qed

lemma ab_inv_run: "ab_inv e \<Longrightarrow> ab_inv (ab_run calls e)"
proof (induction calls e rule: ab_run.induct)
  case (2 env c calls e)
  then show ?case using ab_inv_exec by (cases "ab_exec env c e") auto
qed simp

lemma ab_inv_empty: "ab_inv ab_empty"
  by (simp add: ab_inv_def ab_empty_def ab_supply_def bal_def)

section \<open>The token interface on this token\<close>

type_synonym ab_world = "address \<rightharpoonup> abundance"

definition ab_client_transfer ::
    "'w env \<Rightarrow> address \<Rightarrow> address \<Rightarrow> address \<Rightarrow> i128 \<Rightarrow> ab_world \<Rightarrow> ab_world option" where
  "ab_client_transfer env t from to amount w = do {
     e \<leftarrow> w t;
     e' \<leftarrow> ab_transfer (callee_env env t) from to amount e;
     Some (w(t \<mapsto> e'))
   }"

definition ab_client_balance :: "address \<Rightarrow> address \<Rightarrow> ab_world \<Rightarrow> i128" where
  "ab_client_balance t a w = (case w t of Some e \<Rightarrow> bal a e | None \<Rightarrow> 0)"

definition ab_live :: "'w env \<Rightarrow> address \<Rightarrow> address \<Rightarrow> ab_world \<Rightarrow> bool" where
  "ab_live env t cc w \<longleftrightarrow> (\<exists>e. w t = Some e \<and> ab_inv e) \<and> authorized (callee_env env t) cc"

lemma ab_client_transfer_Some:
  "ab_client_transfer env t from to amount w = Some w' \<longleftrightarrow>
     (\<exists>e e'. w t = Some e \<and> ab_transfer (callee_env env t) from to amount e = Some e' \<and> w' = w(t \<mapsto> e'))"
  by (auto simp: ab_client_transfer_def bind_eq_Some_conv)

lemma ab_transfer_goes:
  assumes "authorized env from" and "0 \<le> amount" and "amount \<le> bal from e" and "in_i128 (bal from e)"
    and "in_i128 (bal to e + amount)"
  shows "\<exists>e'. ab_transfer env from to amount e = Some e'"
proof -
  have "in_i128 (bal from e - amount)" using assms by (intro in_i128_diff)
  then obtain e1 where e1: "spend_balance env from amount (bump_instance env e) = Some e1"
    using assms(3) spend_balance_None [of env "from" amount "bump_instance env e"]
    by (cases "spend_balance env from amount (bump_instance env e)") auto
  have "bal to e1 + amount = bal to e + (if from = to then 0 else amount)"
    using spend_balance_Some [OF e1] by (auto simp: bal_def)
  with assms obtain e2 where "receive_balance env to amount e1 = Some e2"
    using receive_balance_None [of env to amount e1]
    by (cases "receive_balance env to amount e1") (auto split: if_splits)
  with e1 assms show ?thesis by (simp add: ab_transfer_def check_nonnegative_amount_def ensure_def Let_def)
qed

interpretation abundance: live_token "ab_client_transfer env" ab_client_balance "ab_live env"
  for env :: "'w env"
proof (unfold_locales, goal_cases)
  case (1 t "from" to amt w w')
  then show ?case by (auto simp: ab_client_transfer_Some dest: ab_transfer_Some(2))
next
  case (2 t "from" to amt w w')
  then show ?case by (auto simp: ab_client_transfer_Some ab_client_balance_def dest: ab_transfer_Some(3))
next
  case (3 t "from" to amt w w' a)
  then show ?case
    by (auto simp: ab_client_transfer_Some ab_client_balance_def dest!: ab_transfer_Some(4) [where a = a])
next
  case (4 t cc w amt to)
  then obtain e where e: "w t = Some e" "ab_inv e" and auth: "authorized (callee_env env t) cc"
    by (auto simp: ab_live_def)
  with 4 ab_transfer_goes [OF auth 4(2), of e to] show ?case
    by (auto simp: ab_client_transfer_Some ab_client_balance_def ab_inv_def)
next
  case (5 t cc w "from" to amt w')
  then show ?case
    using ab_inv_exec [of _ "callee_env env t" "AB_transfer from to amt"]
    by (auto simp: ab_client_transfer_Some ab_live_def)
qed

end
