(* ===== verification/TrustFlow_On_Abundance.thy ===== *)
theory TrustFlow_On_Abundance
  imports TrustFlow_Progress Abundance
begin

text \<open>
  The escrow contract deployed on the repository's own Abundance token: the host whose token
  client runs \<open>contracts/abundance\<close> satisfies \<open>hosted\<close>, so everything proved of the escrow
  contract holds of the two contracts together, and the escrow contract keeps the token's own
  invariant.
\<close>

definition on_abundance :: "ab_world env \<Rightarrow> ab_world env" where
  "on_abundance env = env\<lparr>token_transfer := ab_client_transfer env, token_balance := ab_client_balance\<rparr>"

lemma on_abundance_simps [simp]:
  "sequence (on_abundance env) = sequence env" "authorized (on_abundance env) = authorized env"
  "current_contract_address (on_abundance env) = current_contract_address env"
  "token_transfer (on_abundance env) = ab_client_transfer env"
  by (simp_all add: on_abundance_def)

lemma abundance_hosted:
  assumes "\<not> authorized env (current_contract_address env)"
  shows "hosted (on_abundance env) ab_client_balance (current_contract_address env)"
proof unfold_locales
  fix t "from" to amt a w w'
  assume *: "token_transfer (on_abundance env) t from to amt w = Some w'"
  show "0 \<le> amt" and "amt \<le> ab_client_balance t from w"
    and "ab_client_balance t a w' = ab_client_balance t a w - (if a = from then amt else 0) + (if a = to then amt else 0)"
    using * unfolding on_abundance_simps
    by (rule abundance.transfer_nonneg, rule abundance.transfer_covered, rule abundance.transfer_moves)
qed (simp_all add: assms)

section \<open>What the escrow contract does to the token\<close>

text \<open>The token contract at \<open>t\<close> is sound, with a given supply, administrator and allowances.\<close>

definition same_token :: "address \<Rightarrow> abundance \<Rightarrow> ab_world \<Rightarrow> bool" where
  "same_token t ab w \<longleftrightarrow> (\<exists>ab'. w t = Some ab' \<and> ab_inv ab' \<and> ab_supply ab' = ab_supply ab
     \<and> ab_admin ab' = ab_admin ab \<and> ab_metadata ab' = ab_metadata ab \<and> ab_allowance ab' = ab_allowance ab)"

lemma ab_transfer_keeps_token:
  assumes "ab_transfer env from to amount e = Some e'" and "ab_inv e"
  shows "ab_inv e' \<and> ab_supply e' = ab_supply e \<and> ab_admin e' = ab_admin e \<and> ab_metadata e' = ab_metadata e
    \<and> ab_allowance e' = ab_allowance e"
proof -
  have inv: "ab_inv e'" using ab_inv_exec [of e env "AB_transfer from to amount" e'] assms by simp
  moreover have "ab_supply e' = ab_supply e"
    using inv assms(2) ab_transfer_Some(5) [OF assms(1)] by (simp add: ab_inv_def)
  moreover have "ab_admin e' = ab_admin e \<and> ab_metadata e' = ab_metadata e"
    using assms(1)
    by (auto simp: ab_transfer_def Let_def bind_eq_Some_conv emit_def bump_instance_def spend_balance_def
        receive_balance_def read_balance_def write_balance_def bump_balance_def split: option.splits if_splits)
  ultimately show ?thesis using ab_transfer_Some(6) [OF assms(1)] by simp
qed

lemma same_token_moves:
  assumes "(token_moves (on_abundance env))\<^sup>*\<^sup>* w w'" and "same_token t ab w"
  shows "same_token t ab w'"
  using assms
proof (induction rule: rtranclp_induct)
  case (step w1 w2)
  from step.IH [OF step.prems] obtain ab1 where ab1: "w1 t = Some ab1" "ab_inv ab1" "ab_supply ab1 = ab_supply ab"
    "ab_admin ab1 = ab_admin ab" "ab_metadata ab1 = ab_metadata ab" "ab_allowance ab1 = ab_allowance ab"
    by (auto simp: same_token_def)
  from step.hyps(2) obtain u "from" to amt e e' where e: "w1 u = Some e" "w2 = w1(u \<mapsto> e')"
    "ab_transfer (callee_env env u) from to amt e = Some e'"
    by (auto simp: token_moves_def ab_client_transfer_Some)
  show ?case
  proof (cases "u = t")
    case True
    with e(1) ab1(1) have "e = ab1" by simp
    with ab_transfer_keeps_token [OF e(3)] ab1 e(2) True show ?thesis by (auto simp: same_token_def)
  next
    case False
    with ab1 e(2) show ?thesis by (simp add: same_token_def)
  qed
qed simp

text \<open>C28. The escrow contract on the Abundance token: in every state that a contract initialised once
  can reach with sound books of the token, every successful call other than a second
  \<open>initialize\<close> keeps the token's books sound (balances never negative, their sum the minted
  minus the burned amounts of its events); it never mints, burns, takes over the token or
  touches an allowance, and what the contract owes is covered by its own balance in the token,
  hence by the supply.\<close>

theorem escrow_on_abundance:
  assumes reach: "tf_reachable ab_client_balance cc (now, s)" and now: "now \<le> sequence env"
    and cc: "current_contract_address env = cc" "\<not> authorized env cc"
    and run: "exec (on_abundance env) c s = Ok s'" "\<not> reinitializes c"
    and token: "i_token s = Some token" "world s token = Some ab" "ab_inv ab"
  shows "\<exists>ab'. world s' token = Some ab' \<and> ab_inv ab' \<and> ab_supply ab' = ab_supply ab \<and> ab_admin ab' = ab_admin ab
    \<and> ab_metadata ab' = ab_metadata ab \<and> ab_allowance ab' = ab_allowance ab
    \<and> total_locked s' + total_stake s' \<le> bal cc ab' \<and> bal cc ab' \<le> (\<Sum>ev\<leftarrow>ab_events ab'. issued ev)"
proof -
  have host: "hosted (on_abundance env) ab_client_balance cc" using abundance_hosted [of env] cc by simp
  from token have "same_token token ab (world s)" by (simp add: same_token_def)
  from same_token_moves [OF exec_world [OF run(1) reachable_parts(4) [OF reach]] this] obtain ab' where
    ab': "world s' token = Some ab'" "ab_inv ab'" "ab_supply ab' = ab_supply ab" "ab_admin ab' = ab_admin ab"
      "ab_metadata ab' = ab_metadata ab" "ab_allowance ab' = ab_allowance ab"
    by (auto simp: same_token_def)
  have "tf_step ab_client_balance cc (now, s) (sequence env, s')"
    using tf_step.call [OF host _ run(2) run(1)] now by simp
  with reach have reach': "tf_reachable ab_client_balance cc (sequence env, s')" by (rule tf_reachable.step)
  have "i_token s' = Some token"
    using evolvesD(2) [OF call_evolves [OF reachable_full [OF reach] run]] token(1) by simp
  with reachable_parts(5) [OF reach'] ab'(1) have "total_locked s' + total_stake s' \<le> bal cc ab'"
    by (simp add: funds_inv_def ab_client_balance_def)
  moreover have "bal cc ab' \<le> ab_supply ab'"
    unfolding ab_supply_def using ab'(2) by (intro member_le_sum) (auto simp: ab_inv_def)
  ultimately show ?thesis using ab' by (auto simp: ab_inv_def)
qed

text \<open>Alice, with 1000 freshly minted Abundance, locks 600 for Bob.\<close>

definition bare_ab_host :: "address list \<Rightarrow> u32 \<Rightarrow> ab_world env" where
  "bare_ab_host signers now =
     \<lparr>sequence = now, timestamp = 0, authorized = (\<lambda>a. a \<in> set signers \<and> a \<noteq> escrow_contract),
      current_contract_address = escrow_contract, sha256 = sample_hash, host_bump = standard_bump,
      host_new_ttl = (\<lambda>seq. saturating_add seq 4095),
      token_transfer = (\<lambda>_ _ _ _ _. None), token_balance = (\<lambda>_ _ _. 0)\<rparr>"

definition minted :: abundance where
  "minted = ab_run [(bare_ab_host [owner] 10, AB_initialize owner 7 ''Abundance'' ''ABN''),
     (bare_ab_host [alice] 20, AB_mint alice 1000)] ab_empty"

definition ab_deployed :: "ab_world trustflow" where
  "ab_deployed = (case initialize (on_abundance (bare_ab_host [owner] 30)) owner usdc 1000 (empty_storage [usdc \<mapsto> minted]) of
     Ok (u, s) \<Rightarrow> s | _ \<Rightarrow> empty_storage Map.empty)"

theorem escrow_on_abundance_witness:
  "\<exists>s' ab'. exec (on_abundance (bare_ab_host [alice] 40)) (Call_create_escrow alice bob 600) ab_deployed = Ok s'
     \<and> world s' usdc = Some ab' \<and> ab_inv ab' \<and> ab_supply ab' = ab_supply minted
     \<and> total_locked s' + total_stake s' \<le> bal escrow_contract ab'"
proof -
  have inv: "ab_inv minted" unfolding minted_def by (rule ab_inv_run [OF ab_inv_empty])
  have "\<exists>s. initialize (on_abundance (bare_ab_host [owner] 30)) owner usdc 1000 (empty_storage [usdc \<mapsto> minted]) = Ok ((), s)"
    by (simp add: initialize_Ok bare_ab_host_def cast_defs)
  then obtain s where s: "initialize (on_abundance (bare_ab_host [owner] 30)) owner usdc 1000 (empty_storage [usdc \<mapsto> minted]) = Ok ((), s)"
    by blast
  then have dep: "ab_deployed = s" by (simp add: ab_deployed_def)
  have "0 \<le> ab_client_balance usdc escrow_contract [usdc \<mapsto> minted]"
    using inv by (simp add: ab_client_balance_def ab_inv_def)
  from tf_reachable.deploy [where tb = ab_client_balance, OF this s]
  have reach: "tf_reachable ab_client_balance escrow_contract (30, ab_deployed)" by (simp add: dep bare_ab_host_def)
  have tok: "i_token ab_deployed = Some usdc" "world ab_deployed usdc = Some minted"
    using s by (simp_all add: dep initialize_Ok storage_defs empty_storage_def)
  have bals: "bal alice minted = 1000" "bal escrow_contract minted = 0" by code_simp+
  have "\<exists>e. ab_transfer (callee_env (bare_ab_host [alice] 40) usdc) alice escrow_contract 600 minted = Some e"
    by (rule ab_transfer_goes; insert bals; simp add: callee_env_def bare_ab_host_def cast_defs in_i128_def)
  then obtain w where w: "ab_client_transfer (bare_ab_host [alice] 40) usdc alice escrow_contract 600 (world ab_deployed) = Some w"
    using tok(2) by (auto simp: ab_client_transfer_def)
  have "i_treasury ab_deployed \<noteq> None" "i_escrow_counter ab_deployed = Some 0" "i_paused ab_deployed \<noteq> Some True"
    using s by (auto simp: dep initialize_Ok storage_defs empty_storage_def)
  with tok(1) w obtain s' where run: "exec (on_abundance (bare_ab_host [alice] 40)) (Call_create_escrow alice bob 600) ab_deployed = Ok s'"
    by (auto simp: exec_def create_escrow_def outcome_run storage_defs Let_def snapshot_fee_config_def checked_add_word_def
        in_i128_def bare_ab_host_def cast_defs state_of_def)
  have env: "30 \<le> sequence (bare_ab_host [alice] 40)" "current_contract_address (bare_ab_host [alice] 40) = escrow_contract"
    "\<not> authorized (bare_ab_host [alice] 40) escrow_contract" by (simp_all add: bare_ab_host_def)
  from escrow_on_abundance [OF reach env run _ tok inv] run show ?thesis by auto
qed

end
