(* ===== verification/Token_Properties.thy ===== *)
theory Token_Properties
  imports Abundance
begin

text \<open>
  The guarantees of the repository's two tokens: where their supply comes from, who can lower a
  balance, what an allowance permits and for how long, and that both move balances the same
  way.
\<close>

section \<open>The mock token\<close>

text \<open>The mock token's supply: it grows only by the administrator's mint, by exactly the minted
  amount; a transfer, which its sender authorises, conserves it and moves the amount from a
  balance that covers it; and no balance becomes negative.\<close>

lemma mock_token_supply:
  assumes "mock_wf e"
  shows "(mock_mint env to amount e = Some e' \<longrightarrow> mock_supply e' = mock_supply e + amount \<and> 0 \<le> amount
        \<and> (\<exists>admin. mt_admin e = Some admin \<and> authorized env admin) \<and> mock_wf e')
    \<and> (mock_transfer env from to amount e = Some e' \<longrightarrow> mock_supply e' = mock_supply e
        \<and> authorized env from \<and> 0 \<le> amount \<and> amount \<le> mock_balance from e \<and> mock_wf e'
        \<and> (\<forall>a. mock_balance a e' = mock_balance a e - (if a = from then amount else 0) + (if a = to then amount else 0)))"
proof (intro conjI impI)
  assume m: "mock_mint env to amount e = Some e'"
  show "mock_supply e' = mock_supply e + amount" and "mock_wf e'"
    by (rule mock_mint_supply [OF m], rule mock_wf_preserved(2) [OF assms m])
  from m show "0 \<le> amount" and "\<exists>admin. mt_admin e = Some admin \<and> authorized env admin"
    by (simp_all add: mock_mint_Some)
next
  assume t: "mock_transfer env from to amount e = Some e'"
  show "mock_supply e' = mock_supply e" and "mock_wf e'"
    by (rule mock_transfer_supply [OF t], rule mock_wf_preserved(1) [OF assms t])
  from t show "authorized env from" and "0 \<le> amount" and "amount \<le> mock_balance from e"
    by (simp_all add: mock_transfer_Some)
  show "\<forall>a. mock_balance a e' = mock_balance a e - (if a = from then amount else 0) + (if a = to then amount else 0)"
    using mock_transfer_balance [OF t] by blast
qed

definition sample_host :: "address list \<Rightarrow> u32 \<Rightarrow> unit env" where
  "sample_host signers now =
     \<lparr>sequence = now, timestamp = 0, authorized = (\<lambda>a. a \<in> set signers),
      current_contract_address = Contract 9, sha256 = (\<lambda>bs. bs), host_bump = standard_bump,
      host_new_ttl = (\<lambda>seq. saturating_add seq 4095),
      token_transfer = (\<lambda>_ _ _ _ _. None), token_balance = (\<lambda>_ _ _. 0)\<rparr>"

section \<open>The Abundance token\<close>

text \<open>C29. The supply of Abundance is what its event log says: after any sequence of calls by anyone,
  failed ones included, the balances add up to the minted minus the burned amounts of the
  published events, and no balance is negative or out of range.\<close>

theorem abundance_supply:
  "(\<Sum>a\<in>UNIV. bal a (ab_run calls ab_empty)) = (\<Sum>ev\<leftarrow>ab_events (ab_run calls ab_empty). issued ev)
   \<and> (\<forall>a. 0 \<le> bal a (ab_run calls ab_empty) \<and> in_i128 (bal a (ab_run calls ab_empty)))"
  using ab_inv_run [OF ab_inv_empty, of calls] by (simp add: ab_inv_def ab_supply_def)

text \<open>The mock token with the same balances.\<close>

definition as_mock :: "abundance \<Rightarrow> mock_token" where
  "as_mock e = \<lparr>mt_admin = ab_admin e, mt_metadata = None, mt_balance = ab_balance e\<rparr>"

lemma ab_transfer_same_check:
  assumes "authorized env from" and "0 \<le> amount"
  shows "ab_transfer env from to amount e = None \<longleftrightarrow> mock_transfer env from to amount (as_mock e) = None"
proof -
  let ?e0 = "bump_instance env e"
  have "(\<exists>m. mock_transfer env from to amount (as_mock e) = Some m) \<longleftrightarrow> amount \<le> bal from e
      \<and> in_i128 (bal from e - amount) \<and> in_i128 (bal to e + (if from = to then 0 else amount))"
    unfolding mock_transfer_Some using assms by (simp add: as_mock_def mock_balance_def bal_def)
  then have mock: "mock_transfer env from to amount (as_mock e) = None \<longleftrightarrow> \<not> (amount \<le> bal from e
      \<and> in_i128 (bal from e - amount) \<and> in_i128 (bal to e + (if from = to then 0 else amount)))"
    by (metis not_None_eq)
  show ?thesis
  proof (cases "spend_balance env from amount ?e0")
    case None
    then show ?thesis using assms spend_balance_None [of env "from" amount ?e0] mock
      by (auto simp: ab_transfer_def check_nonnegative_amount_def ensure_def Let_def)
  next
    case (Some e1)
    have "bal to e1 + amount = bal to e + (if from = to then 0 else amount)"
      using spend_balance_Some [OF Some] by (auto simp: bal_def)
    then show ?thesis
      using assms Some spend_balance_Some [OF Some] receive_balance_None [of env to amount e1] mock
      by (cases "receive_balance env to amount e1")
        (auto simp: ab_transfer_def check_nonnegative_amount_def ensure_def Let_def)
  qed
qed

text \<open>C30. Two implementations, one behaviour: on the same balances, a transfer of Abundance succeeds
  exactly when the mock token's does, and leaves the same balances for everybody.\<close>

theorem abundance_transfers_like_mock:
  "map_option (\<lambda>e'. \<lambda>a. bal a e') (ab_transfer env from to amount e) =
   map_option (\<lambda>m. \<lambda>a. mock_balance a m) (mock_transfer env from to amount (as_mock e))"
proof (cases "authorized env from \<and> 0 \<le> amount")
  case False
  then show ?thesis
    by (auto simp: ab_transfer_def mock_transfer_def check_nonnegative_amount_def ensure_def)
next
  case True
  note same = ab_transfer_same_check [OF conjunct1 [OF True] conjunct2 [OF True], of to e]
  show ?thesis
  proof (cases "ab_transfer env from to amount e")
    case None
    with same show ?thesis by simp
  next
    case (Some e')
    with same obtain m where m: "mock_transfer env from to amount (as_mock e) = Some m" by auto
    have "bal a e' = mock_balance a m" for a
      using ab_transfer_Some(4) [OF Some, of a] mock_transfer_balance [OF m, of a]
      by (simp add: as_mock_def mock_balance_def bal_def)
    then show ?thesis by (simp add: Some m fun_eq_iff)
  qed
qed

text \<open>C31. An allowance is worth its amount until its expiration ledger and nothing after it: after
  an \<open>approve\<close> the spender sees exactly the approved amount at every ledger up to the
  expiration, and zero at every later one, whatever lifetime the host gave the entry.\<close>

theorem allowance_lasts_until_expiration:
  assumes "ttl_host (host_bump env)" and run: "ab_approve env from spender amount exp e = Some e'"
    and "0 < amount" and "sequence env \<le> sequence env'"
  shows "av_amount (read_allowance env' from spender e') = (if sequence env' \<le> exp then amount else 0)"
proof -
  let ?key = "\<lparr>ak_from = from, ak_spender = spender\<rparr>"
  from run obtain e1 where w: "write_allowance env from spender amount exp (bump_instance env e) = Some e1"
    and e': "e' = emit (Approved from spender amount exp) e1"
    by (auto simp: ab_approve_def Let_def bind_eq_Some_conv)
  from write_allowance_Some [OF w] \<open>0 < amount\<close> have le: "sequence env \<le> exp"
    and entry: "ab_allowance e1 ?key = Some \<lparr>av_amount = amount, av_expiration_ledger = exp\<rparr>" by auto
  let ?n = "exp - sequence env"
  have sum: "uint (sequence env) + uint ?n = uint exp"
    using le by (simp add: uint_sub_if' word_le_def)
  from w \<open>0 < amount\<close> le obtain l where "ab_allowance_live e1 ?key = host_bump env ?n ?n (sequence env) l"
    by (auto simp: write_allowance_def Let_def bind_eq_Some_conv checked_sub_word_def not_less split: if_splits)
  then have "uint exp \<le> uint (ab_allowance_live e1 ?key)"
  proof (cases "uint l \<le> uint (sequence env) + uint ?n")
    case True
    from ttl_host.bump_due [OF assms(1) this, of ?n] \<open>ab_allowance_live e1 ?key = _\<close> sum uint_lt2p [of exp]
    show ?thesis by (simp add: uint_saturating_add)
  next
    case False
    with ttl_host.bump_not_due [OF assms(1), of "sequence env" ?n l ?n] \<open>ab_allowance_live e1 ?key = _\<close> sum
    show ?thesis by simp
  qed
  then have live: "\<not> ab_allowance_live e1 ?key < sequence env'" if "sequence env' \<le> exp"
    using that by (simp add: word_le_def word_less_def)
  show ?thesis
    using live entry by (auto simp: e' read_allowance_def temporary_get_def Let_def split: option.split)
qed

definition approved :: "abundance option" where
  "approved = ab_approve (sample_host [Account 1] 10) (Account 1) (Account 2) 500 1000 ab_empty"

theorem allowance_lasts_until_expiration_witness:
  "\<exists>e'. approved = Some e' \<and> av_amount (read_allowance (sample_host [] 1000) (Account 1) (Account 2) e') = 500
     \<and> av_amount (read_allowance (sample_host [] 1001) (Account 1) (Account 2) e') = 0"
proof -
  have host: "ttl_host (host_bump (sample_host [Account 1] 10))"
    by (simp add: sample_host_def standard.ttl_host_axioms)
  have "approved \<noteq> None"
    by (simp add: approved_def ab_approve_def sample_host_def check_nonnegative_amount_def ensure_def Let_def
        write_allowance_def checked_sub_word_def)
  then obtain e' where "approved = Some e'" by blast
  with allowance_lasts_until_expiration [OF host this [unfolded approved_def], of "sample_host [] 1000"]
    allowance_lasts_until_expiration [OF host this [unfolded approved_def], of "sample_host [] 1001"]
  show ?thesis by (auto simp: sample_host_def)
qed

text \<open>C32. A balance shrinks only with its owner's consent: a call that lowers a balance is
  authorised by its owner, or by a spender whose unexpired allowance covers the amount, and
  then the allowance shrinks by exactly that amount.\<close>

theorem abundance_balance_authority:
  assumes run: "ab_exec env c e = Some e'" and less: "bal a e' < bal a e"
  shows "authorized env a
    \<or> (\<exists>spender amount. (c = AB_burn_from spender a amount \<or> (\<exists>to. c = AB_transfer_from spender a to amount))
        \<and> authorized env spender \<and> amount = bal a e - bal a e'
        \<and> amount \<le> av_amount (read_allowance env a spender e)
        \<and> ab_allowance e' \<lparr>ak_from = a, ak_spender = spender\<rparr> =
            Some \<lparr>av_amount = av_amount (read_allowance env a spender e) - amount,
                  av_expiration_ledger = av_expiration_ledger (read_allowance env a spender e)\<rparr>)"
proof -
  have same: "bal a e' = bal a e" if "ab_balance e' = ab_balance e" using that by (simp add: bal_def)
  show ?thesis
  proof (cases c)
    case (AB_transfer_from spender "from" to amount)
    with run have t: "ab_transfer_from env spender from to amount e = Some e'" by simp
    from less ab_transfer_from_Some(5) [OF t, of a] ab_transfer_from_Some(2) [OF t] have "a = from" "a \<noteq> to"
      by (auto split: if_splits)
    with ab_transfer_from_Some [OF t] AB_transfer_from show ?thesis by auto
  next
    case (AB_burn_from spender "from" amount)
    with run have b: "ab_burn_from env spender from amount e = Some e'" by simp
    from less ab_burn_from_Some(5) [OF b] have "a = from" by (auto simp: bal_def split: if_splits)
    moreover have "ab_allowance e' = (ab_allowance e)(\<lparr>ak_from = from, ak_spender = spender\<rparr> \<mapsto>
         \<lparr>av_amount = av_amount (read_allowance env from spender e) - amount,
          av_expiration_ledger = av_expiration_ledger (read_allowance env from spender e)\<rparr>)"
      using b by (auto simp: ab_burn_from_def Let_def bind_eq_Some_conv dest!: spend_balance_Some spend_allowance_Some)
    ultimately show ?thesis using ab_burn_from_Some [OF b] AB_burn_from by (auto simp: bal_def)
  next
    case (AB_mint to amount)
    with run less ab_mint_Some [of env to amount e e'] show ?thesis by (auto simp: bal_def split: if_splits)
  next
    case (AB_transfer "from" to amount)
    with run less ab_transfer_Some(1,2) [of env "from" to amount e e'] ab_transfer_Some(4) [of env "from" to amount e e' a]
    show ?thesis by (auto split: if_splits)
  next
    case (AB_burn "from" amount)
    with run less ab_burn_Some [of env "from" amount e e'] show ?thesis by (auto simp: bal_def split: if_splits)
  qed (use run less same ab_others_Some in fastforce)+
qed

definition funded :: abundance where
  "funded = ab_empty\<lparr>ab_balance := [Account 1 \<mapsto> 100], ab_allowance_live := (\<lambda>_. 50),
     ab_allowance := [\<lparr>ak_from = Account 1, ak_spender = Account 2\<rparr> \<mapsto> \<lparr>av_amount = 60, av_expiration_ledger = 50\<rparr>]\<rparr>"

theorem abundance_balance_authority_witness:
  "\<exists>e'. ab_exec (sample_host [Account 2] 10) (AB_burn_from (Account 2) (Account 1) 40) funded = Some e'
     \<and> bal (Account 1) e' = 60
     \<and> ab_allowance e' \<lparr>ak_from = Account 1, ak_spender = Account 2\<rparr> = Some \<lparr>av_amount = 20, av_expiration_ledger = 50\<rparr>"
proof -
  let ?x = "ab_exec (sample_host [Account 2] 10) (AB_burn_from (Account 2) (Account 1) 40) funded"
  have "(case ?x of Some e' \<Rightarrow> bal (Account 1) e' = 60 | None \<Rightarrow> False)" by code_simp
  then obtain e' where e': "?x = Some e'" "bal (Account 1) e' = 60" by (auto split: option.splits)
  have facts: "bal (Account 1) funded = 100" "\<not> authorized (sample_host [Account 2] 10) (Account 1)"
    "read_allowance (sample_host [Account 2] 10) (Account 1) (Account 2) funded
       = \<lparr>av_amount = 60, av_expiration_ledger = 50\<rparr>" by code_simp+
  from abundance_balance_authority [OF e'(1), of "Account 1"] e' facts show ?thesis by auto
qed

end
