(* ===== verification/Crowdfund.thy ===== *)
theory Crowdfund
  imports TrustFlow_System
begin

text \<open>
  The crowdfunding contract, \<open>contracts/crowdfund/src\<close>: its storage, its state function of the
  clock and the token balance, deposits, withdrawals and getters. The functions panic on every
  failure, so they return an \<open>option\<close>; the arithmetic \<open>balance + amount\<close> panics on overflow.
\<close>

section \<open>Storage\<close>

datatype state = Running | Success | Expired

fun state_code :: "state \<Rightarrow> u32" where
  "state_code Running = 0"
| "state_code Success = 1"
| "state_code Expired = 2"

datatype cf_event =
    Pledged_amount_changed i128
  | Target_reached i128 i128

record 'w crowdfund =
  cf_deadline :: "u64 option"
  cf_recipient :: "address option"
  cf_started :: "u64 option"
  cf_target :: "i128 option"
  cf_token :: "address option"
  cf_user :: "address \<rightharpoonup> i128"
  cf_recipient_claimed :: "bool option"
  cf_events :: "cf_event list"
  cf_world :: 'w

section \<open>Reading the storage\<close>

definition get_ledger_timestamp :: "'w env \<Rightarrow> u64" where
  "get_ledger_timestamp env = timestamp env"

definition get_recipient :: "'w crowdfund \<Rightarrow> address option" where
  "get_recipient e = cf_recipient e"

definition get_recipient_claimed :: "'w crowdfund \<Rightarrow> bool option" where
  "get_recipient_claimed e = cf_recipient_claimed e"

definition get_deadline :: "'w crowdfund \<Rightarrow> u64 option" where
  "get_deadline e = cf_deadline e"

definition get_started :: "'w crowdfund \<Rightarrow> u64 option" where
  "get_started e = cf_started e"

definition get_target_amount :: "'w crowdfund \<Rightarrow> i128 option" where
  "get_target_amount e = cf_target e"

definition get_token :: "'w crowdfund \<Rightarrow> address option" where
  "get_token e = cf_token e"

definition get_user_deposited :: "address \<Rightarrow> 'w crowdfund \<Rightarrow> i128" where
  "get_user_deposited user e = unwrap_or (cf_user e user) 0"

definition get_balance :: "'w env \<Rightarrow> address \<Rightarrow> 'w crowdfund \<Rightarrow> i128" where
  "get_balance env contract_id e =
     token_balance env contract_id (current_contract_address env) (cf_world e)"

definition target_reached :: "'w env \<Rightarrow> address \<Rightarrow> 'w crowdfund \<Rightarrow> bool option" where
  "target_reached env token_id e = do {
     target_amount \<leftarrow> get_target_amount e;
     let bal = get_balance env token_id e;
     Some (bal \<ge> target_amount)
   }"

text \<open>\<open>a || b\<close> evaluates the right side only when the left side is false.\<close>

definition get_state :: "'w env \<Rightarrow> 'w crowdfund \<Rightarrow> state option" where
  "get_state env e = do {
     deadline \<leftarrow> get_deadline e;
     token_id \<leftarrow> get_token e;
     let current_timestamp = get_ledger_timestamp env;
     if current_timestamp < deadline then Some Running
     else do {
       claimed \<leftarrow> get_recipient_claimed e;
       reached \<leftarrow> (if claimed then Some True else target_reached env token_id e);
       Some (if reached then Success else Expired)
     }
   }"

definition set_user_deposited :: "address \<Rightarrow> i128 \<Rightarrow> 'w crowdfund \<Rightarrow> 'w crowdfund" where
  "set_user_deposited user amount e = e\<lparr>cf_user := (cf_user e)(user \<mapsto> amount)\<rparr>"

definition set_recipient_claimed :: "'w crowdfund \<Rightarrow> 'w crowdfund" where
  "set_recipient_claimed e = e\<lparr>cf_recipient_claimed := Some True\<rparr>"

definition cf_transfer :: "'w env \<Rightarrow> address \<Rightarrow> i128 \<Rightarrow> 'w crowdfund \<Rightarrow> 'w crowdfund option" where
  "cf_transfer env to amount e = do {
     token_contract_id \<leftarrow> get_token e;
     w \<leftarrow> token_transfer env token_contract_id (current_contract_address env) to amount (cf_world e);
     Some (e\<lparr>cf_world := w\<rparr>)
   }"

definition cf_emit :: "cf_event \<Rightarrow> 'w crowdfund \<Rightarrow> 'w crowdfund" where
  "cf_emit ev e = e\<lparr>cf_events := cf_events e @ [ev]\<rparr>"

section \<open>Entry points\<close>

definition cf_initialize ::
    "'w env \<Rightarrow> address \<Rightarrow> u64 \<Rightarrow> i128 \<Rightarrow> address \<Rightarrow> 'w crowdfund \<Rightarrow> 'w crowdfund option" where
  "cf_initialize env recipient deadline target_amount token e = do {
     ensure (cf_recipient e = None);
     Some (e\<lparr>cf_recipient := Some recipient, cf_recipient_claimed := Some False,
       cf_started := Some (get_ledger_timestamp env), cf_deadline := Some deadline,
       cf_target := Some target_amount, cf_token := Some token\<rparr>)
   }"

definition cf_recipient_entry :: "'w crowdfund \<Rightarrow> address option" where
  "cf_recipient_entry e = get_recipient e"

definition cf_deadline_entry :: "'w crowdfund \<Rightarrow> u64 option" where
  "cf_deadline_entry e = get_deadline e"

definition cf_started_entry :: "'w crowdfund \<Rightarrow> u64 option" where
  "cf_started_entry e = get_started e"

definition cf_target_entry :: "'w crowdfund \<Rightarrow> i128 option" where
  "cf_target_entry e = get_target_amount e"

definition cf_token_entry :: "'w crowdfund \<Rightarrow> address option" where
  "cf_token_entry e = get_token e"

definition cf_state :: "'w env \<Rightarrow> 'w crowdfund \<Rightarrow> u32 option" where
  "cf_state env e = map_option state_code (get_state env e)"

definition cf_balance :: "'w env \<Rightarrow> address \<Rightarrow> 'w crowdfund \<Rightarrow> i128 option" where
  "cf_balance env user e = do {
     recipient \<leftarrow> get_recipient e;
     st \<leftarrow> get_state env e;
     if st = Success
     then if user \<noteq> recipient then Some 0
          else do { token_id \<leftarrow> get_token e; Some (get_balance env token_id e) }
     else Some (get_user_deposited user e)
   }"

definition deposit :: "'w env \<Rightarrow> address \<Rightarrow> i128 \<Rightarrow> 'w crowdfund \<Rightarrow> 'w crowdfund option" where
  "deposit env user amount e = do {
     ensure (authorized env user);
     ensure (amount > 0);
     st \<leftarrow> get_state env e;
     ensure (st = Running);
     token_id \<leftarrow> get_token e;
     current_target_met \<leftarrow> target_reached env token_id e;
     recipient \<leftarrow> get_recipient e;
     ensure (user \<noteq> recipient);
     let bal = get_user_deposited user e;
     new_balance \<leftarrow> checked_add bal amount;
     let e = set_user_deposited user new_balance e;
     w \<leftarrow> token_transfer env token_id user (current_contract_address env) amount (cf_world e);
     let e = e\<lparr>cf_world := w\<rparr>;
     let contract_balance = get_balance env token_id e;
     let e = cf_emit (Pledged_amount_changed contract_balance) e;
     reached \<leftarrow> (if \<not> current_target_met then target_reached env token_id e else Some False);
     if reached
     then do {
       target \<leftarrow> get_target_amount e;
       Some (cf_emit (Target_reached contract_balance target) e)
     }
     else Some e
   }"

definition withdraw :: "'w env \<Rightarrow> address \<Rightarrow> 'w crowdfund \<Rightarrow> 'w crowdfund option" where
  "withdraw env to e = do {
     st \<leftarrow> get_state env e;
     recipient \<leftarrow> get_recipient e;
     case st of
       Running \<Rightarrow> None
     | Success \<Rightarrow> do {
         ensure (to = recipient);
         claimed \<leftarrow> get_recipient_claimed e;
         ensure (\<not> claimed);
         token \<leftarrow> get_token e;
         e \<leftarrow> cf_transfer env recipient (get_balance env token e) e;
         Some (set_recipient_claimed e)
       }
     | Expired \<Rightarrow> do {
         ensure (to \<noteq> recipient);
         let bal = get_user_deposited to e;
         let e = set_user_deposited to 0 e;
         e \<leftarrow> cf_transfer env to bal e;
         token_id \<leftarrow> get_token e;
         let contract_balance = get_balance env token_id e;
         Some (cf_emit (Pledged_amount_changed contract_balance) e)
       }
   }"

section \<open>What a successful call does\<close>

lemma get_state_Some:
  "get_state env e = Some st \<Longrightarrow> \<exists>deadline token. cf_deadline e = Some deadline \<and> cf_token e = Some token
     \<and> (st = Running \<longleftrightarrow> timestamp env < deadline)
     \<and> (st = Expired \<longrightarrow> cf_recipient_claimed e = Some False
          \<and> (\<exists>target. cf_target e = Some target \<and> get_balance env token e < target))
     \<and> (st = Success \<longrightarrow> cf_recipient_claimed e = Some True
          \<or> (cf_recipient_claimed e = Some False
             \<and> (\<exists>target. cf_target e = Some target \<and> target \<le> get_balance env token e)))"
  by (auto simp: get_state_def get_deadline_def get_token_def get_ledger_timestamp_def
      get_recipient_claimed_def target_reached_def get_target_amount_def Let_def bind_eq_Some_conv
      split: if_splits)

lemma deposit_Some:
  assumes "deposit env user amount e = Some e'"
  shows "\<exists>token w evs recipient. authorized env user \<and> 0 < amount \<and> get_state env e = Some Running
    \<and> cf_token e = Some token \<and> cf_recipient e = Some recipient \<and> user \<noteq> recipient
    \<and> in_i128 (get_user_deposited user e + amount)
    \<and> token_transfer env token user (current_contract_address env) amount (cf_world e) = Some w
    \<and> e' = e\<lparr>cf_user := (cf_user e)(user \<mapsto> get_user_deposited user e + amount), cf_world := w,
           cf_events := evs\<rparr>"
  using assms
  by (auto simp: deposit_def get_token_def get_recipient_def Let_def bind_eq_Some_conv checked_simps
      set_user_deposited_def cf_emit_def split: if_splits)

lemma withdraw_Some:
  assumes "withdraw env to e = Some e'"
  obtains (claim) token w where "get_state env e = Some Success" and "cf_recipient e = Some to"
    and "cf_recipient_claimed e = Some False" and "cf_token e = Some token"
    and "token_transfer env token (current_contract_address env) to (get_balance env token e) (cf_world e) = Some w"
    and "e' = e\<lparr>cf_world := w, cf_recipient_claimed := Some True\<rparr>"
  | (refund) token w evs recipient where "get_state env e = Some Expired" and "cf_recipient e = Some recipient"
    and "to \<noteq> recipient" and "cf_token e = Some token"
    and "token_transfer env token (current_contract_address env) to (get_user_deposited to e) (cf_world e) = Some w"
    and "e' = e\<lparr>cf_user := (cf_user e)(to \<mapsto> 0), cf_world := w, cf_events := evs\<rparr>"
proof -
  from assms obtain st recipient where st: "get_state env e = Some st" and r: "cf_recipient e = Some recipient"
    by (auto simp: withdraw_def get_recipient_def bind_eq_Some_conv)
  note defs = withdraw_def get_recipient_def get_recipient_claimed_def cf_transfer_def get_token_def
    set_recipient_claimed_def set_user_deposited_def cf_emit_def Let_def bind_eq_Some_conv
  show thesis
  proof (cases st)
    case Running
    with assms st r show thesis by (simp add: defs)
  next
    case Success
    with assms st r show thesis by (auto simp: defs intro: claim)
  next
    case Expired
    with assms st r show thesis by (auto simp: defs intro: refund)
  qed
qed

end
