(* ===== verification/Crowdfund_System.thy ===== *)
theory Crowdfund_System
  imports Crowdfund
begin

text \<open>
  The crowdfunding contract as a state machine: its calls, the reachable configurations of a
  campaign (deployed once, then any calls by anyone at any later time, interleaved with what
  the rest of the world does to the token), and the invariant that covers the deposits.
\<close>

section \<open>Calls and steps\<close>

text \<open>The host of a campaign: besides moving tokens, the client reads the balances \<open>tb\<close>.\<close>

locale crowd_host = hosted env tb cc
  for env :: "'w env" and tb :: "address \<Rightarrow> address \<Rightarrow> 'w \<Rightarrow> i128" and cc :: address +
  assumes reads: "token_balance env = tb"
begin

lemma own_balance: "get_balance env t e = tb t cc (cf_world e)"
  by (simp add: get_balance_def reads runs_at)

lemma own_address: "current_contract_address env = cc"
  by (rule runs_at)

lemma client: "token_client (token_transfer env) tb"
  by (rule token_client_axioms)

lemma signer_not_self: "authorized env a \<Longrightarrow> a \<noteq> cc"
  by (rule authorized_other)

end

datatype cf_call =
    CF_initialize address u64 i128 address
  | CF_deposit address i128
  | CF_withdraw address

fun cf_exec :: "'w env \<Rightarrow> cf_call \<Rightarrow> 'w crowdfund \<Rightarrow> 'w crowdfund option" where
  "cf_exec env (CF_initialize recipient deadline target token) e =
     (if in_i128 target then cf_initialize env recipient deadline target token e else None)"
| "cf_exec env (CF_deposit user amount) e = (if in_i128 amount then deposit env user amount e else None)"
| "cf_exec env (CF_withdraw to) e = withdraw env to e"

definition cf_empty :: "'w \<Rightarrow> 'w crowdfund" where
  "cf_empty w = \<lparr>cf_deadline = None, cf_recipient = None, cf_started = None, cf_target = None,
     cf_token = None, cf_user = Map.empty, cf_recipient_claimed = None, cf_events = [], cf_world = w\<rparr>"

text \<open>A configuration is the time of the last ledger and the contract's state.\<close>

inductive cf_step ::
    "(address \<Rightarrow> address \<Rightarrow> 'w \<Rightarrow> i128) \<Rightarrow> address \<Rightarrow> u64 \<times> 'w crowdfund \<Rightarrow> u64 \<times> 'w crowdfund \<Rightarrow> bool"
  for tb cc where
  call: "\<lbrakk>crowd_host env tb cc; now \<le> timestamp env; cf_exec env c e = Some e'\<rbrakk>
    \<Longrightarrow> cf_step tb cc (now, e) (timestamp env, e')"
| time: "now \<le> later \<Longrightarrow> cf_step tb cc (now, e) (later, e)"
| outside: "\<lbrakk>\<And>t. cf_token e = Some t \<Longrightarrow> tb t cc (cf_world e) \<le> tb t cc w\<rbrakk>
    \<Longrightarrow> cf_step tb cc (now, e) (now, e\<lparr>cf_world := w\<rparr>)"

inductive cf_reachable ::
    "(address \<Rightarrow> address \<Rightarrow> 'w \<Rightarrow> i128) \<Rightarrow> address \<Rightarrow> u64 \<times> 'w crowdfund \<Rightarrow> bool"
  for tb cc where
  deploy: "\<lbrakk>0 \<le> tb token cc w; cf_initialize env recipient deadline target token (cf_empty w) = Some e\<rbrakk>
    \<Longrightarrow> cf_reachable tb cc (timestamp env, e)"
| step: "\<lbrakk>cf_reachable tb cc c; cf_step tb cc c c'\<rbrakk> \<Longrightarrow> cf_reachable tb cc c'"

abbreviation cf_later where
  "cf_later tb cc \<equiv> (cf_step tb cc)\<^sup>*\<^sup>*"

lemma later_reachable: "cf_later tb cc c c' \<Longrightarrow> cf_reachable tb cc c \<Longrightarrow> cf_reachable tb cc c'"
  by (induction rule: rtranclp_induct) (auto intro: cf_reachable.step)

section \<open>The invariant\<close>

definition total_deposited :: "'w crowdfund \<Rightarrow> int" where
  "total_deposited e = (\<Sum>a\<in>UNIV. get_user_deposited a e)"

definition cf_inv ::
    "(address \<Rightarrow> address \<Rightarrow> 'w \<Rightarrow> i128) \<Rightarrow> address \<Rightarrow> u64 \<Rightarrow> 'w crowdfund \<Rightarrow> bool" where
  "cf_inv tb cc now e \<longleftrightarrow> (\<exists>deadline recipient token target claimed.
       cf_deadline e = Some deadline \<and> cf_recipient e = Some recipient \<and> cf_token e = Some token
     \<and> cf_target e = Some target \<and> cf_recipient_claimed e = Some claimed
     \<and> (claimed \<longrightarrow> deadline \<le> now)
     \<and> (\<not> claimed \<longrightarrow> total_deposited e \<le> tb token cc (cf_world e))
     \<and> (\<forall>a. 0 \<le> get_user_deposited a e \<and> in_i128 (get_user_deposited a e))
     \<and> get_user_deposited recipient e = 0)"

lemma get_user_deposited_update [simp]:
  "get_user_deposited a (e\<lparr>cf_user := (cf_user e)(b \<mapsto> x), cf_world := w, cf_events := evs\<rparr>) =
     (if a = b then x else get_user_deposited a e)"
  "get_user_deposited a (e\<lparr>cf_world := w, cf_recipient_claimed := cl\<rparr>) = get_user_deposited a e"
  "get_user_deposited a (e\<lparr>cf_world := w\<rparr>) = get_user_deposited a e"
  by (simp_all add: get_user_deposited_def)

lemma total_deposited_update [simp]:
  "total_deposited (e\<lparr>cf_user := (cf_user e)(b \<mapsto> x), cf_world := w, cf_events := evs\<rparr>) =
     total_deposited e + x - get_user_deposited b e"
  "total_deposited (e\<lparr>cf_world := w, cf_recipient_claimed := cl\<rparr>) = total_deposited e"
  "total_deposited (e\<lparr>cf_world := w\<rparr>) = total_deposited e"
  unfolding total_deposited_def get_user_deposited_update
  by (simp_all add: sum.remove [of UNIV b "\<lambda>a. get_user_deposited a e"] sum.remove [of UNIV b])

lemma total_deposited_ge:
  "(\<And>a. 0 \<le> get_user_deposited a e) \<Longrightarrow> get_user_deposited a e \<le> total_deposited e"
  unfolding total_deposited_def by (rule member_le_sum) auto

lemma initialize_inv:
  assumes "0 \<le> tb token cc w" and "cf_initialize env recipient deadline target token (cf_empty w) = Some e"
  shows "cf_inv tb cc (timestamp env) e"
  using assms
  by (auto simp: cf_initialize_def cf_empty_def cf_inv_def total_deposited_def get_user_deposited_def
      bind_eq_Some_conv)

lemma cf_inv_later: "cf_inv tb cc now e \<Longrightarrow> now \<le> later \<Longrightarrow> cf_inv tb cc later e"
  unfolding cf_inv_def by (blast intro: order_trans)

lemma cf_inv_world:
  assumes "cf_inv tb cc now e" and "\<And>t. cf_token e = Some t \<Longrightarrow> tb t cc (cf_world e) \<le> tb t cc w"
  shows "cf_inv tb cc now (e\<lparr>cf_world := w\<rparr>)"
proof -
  from assms(1) obtain token where "cf_token e = Some token" by (auto simp: cf_inv_def)
  with assms(2) [OF this] assms(1) show ?thesis by (auto simp: cf_inv_def)
qed

context crowd_host
begin

text \<open>What the two calls do, on this host.\<close>

lemma deposit_effect:
  assumes "deposit env user amount e = Some e'"
  shows "\<exists>token w evs recipient deadline. authorized env user \<and> 0 < amount
    \<and> cf_deadline e = Some deadline \<and> timestamp env < deadline
    \<and> cf_token e = Some token \<and> cf_recipient e = Some recipient \<and> user \<noteq> recipient
    \<and> in_i128 (get_user_deposited user e + amount)
    \<and> (\<forall>a. tb token a w = tb token a (cf_world e) - (if a = user then amount else 0) + (if a = cc then amount else 0))
    \<and> tb token cc w = tb token cc (cf_world e) + amount
    \<and> e' = e\<lparr>cf_user := (cf_user e)(user \<mapsto> get_user_deposited user e + amount), cf_world := w,
           cf_events := evs\<rparr>"
proof -
  from deposit_Some [OF assms] obtain token w evs recipient where d: "authorized env user" "0 < amount"
    "get_state env e = Some Running" "cf_token e = Some token" "cf_recipient e = Some recipient"
    "user \<noteq> recipient" "in_i128 (get_user_deposited user e + amount)"
    and t: "token_transfer env token user (current_contract_address env) amount (cf_world e) = Some w"
    and e': "e' = e\<lparr>cf_user := (cf_user e)(user \<mapsto> get_user_deposited user e + amount), cf_world := w,
           cf_events := evs\<rparr>" by blast
  have moves: "\<forall>a. tb token a w = tb token a (cf_world e) - (if a = user then amount else 0) + (if a = cc then amount else 0)"
    using transfer_moves [OF t] by (simp add: runs_at)
  moreover from receives [OF t d(1)] have "tb token cc w = tb token cc (cf_world e) + amount" .
  moreover from get_state_Some [OF d(3)] obtain deadline
    where "cf_deadline e = Some deadline" "timestamp env < deadline" by auto
  ultimately show ?thesis using d e' by blast
qed

lemma withdraw_effect:
  assumes "withdraw env to e = Some e'"
  obtains (claim) token deadline w where "cf_recipient e = Some to" and "cf_recipient_claimed e = Some False"
    and "cf_token e = Some token" and "cf_deadline e = Some deadline" and "deadline \<le> timestamp env"
    and "get_state env e = Some Success"
    and "\<And>a. tb token a w = tb token a (cf_world e)
      - (if a = cc then tb token cc (cf_world e) else 0) + (if a = to then tb token cc (cf_world e) else 0)"
    and "e' = e\<lparr>cf_world := w, cf_recipient_claimed := Some True\<rparr>"
  | (refund) token deadline w evs recipient where "cf_recipient e = Some recipient" and "to \<noteq> recipient"
    and "cf_recipient_claimed e = Some False" and "cf_token e = Some token"
    and "cf_deadline e = Some deadline" and "deadline \<le> timestamp env" and "get_state env e = Some Expired"
    and "0 \<le> get_user_deposited to e"
    and "\<And>a. tb token a w = tb token a (cf_world e)
      - (if a = cc then get_user_deposited to e else 0) + (if a = to then get_user_deposited to e else 0)"
    and "e' = e\<lparr>cf_user := (cf_user e)(to \<mapsto> 0), cf_world := w, cf_events := evs\<rparr>"
  using assms
proof (cases rule: withdraw_Some)
  case (claim token w)
  from get_state_Some [OF claim(1)] obtain deadline where "cf_deadline e = Some deadline" "\<not> timestamp env < deadline"
    by auto
  with claim transfer_moves [OF claim(5)] show thesis
    by (intro that(1) [of token deadline w]) (auto simp: runs_at own_balance)
next
  case (refund token w evs recipient)
  from get_state_Some [OF refund(1)] obtain deadline where "cf_deadline e = Some deadline"
    "\<not> timestamp env < deadline" "cf_recipient_claimed e = Some False" by auto
  with refund transfer_moves [OF refund(5)] transfer_nonneg [OF refund(5)] show thesis
    by (intro that(2) [of recipient token deadline w evs]) (auto simp: runs_at)
qed

lemma exec_keeps:
  assumes inv: "cf_inv tb cc now e" and le: "now \<le> timestamp env" and run: "cf_exec env c e = Some e'"
  shows "cf_inv tb cc (timestamp env) e'"
proof (cases c)
  case (CF_initialize recipient deadline target token)
  with run inv show ?thesis by (auto simp: cf_initialize_def cf_inv_def bind_eq_Some_conv split: if_splits)
next
  case (CF_deposit user amount)
  with run have "deposit env user amount e = Some e'" by (auto split: if_splits)
  from deposit_effect [OF this] obtain token w evs recipient deadline where d: "0 < amount"
    "cf_deadline e = Some deadline" "timestamp env < deadline" "cf_token e = Some token"
    "cf_recipient e = Some recipient" "user \<noteq> recipient" "in_i128 (get_user_deposited user e + amount)"
    "tb token cc w = tb token cc (cf_world e) + amount"
    "e' = e\<lparr>cf_user := (cf_user e)(user \<mapsto> get_user_deposited user e + amount), cf_world := w, cf_events := evs\<rparr>"
    by blast
  from inv d le show ?thesis by (auto simp: cf_inv_def)
next
  case (CF_withdraw to)
  with run have "withdraw env to e = Some e'" by simp
  then show ?thesis
  proof (cases rule: withdraw_effect)
    case (claim token deadline w)
    from inv claim(1-5,8) show ?thesis by (auto simp: cf_inv_def)
  next
    case (refund token deadline w evs recipient)
    from inv refund(1-5) obtain target where old: "cf_target e = Some target"
      "total_deposited e \<le> tb token cc (cf_world e)" "get_user_deposited recipient e = 0"
      "\<And>a. 0 \<le> get_user_deposited a e \<and> in_i128 (get_user_deposited a e)"
      by (auto simp: cf_inv_def)
    have "total_deposited e' \<le> tb token cc (cf_world e')"
      using old(2) refund(8) by (auto simp: refund(9,10))
    moreover have "0 \<le> get_user_deposited a e' \<and> in_i128 (get_user_deposited a e')" for a
      using old(4) by (simp add: refund(10))
    ultimately show ?thesis
      using refund(1-6) old(1,3) unfolding cf_inv_def by (simp add: refund(10)) blast
  qed
qed

end

lemma reachable_cf_inv:
  assumes "cf_reachable tb cc (now, e)"
  shows "cf_inv tb cc now e"
proof -
  have "case c of (now, e) \<Rightarrow> cf_inv tb cc now e" if "cf_reachable tb cc c" for c
    using that
  proof (induction rule: cf_reachable.induct)
    case (deploy token w env recipient deadline target e)
    then show ?case by (simp add: initialize_inv)
  next
    case (step c c')
    from step.hyps(2) step.IH show ?case
    proof (cases rule: cf_step.cases)
      case (call env now c e e')
      with step.IH show ?thesis by (simp add: crowd_host.exec_keeps)
    next
      case (time now later e)
      with step.IH show ?thesis by (simp add: cf_inv_later)
    next
      case (outside e w now)
      with step.IH show ?thesis by (simp add: cf_inv_world)
    qed
  qed
  from this [OF assms] show ?thesis by simp
qed

end
