(* ===== verification/Crowdfund_Properties.thy ===== *)
theory Crowdfund_Properties
  imports Crowdfund_System TrustFlow_Progress
begin

text \<open>
  The guarantees of a campaign: the deposits stay covered, the phases are fixed by the clock,
  an expired campaign refunds every donor, a successful one pays its recipient once; and the
  one way in which an expired campaign can stop refunding.
\<close>

section \<open>Frames and phases\<close>

text \<open>What no call of a deployed campaign changes.\<close>

definition cf_terms ::
    "'w crowdfund \<Rightarrow> address option \<times> address option \<times> u64 option \<times> u64 option \<times> i128 option" where
  "cf_terms e = (cf_recipient e, cf_token e, cf_deadline e, cf_started e, cf_target e)"

lemma withdraw_expired:
  assumes "get_state env e = Some Expired" and "cf_recipient e = Some recipient" and "to \<noteq> recipient"
    and "cf_token e = Some token"
    and "token_transfer env token (current_contract_address env) to (get_user_deposited to e) (cf_world e) = Some w"
  shows "\<exists>evs. withdraw env to e = Some (e\<lparr>cf_user := (cf_user e)(to \<mapsto> 0), cf_world := w, cf_events := evs\<rparr>)"
  using assms
  by (simp add: withdraw_def get_recipient_def cf_transfer_def get_token_def set_user_deposited_def cf_emit_def
      Let_def ensure_def) (rule exI, rule refl)

lemma withdraw_success:
  assumes "get_state env e = Some Success" and "cf_recipient e = Some recipient"
    and "cf_recipient_claimed e = Some False" and "cf_token e = Some token"
    and "token_transfer env token (current_contract_address env) recipient (get_balance env token e) (cf_world e) = Some w"
  shows "withdraw env recipient e = Some (e\<lparr>cf_world := w, cf_recipient_claimed := Some True\<rparr>)"
  using assms
  by (simp add: withdraw_def get_recipient_def cf_transfer_def get_token_def set_recipient_claimed_def
      get_recipient_claimed_def Let_def ensure_def)

lemma withdraw_success_others:
  assumes "get_state env e = Some Success" and "cf_recipient e = Some recipient"
    and "to \<noteq> recipient \<or> cf_recipient_claimed e = Some True"
  shows "withdraw env to e = None"
  using assms
  by (auto simp: withdraw_def get_recipient_def get_recipient_claimed_def ensure_def)

text \<open>From one configuration to a later one.\<close>

definition cf_evolves :: "u64 \<Rightarrow> 'w crowdfund \<Rightarrow> u64 \<Rightarrow> 'w crowdfund \<Rightarrow> bool" where
  "cf_evolves now e now' e' \<longleftrightarrow> now \<le> now' \<and> cf_terms e' = cf_terms e \<and>
     (\<forall>deadline. cf_deadline e = Some deadline \<longrightarrow>
        (now' < deadline \<longrightarrow> (\<forall>a. get_user_deposited a e \<le> get_user_deposited a e'))
      \<and> (deadline \<le> now \<longrightarrow> (\<forall>a. get_user_deposited a e' \<in> {get_user_deposited a e, 0}))
      \<and> (deadline \<le> now \<longrightarrow> cf_recipient_claimed e = Some True \<longrightarrow> (\<exists>w. e' = e\<lparr>cf_world := w\<rparr>)))"

lemma cf_evolves_refl: "cf_evolves now e now e"
proof -
  have "e = e\<lparr>cf_world := cf_world e\<rparr>" by simp
  then show ?thesis unfolding cf_evolves_def by blast
qed

lemma cf_evolves_trans:
  assumes "cf_evolves now e now' e'" and "cf_evolves now' e' now'' e''"
  shows "cf_evolves now e now'' e''"
proof -
  from assms have terms: "cf_terms e' = cf_terms e" "cf_terms e'' = cf_terms e" and le: "now \<le> now'" "now' \<le> now''"
    by (auto simp: cf_evolves_def)
  then have dl: "cf_deadline e' = cf_deadline e" by (simp add: cf_terms_def)
  note one = assms(1) [unfolded cf_evolves_def, THEN conjunct2, THEN conjunct2, rule_format]
    and two = assms(2) [unfolded cf_evolves_def dl, THEN conjunct2, THEN conjunct2, rule_format]
  show ?thesis
    unfolding cf_evolves_def
  proof (intro conjI allI impI)
    show "now \<le> now''" and "cf_terms e'' = cf_terms e" using terms le by auto
  next
    fix deadline a assume "cf_deadline e = Some deadline" "now'' < deadline"
    with one [of deadline] two [of deadline] le show "get_user_deposited a e \<le> get_user_deposited a e''"
      by (meson order_trans le_less_trans)
  next
    fix deadline a assume "cf_deadline e = Some deadline" "deadline \<le> now"
    with one [of deadline] two [of deadline] le
    have "get_user_deposited a e' \<in> {get_user_deposited a e, 0}" "get_user_deposited a e'' \<in> {get_user_deposited a e', 0}"
      by (meson order_trans)+
    then show "get_user_deposited a e'' \<in> {get_user_deposited a e, 0}" by auto
  next
    fix deadline assume d: "cf_deadline e = Some deadline" "deadline \<le> now" "cf_recipient_claimed e = Some True"
    with one [of deadline] obtain w where e': "e' = e\<lparr>cf_world := w\<rparr>" by blast
    with d two [of deadline] le obtain w' where "e'' = e'\<lparr>cf_world := w'\<rparr>"
      by (auto intro: order_trans)
    with e' show "\<exists>w. e'' = e\<lparr>cf_world := w\<rparr>" by auto
  qed
qed

text \<open>A claimed campaign is in its success phase for good.\<close>

lemma claimed_state:
  "cf_inv tb cc now e \<Longrightarrow> cf_recipient_claimed e = Some True \<Longrightarrow> now \<le> timestamp env \<Longrightarrow>
     get_state env e = Some Success"
proof -
  assume "cf_inv tb cc now e" and claimed: "cf_recipient_claimed e = Some True" and "now \<le> timestamp env"
  then obtain deadline token where "cf_deadline e = Some deadline" "cf_token e = Some token"
    and "\<not> timestamp env < deadline" by (auto simp: cf_inv_def not_less intro: order_trans)
  with claimed show ?thesis
    by (simp add: get_state_def get_deadline_def get_token_def get_ledger_timestamp_def get_recipient_claimed_def)
qed

lemma deposit_running: "get_state env e \<noteq> Some Running \<Longrightarrow> deposit env user amount e = None"
  using deposit_Some by (cases "deposit env user amount e") blast+

lemma exec_evolves:
  assumes "crowd_host env tb cc" and inv: "cf_inv tb cc now e" and le: "now \<le> timestamp env"
    and run: "cf_exec env c e = Some e'"
  shows "cf_evolves now e (timestamp env) e'"
proof (cases c)
  case (CF_initialize recipient deadline target token)
  with run inv show ?thesis by (auto simp: cf_initialize_def cf_inv_def bind_eq_Some_conv split: if_splits)
next
  case (CF_deposit user amount)
  with run have d: "deposit env user amount e = Some e'" by (auto split: if_splits)
  from crowd_host.deposit_effect [OF assms(1) this] obtain w evs deadline where d: "0 < amount"
    "cf_deadline e = Some deadline" "timestamp env < deadline"
    and e': "e' = e\<lparr>cf_user := (cf_user e)(user \<mapsto> get_user_deposited user e + amount), cf_world := w, cf_events := evs\<rparr>"
    by blast
  have "\<not> deadline \<le> now" using le d(3) by simp
  with d le show ?thesis by (simp add: cf_evolves_def e' cf_terms_def)
next
  case (CF_withdraw to)
  with run have "withdraw env to e = Some e'" by simp
  then show ?thesis
  proof (cases rule: crowd_host.withdraw_effect [OF assms(1), consumes 1, case_names claim refund])
    case (claim token deadline w)
    from claim(1-5,8) le show ?thesis by (auto simp: cf_evolves_def cf_terms_def)
  next
    case (refund token deadline w evs recipient)
    from refund(1-6,10) le show ?thesis by (auto simp: cf_evolves_def cf_terms_def)
  qed
qed

lemma later_evolves_cf:
  assumes "cf_later tb cc (now, e) (now', e')" and "cf_reachable tb cc (now, e)"
  shows "cf_evolves now e now' e'"
  using assms(1)
proof (induction rule: rtranclp_induct2)
  case refl
  then show ?case by (rule cf_evolves_refl)
next
  case (step now1 e1 now2 e2)
  from later_reachable [OF step.hyps(1) assms(2)] have inv: "cf_inv tb cc now1 e1" by (rule reachable_cf_inv)
  from step.hyps(2) have "cf_evolves now1 e1 now2 e2"
  proof (cases rule: cf_step.cases)
    case (call env c)
    with inv show ?thesis by (auto intro: exec_evolves)
  next
    case time
    with cf_evolves_refl [of now2 e1] show ?thesis by (auto simp: cf_evolves_def)
  next
    case (outside w)
    then show ?thesis by (auto simp: cf_evolves_def cf_terms_def)
  qed
  with step.IH show ?case by (rule cf_evolves_trans)
qed

section \<open>A concrete campaign\<close>

text \<open>The host with the repository's mock token, at a time instead of a ledger.\<close>

definition crowd_env :: "address \<Rightarrow> address list \<Rightarrow> u64 \<Rightarrow> mock_world env" where
  "crowd_env cc signers t = (mock_host cc signers 0)\<lparr>timestamp := t\<rparr>"

lemma crowd_env_simps [simp]:
  "timestamp (crowd_env cc signers t) = t"
  "authorized (crowd_env cc signers t) = authorized (mock_host cc signers 0)"
  "current_contract_address (crowd_env cc signers t) = cc"
  "token_balance (crowd_env cc signers t) = mock_client_balance"
  "token_transfer (crowd_env cc signers t) = token_transfer (mock_host cc signers 0)"
  by (simp_all add: crowd_env_def) (simp add: mock_host_def with_mock_token_def)

interpretation mock_crowd: crowd_host "crowd_env cc signers t" mock_client_balance cc
  for cc :: address and signers :: "address list" and t :: u64
proof unfold_locales
  fix token "from" to amt a w w'
  assume "token_transfer (crowd_env cc signers t) token from to amt w = Some w'"
  then have *: "token_transfer (mock_host cc signers 0) token from to amt w = Some w'" unfolding crowd_env_simps .
  show "0 \<le> amt" by (rule mock_hosted.transfer_nonneg [OF *])
  show "amt \<le> mock_client_balance token from w" by (rule mock_hosted.transfer_covered [OF *])
  show "mock_client_balance token a w' = mock_client_balance token a w
      - (if a = from then amt else 0) + (if a = to then amt else 0)" by (rule mock_hosted.transfer_moves [OF *])
qed simp_all

fun cf_play ::
    "address \<Rightarrow> (u64 \<times> address list \<times> cf_call) list \<Rightarrow> u64 \<Rightarrow> mock_world crowdfund \<Rightarrow> (u64 \<times> mock_world crowdfund) option" where
  "cf_play cc [] now e = Some (now, e)"
| "cf_play cc ((t, signers, c) # rest) now e =
     (if t < now then None
      else case cf_exec (crowd_env cc signers t) c e of Some e' \<Rightarrow> cf_play cc rest t e' | None \<Rightarrow> None)"

lemma cf_play_later:
  "cf_play cc script now e = Some (later, e') \<Longrightarrow> cf_later mock_client_balance cc (now, e) (later, e')"
proof (induction script arbitrary: now e)
  case Nil
  then show ?case by simp
next
  case (Cons entry script)
  obtain t signers c where entry: "entry = (t, signers, c)" by (cases entry) auto
  from Cons.prems obtain e1 where le: "now \<le> t" and run: "cf_exec (crowd_env cc signers t) c e = Some e1"
    and rest: "cf_play cc script t e1 = Some (later, e')"
    by (auto simp: entry not_less split: if_splits option.splits)
  from cf_step.call [OF mock_crowd.crowd_host_axioms _ run] le
  have "cf_step mock_client_balance cc (now, e) (t, e1)" by simp
  then show ?case using Cons.IH [OF rest] by (rule converse_rtranclp_into_rtranclp)
qed

text \<open>Bob asks for 1000 until time 100; Alice and a juror have deposited 600 and 300.\<close>

definition campaign_contract :: address where "campaign_contract = Contract 3"

definition campaign :: "mock_world crowdfund" where
  "campaign = (case cf_initialize (crowd_env campaign_contract [owner] 5) bob 100 1000 usdc (cf_empty start_world) of
     Some e \<Rightarrow> e | None \<Rightarrow> cf_empty start_world)"

definition pledged :: "u64 \<times> mock_world crowdfund" where
  "pledged = (case cf_play campaign_contract
       [(10, [alice], CF_deposit alice 600), (20, [juror1], CF_deposit juror1 300)] 5 campaign of
     Some c \<Rightarrow> c | None \<Rightarrow> (5, campaign))"

lemma campaign_reachable: "cf_reachable mock_client_balance campaign_contract (5, campaign)"
proof -
  have "0 \<le> mock_client_balance usdc campaign_contract start_world"
    by (simp add: mock_client_balance_def start_world_def mock_balance_def cast_defs campaign_contract_def)
  from cf_reachable.deploy [where tb = mock_client_balance, OF this, of "crowd_env campaign_contract [owner] 5" bob 100 1000 campaign]
  show ?thesis by (simp add: campaign_def cf_initialize_def cf_empty_def ensure_def)
qed

lemma pledged_later: "cf_later mock_client_balance campaign_contract (5, campaign) pledged"
  unfolding pledged_def
  by (auto simp del: cf_play.simps intro: cf_play_later split: option.split)

lemma pledged_reachable: "cf_reachable mock_client_balance campaign_contract (fst pledged, snd pledged)"
  using later_reachable [OF pledged_later campaign_reachable] by simp

text \<open>The mock token stays sound under the calls of a campaign.\<close>

lemma cf_exec_world: "cf_exec env c e = Some e' \<Longrightarrow> (token_moves env)\<^sup>*\<^sup>* (cf_world e) (cf_world e')"
proof (cases c)
  case (CF_initialize recipient deadline target token)
  then show "cf_exec env c e = Some e' \<Longrightarrow> ?thesis"
    by (auto simp: cf_initialize_def bind_eq_Some_conv split: if_splits)
next
  case (CF_deposit user amount)
  then show "cf_exec env c e = Some e' \<Longrightarrow> ?thesis"
    by (auto dest!: deposit_Some intro: token_moves_one split: if_splits)
next
  case (CF_withdraw to)
  then show "cf_exec env c e = Some e' \<Longrightarrow> ?thesis"
    by (auto elim!: withdraw_Some intro: token_moves_one)
qed

lemma cf_play_sound:
  "cf_play cc script now e = Some (later, e') \<Longrightarrow> sound_token tok (cf_world e) \<Longrightarrow> sound_token tok (cf_world e')"
proof (induction script arbitrary: now e)
  case Nil
  then show ?case by simp
next
  case (Cons entry script)
  obtain t signers c where entry: "entry = (t, signers, c)" by (cases entry) auto
  from Cons.prems(1) obtain e1 where run: "cf_exec (crowd_env cc signers t) c e = Some e1"
    and rest: "cf_play cc script t e1 = Some (later, e')"
    by (auto simp: entry split: if_splits option.splits)
  have "token_moves (crowd_env cc signers t) = token_moves (mock_host cc signers 0)"
    by (simp add: token_moves_def fun_eq_iff)
  with cf_exec_world [OF run] sound_token_moves [OF _ Cons.prems(2)] have "sound_token tok (cf_world e1)" by metis
  with Cons.IH [OF rest] show ?case .
qed

lemma pledged_sound: "sound_token usdc (cf_world (snd pledged))"
proof -
  have "sound_token usdc (cf_world campaign)"
    by (simp add: campaign_def cf_initialize_def cf_empty_def ensure_def sound_token_def start_world_def
        mock_wf_def mock_balance_def in_i128_def)
  with cf_play_sound show ?thesis
    unfolding pledged_def by (auto simp del: cf_play.simps split: option.split)
qed

lemma pledged_facts:
  "fst pledged = 20 \<and> get_user_deposited alice (snd pledged) = 600
   \<and> mock_client_balance usdc campaign_contract (cf_world (snd pledged)) = 900
   \<and> cf_recipient (snd pledged) = Some bob \<and> cf_token (snd pledged) = Some usdc \<and> cf_target (snd pledged) = Some 1000
   \<and> cf_recipient_claimed (snd pledged) = Some False \<and> cf_deadline (snd pledged) = Some 100"
  by code_simp

section \<open>Properties\<close>

text \<open>C33. Deposits are covered: whatever anyone calls and whenever, as long as the recipient has
  not claimed, the contract's token balance is at least the sum of all recorded deposits; no
  deposit is negative, and the recipient has none.\<close>

theorem crowdfund_covers_deposits:
  assumes "cf_reachable tb cc (now, e)"
  shows "\<exists>token recipient claimed. cf_token e = Some token \<and> cf_recipient e = Some recipient
    \<and> cf_recipient_claimed e = Some claimed
    \<and> (\<forall>a. 0 \<le> get_user_deposited a e \<and> in_i128 (get_user_deposited a e)) \<and> get_user_deposited recipient e = 0
    \<and> (\<not> claimed \<longrightarrow> (\<Sum>a\<in>UNIV. get_user_deposited a e) \<le> tb token cc (cf_world e))"
  using reachable_cf_inv [OF assms] by (auto simp: cf_inv_def total_deposited_def)

theorem crowdfund_covers_deposits_witness:
  "(\<Sum>a\<in>UNIV. get_user_deposited a (snd pledged)) \<le> 900"
  using crowdfund_covers_deposits [OF pledged_reachable] pledged_facts by auto

text \<open>After the deadline a deposit changes only by being paid back in full.\<close>

lemma paid_back_in_full:
  assumes host: "crowd_host env tb cc" and dl: "cf_deadline e = Some deadline" "deadline \<le> timestamp env"
    and inv: "cf_inv tb cc now e" and run: "cf_exec env c e = Some e'"
    and changed: "get_user_deposited a e' \<noteq> get_user_deposited a e" and token: "cf_token e = Some token"
  shows "c = CF_withdraw a \<and> get_user_deposited a e' = 0
    \<and> (\<forall>x. tb token x (cf_world e') = tb token x (cf_world e)
         - (if x = cc then get_user_deposited a e else 0) + (if x = a then get_user_deposited a e else 0))"
proof (cases c)
  case (CF_initialize recipient dead target tok)
  with run inv show ?thesis by (auto simp: cf_initialize_def cf_inv_def bind_eq_Some_conv split: if_splits)
next
  case (CF_deposit user amount)
  with run have "deposit env user amount e = Some e'" by (auto split: if_splits)
  from crowd_host.deposit_effect [OF host this] dl show ?thesis by (auto simp: not_less)
next
  case (CF_withdraw to)
  with run have "withdraw env to e = Some e'" by simp
  then show ?thesis
  proof (cases rule: crowd_host.withdraw_effect [OF host, consumes 1, case_names claim refund])
    case (claim tok dead w)
    from changed have False by (simp add: claim(8))
    then show ?thesis ..
  next
    case (refund tok dead w evs recipient)
    from changed have "a = to" by (auto simp: refund(10) split: if_splits)
    with refund(4,9) token CF_withdraw show ?thesis by (simp add: refund(10))
  qed
qed

text \<open>C36. The terms and the phases of a campaign: recipient, token, deadline, start and target never
  change; before the deadline no donor's deposit shrinks, and every accepted deposit is made
  before it, authorised by its donor and paid by exactly that amount; and from the deadline on
  a call changes a donor's deposit only by paying all of it back: it is that donor's
  withdrawal, the record drops to zero, and the recorded amount moves from the contract to the
  donor.\<close>

theorem crowdfund_phases:
  assumes "cf_reachable tb cc (now, e)" and "cf_later tb cc (now, e) (now', e')"
  shows "cf_terms e' = cf_terms e \<and> (\<exists>deadline token. cf_deadline e = Some deadline \<and> cf_token e = Some token
    \<and> (now' < deadline \<longrightarrow> (\<forall>a. get_user_deposited a e \<le> get_user_deposited a e'))
    \<and> (deadline \<le> now \<longrightarrow> (\<forall>a. get_user_deposited a e' \<in> {get_user_deposited a e, 0}))
    \<and> (\<forall>env user amount e''. crowd_host env tb cc \<longrightarrow> deposit env user amount e' = Some e'' \<longrightarrow>
         timestamp env < deadline \<and> authorized env user \<and> 0 < amount
       \<and> get_user_deposited user e'' = get_user_deposited user e' + amount
       \<and> tb token user (cf_world e'') = tb token user (cf_world e') - amount
       \<and> tb token cc (cf_world e'') = tb token cc (cf_world e') + amount)
    \<and> (\<forall>env c e'' a. crowd_host env tb cc \<longrightarrow> deadline \<le> timestamp env \<longrightarrow> cf_exec env c e' = Some e'' \<longrightarrow>
         get_user_deposited a e'' \<noteq> get_user_deposited a e' \<longrightarrow>
         c = CF_withdraw a \<and> get_user_deposited a e'' = 0
       \<and> (\<forall>x. tb token x (cf_world e'') = tb token x (cf_world e')
            - (if x = cc then get_user_deposited a e' else 0) + (if x = a then get_user_deposited a e' else 0))))"
proof -
  from later_evolves_cf [OF assms(2,1)] have ev: "cf_evolves now e now' e'" .
  then have terms: "cf_terms e' = cf_terms e" by (simp add: cf_evolves_def)
  then have same: "cf_deadline e' = cf_deadline e" "cf_token e' = cf_token e" by (simp_all add: cf_terms_def)
  from reachable_cf_inv [OF assms(1)] obtain deadline token where d: "cf_deadline e = Some deadline"
    and tok: "cf_token e = Some token" by (auto simp: cf_inv_def)
  have dep: "timestamp env < deadline \<and> authorized env user \<and> 0 < amount
       \<and> get_user_deposited user e'' = get_user_deposited user e' + amount
       \<and> tb token user (cf_world e'') = tb token user (cf_world e') - amount
       \<and> tb token cc (cf_world e'') = tb token cc (cf_world e') + amount"
    if host: "crowd_host env tb cc" and run: "deposit env user amount e' = Some e''" for env user amount e''
  proof -
    from crowd_host.deposit_effect [OF host run] obtain tk w evs dl where
      x: "authorized env user" "0 < amount" "cf_deadline e' = Some dl" "timestamp env < dl"
        "cf_token e' = Some tk" "tb tk cc w = tb tk cc (cf_world e') + amount"
      and m: "\<forall>a. tb tk a w = tb tk a (cf_world e') - (if a = user then amount else 0) + (if a = cc then amount else 0)"
      and e'': "e'' = e'\<lparr>cf_user := (cf_user e')(user \<mapsto> get_user_deposited user e' + amount), cf_world := w, cf_events := evs\<rparr>"
      by blast
    from x(3,5) same d tok have dl: "dl = deadline" and tk: "tk = token" by simp_all
    have "user \<noteq> cc" by (rule crowd_host.signer_not_self [OF host x(1)])
    with m tk have "tb token user w = tb token user (cf_world e') - amount" by simp
    with x(1,2,4,6) show ?thesis by (simp add: e'' dl tk)
  qed
  from later_reachable [OF assms(2,1)] have "cf_inv tb cc now' e'" by (rule reachable_cf_inv)
  note refund = paid_back_in_full [OF _ _ _ this]
  show ?thesis
    using ev d tok dep terms refund same unfolding cf_evolves_def by (intro conjI exI allI impI) (blast | metis)+
qed

theorem crowdfund_phases_witness:
  "cf_terms (snd pledged) = cf_terms campaign
   \<and> get_user_deposited juror1 campaign \<le> get_user_deposited juror1 (snd pledged)"
proof -
  have "cf_later mock_client_balance campaign_contract (5, campaign) (20, snd pledged)"
    using pledged_later pledged_facts by (metis prod.collapse)
  from crowdfund_phases [OF campaign_reachable this] have
    "cf_terms (snd pledged) = cf_terms campaign" and
    "\<exists>dl. cf_deadline campaign = Some dl \<and> (20 < dl \<longrightarrow>
       (\<forall>a. get_user_deposited a campaign \<le> get_user_deposited a (snd pledged)))" by blast+
  moreover have "cf_deadline campaign = Some 100"
    by (simp add: campaign_def cf_initialize_def cf_empty_def ensure_def)
  ultimately show ?thesis by simp
qed

text \<open>C34. Refunds: in an expired campaign anyone can have a donor's deposit paid back; the withdrawal
  succeeds when the token works, pays the donor exactly the recorded deposit out of the
  contract's balance, leaves every other deposit alone and the donor's at zero, and the
  getter \<open>balance\<close> announced that amount. Coverage of the deposits provides the funds.\<close>

theorem crowdfund_refund:
  assumes reach: "cf_reachable tb cc (now, e)" and host: "crowd_host env tb cc"
    and live: "live_token (token_transfer env) tb live"
    and expired: "get_state env e = Some Expired" and donor: "cf_recipient e \<noteq> Some user"
    and token: "cf_token e = Some token" "live token cc (cf_world e)"
    and room: "in_i128 (tb token user (cf_world e) + get_user_deposited user e)"
  shows "cf_balance env user e = Some (get_user_deposited user e)
    \<and> (\<exists>e'. withdraw env user e = Some e' \<and> get_user_deposited user e' = 0
      \<and> (\<forall>a. a \<noteq> user \<longrightarrow> get_user_deposited a e' = get_user_deposited a e)
      \<and> (\<forall>a. tb token a (cf_world e') = tb token a (cf_world e)
           - (if a = cc then get_user_deposited user e else 0) + (if a = user then get_user_deposited user e else 0)))"
proof -
  from get_state_Some [OF expired] have unclaimed: "cf_recipient_claimed e = Some False" by auto
  from reachable_cf_inv [OF reach] token unclaimed obtain recipient where r: "cf_recipient e = Some recipient"
    and cover: "total_deposited e \<le> tb token cc (cf_world e)" and nonneg: "\<And>a. 0 \<le> get_user_deposited a e"
    by (auto simp: cf_inv_def)
  note cc = crowd_host.own_address [OF host]
  note client = crowd_host.client [OF host]
  have "get_user_deposited user e \<le> tb token cc (cf_world e)"
    using total_deposited_ge [OF nonneg, of user] cover by simp
  from live_token.transfer_goes [OF live token(2) nonneg this room] obtain w where
    w: "token_transfer env token (current_contract_address env) user (get_user_deposited user e) (cf_world e) = Some w"
    by (auto simp: cc)
  from withdraw_expired [OF expired r _ token(1) w] donor r obtain evs where
    run: "withdraw env user e = Some (e\<lparr>cf_user := (cf_user e)(user \<mapsto> 0), cf_world := w, cf_events := evs\<rparr>)"
    by auto
  have moves: "tb token a w = tb token a (cf_world e)
      - (if a = cc then get_user_deposited user e else 0) + (if a = user then get_user_deposited user e else 0)" for a
    using token_client.transfer_moves [OF client w] by (simp add: cc)
  have "cf_balance env user e = Some (get_user_deposited user e)"
    using expired r by (simp add: cf_balance_def get_recipient_def)
  then show ?thesis by (simp add: run moves)
qed

theorem crowdfund_refund_witness:
  "\<exists>e'. withdraw (crowd_env campaign_contract [] 150) alice (snd pledged) = Some e'
     \<and> get_user_deposited alice e' = 0 \<and> mock_client_balance usdc campaign_contract (cf_world e') = 300"
proof -
  let ?env = "crowd_env campaign_contract [] 150"
  have live: "live_token (token_transfer ?env) mock_client_balance (mock_live (bare_host campaign_contract [] 0))"
    unfolding crowd_env_simps by (rule mock_host_live)
  have facts: "get_state ?env (snd pledged) = Some Expired" "cf_recipient (snd pledged) \<noteq> Some alice"
    "in_i128 (mock_client_balance usdc alice (cf_world (snd pledged)) + get_user_deposited alice (snd pledged))"
    "campaign_contract \<noteq> alice"
    by code_simp+
  from crowdfund_refund [OF pledged_reachable mock_crowd.crowd_host_axioms live facts(1,2) _
      sound_token_live [OF pledged_sound] facts(3)] pledged_facts facts(4)
  show ?thesis by auto
qed

text \<open>C35. The claim is final: a withdrawal from a successful campaign pays its recipient, and nobody
  else, the contract's whole token balance; from then on no call ever changes the contract
  again, and every deposit and every withdrawal fails. Tokens that arrive later stay there.\<close>

theorem crowdfund_claim_final:
  assumes reach: "cf_reachable tb cc (now, e)" and host: "crowd_host env tb cc" and le: "now \<le> timestamp env"
    and success: "get_state env e = Some Success" and run: "withdraw env to e = Some e'"
    and later: "cf_later tb cc (timestamp env, e') (now', e'')"
  shows "cf_recipient e = Some to \<and> cf_recipient_claimed e = Some False
    \<and> (\<exists>token. cf_token e = Some token \<and> (\<forall>a. tb token a (cf_world e') = tb token a (cf_world e)
         - (if a = cc then tb token cc (cf_world e) else 0) + (if a = to then tb token cc (cf_world e) else 0)))
    \<and> (\<exists>w. e'' = e'\<lparr>cf_world := w\<rparr>)
    \<and> (\<forall>env' user amount. now' \<le> timestamp env' \<longrightarrow>
         withdraw env' user e'' = None \<and> deposit env' user amount e'' = None)"
  using run
proof (cases rule: crowd_host.withdraw_effect [OF host, consumes 1, case_names claim refund])
  case (claim token deadline w)
  have step: "cf_step tb cc (now, e) (timestamp env, e')"
    using cf_step.call [OF host le, of "CF_withdraw to" e e'] run by simp
  have reach': "cf_reachable tb cc (timestamp env, e')" by (rule cf_reachable.step [OF reach step])
  from later_evolves_cf [OF later reach'] have ev: "cf_evolves (timestamp env) e' now' e''" .
  from claim(8) claim(4,5) ev have w: "\<exists>w. e'' = e'\<lparr>cf_world := w\<rparr>" unfolding cf_evolves_def by simp
  have inv: "cf_inv tb cc now' e''" by (rule reachable_cf_inv [OF later_reachable [OF later reach']])
  have dead: "withdraw env' user e'' = None \<and> deposit env' user amount e'' = None"
    if "now' \<le> timestamp env'" for env' user amount
  proof -
    from w claim(8) have c: "cf_recipient_claimed e'' = Some True" by auto
    have st: "get_state env' e'' = Some Success" by (rule claimed_state [OF inv c that])
    from w claim(1,8) have "cf_recipient e'' = Some to" by auto
    with withdraw_success_others [OF st this] deposit_running [of env' e''] st c show ?thesis by simp
  qed
  have "tb token a (cf_world e') = tb token a (cf_world e)
      - (if a = cc then tb token cc (cf_world e) else 0) + (if a = to then tb token cc (cf_world e) else 0)" for a
    using claim(7) by (simp add: claim(8))
  with claim(1-3) w dead show ?thesis by blast
next
  case (refund token deadline w evs recipient)
  with success show ?thesis by simp
qed

definition funded_campaign :: "u64 \<times> mock_world crowdfund" where
  "funded_campaign = (case cf_play campaign_contract
       [(10, [alice], CF_deposit alice 600), (20, [juror1], CF_deposit juror1 500)] 5 campaign of
     Some c \<Rightarrow> c | None \<Rightarrow> (5, campaign))"

theorem crowdfund_claim_final_witness:
  "\<exists>e'. withdraw (crowd_env campaign_contract [] 150) bob (snd funded_campaign) = Some e'
     \<and> mock_client_balance usdc bob (cf_world e') = 1100
     \<and> deposit (crowd_env campaign_contract [alice] 200) alice 7 e' = None
     \<and> withdraw (crowd_env campaign_contract [] 200) bob e' = None"
proof -
  let ?env = "crowd_env campaign_contract [] 150"
  have "cf_later mock_client_balance campaign_contract (5, campaign) funded_campaign"
    unfolding funded_campaign_def by (auto simp del: cf_play.simps intro: cf_play_later split: option.split)
  from later_reachable [OF this campaign_reachable]
  have reach: "cf_reachable mock_client_balance campaign_contract (fst funded_campaign, snd funded_campaign)" by simp
  have facts: "fst funded_campaign \<le> 150" "get_state ?env (snd funded_campaign) = Some Success"
    "(case withdraw ?env bob (snd funded_campaign) of Some e' \<Rightarrow>
       mock_client_balance usdc bob (cf_world e') = 1100 | None \<Rightarrow> False)"
    by code_simp+
  then obtain e' where run: "withdraw ?env bob (snd funded_campaign) = Some e'"
    and paid: "mock_client_balance usdc bob (cf_world e') = 1100" by (auto split: option.splits)
  have "cf_later mock_client_balance campaign_contract (timestamp ?env, e') (160, e')"
    by (intro r_into_rtranclp cf_step.time) simp
  from crowdfund_claim_final [OF reach mock_crowd.crowd_host_axioms _ facts(2) run this] facts(1)
  have "withdraw (crowd_env campaign_contract [] 200) bob e' = None"
    and "deposit (crowd_env campaign_contract [alice] 200) alice 7 e' = None" by simp_all
  with run paid show ?thesis by blast
qed

text \<open>C37. An expired campaign can turn into a successful one: the phase after the deadline follows
  the current token balance, so a transfer to the contract that lifts it over the target,
  which anyone can make, ends the refunds. No donor can withdraw any more, \<open>balance\<close> reports
  zero to each of them, and the recipient takes everything.\<close>

theorem expired_campaign_flips:
  assumes reach: "cf_reachable tb cc (now, e)" and host: "crowd_host env tb cc"
    and expired: "get_state env e = Some Expired" and target: "cf_target e = Some target"
    and token: "cf_token e = Some token" and gift: "target \<le> tb token cc w"
  shows "cf_step tb cc (now, e) (now, e\<lparr>cf_world := w\<rparr>)
    \<and> get_state env (e\<lparr>cf_world := w\<rparr>) = Some Success
    \<and> (\<forall>user. cf_recipient e \<noteq> Some user \<longrightarrow>
         withdraw env user (e\<lparr>cf_world := w\<rparr>) = None \<and> cf_balance env user (e\<lparr>cf_world := w\<rparr>) = Some 0)
    \<and> (\<forall>recipient w'. cf_recipient e = Some recipient \<longrightarrow>
         token_transfer env token cc recipient (tb token cc w) w = Some w' \<longrightarrow>
         withdraw env recipient (e\<lparr>cf_world := w\<rparr>) = Some (e\<lparr>cf_world := w', cf_recipient_claimed := Some True\<rparr>))"
proof -
  let ?e = "e\<lparr>cf_world := w\<rparr>"
  note own = crowd_host.own_balance [OF host]
  from get_state_Some [OF expired] token target obtain deadline where d: "cf_deadline e = Some deadline"
    "\<not> timestamp env < deadline" "cf_recipient_claimed e = Some False" "tb token cc (cf_world e) < target"
    by (auto simp: own)
  note cc = crowd_host.own_address [OF host]
  have success: "get_state env ?e = Some Success"
    using d target token gift
    by (simp add: get_state_def get_deadline_def get_token_def get_ledger_timestamp_def get_recipient_claimed_def
        target_reached_def get_target_amount_def own)
  from reachable_cf_inv [OF reach] obtain recipient where r: "cf_recipient e = Some recipient"
    by (auto simp: cf_inv_def)
  have "tb token cc (cf_world e) \<le> tb token cc w" using d(4) gift by simp
  then have step: "cf_step tb cc (now, e) (now, ?e)" by (intro cf_step.outside) (simp add: token)
  have others: "withdraw env user ?e = None \<and> cf_balance env user ?e = Some 0" if "cf_recipient e \<noteq> Some user" for user
    using withdraw_success_others [OF success, of recipient user] that r success
    by (auto simp: cf_balance_def get_recipient_def)
  have takes: "withdraw env recipient ?e = Some (e\<lparr>cf_world := w', cf_recipient_claimed := Some True\<rparr>)"
    if "token_transfer env token cc recipient (tb token cc w) w = Some w'" for w'
    using withdraw_success [OF success, of recipient token w'] r d(3) token that by (simp add: own cc)
  from step success others takes r show ?thesis by auto
qed

definition with_gift :: mock_world where
  "with_gift = (case mock_client_transfer (bare_host campaign_contract [juror2] 0) usdc juror2 campaign_contract 100
       (cf_world (snd pledged)) of Some w \<Rightarrow> w | None \<Rightarrow> cf_world (snd pledged))"

theorem expired_campaign_flips_witness:
  "get_state (crowd_env campaign_contract [] 150) (snd pledged) = Some Expired
   \<and> get_user_deposited alice (snd pledged) = 600
   \<and> withdraw (crowd_env campaign_contract [] 150) alice ((snd pledged)\<lparr>cf_world := with_gift\<rparr>) = None
   \<and> cf_balance (crowd_env campaign_contract [] 150) alice ((snd pledged)\<lparr>cf_world := with_gift\<rparr>) = Some 0"
proof -
  let ?env = "crowd_env campaign_contract [] 150"
  have facts: "get_state ?env (snd pledged) = Some Expired" "1000 \<le> mock_client_balance usdc campaign_contract with_gift"
    "cf_recipient (snd pledged) \<noteq> Some alice"
    by code_simp+
  from expired_campaign_flips [where tb = mock_client_balance, OF pledged_reachable mock_crowd.crowd_host_axioms facts(1) _ _ facts(2)]
    facts pledged_facts show ?thesis by simp
qed

end
