(* ===== verification/Core.thy ===== *)
theory Core
  imports Token_Interface
begin

text \<open>
  The core protocol crate, \<open>contracts/src\<close>: its record types, error codes and storage keys, the
  dispute entry point (the only one the crate exports), and the modules \<open>fee\<close>, \<open>governance\<close>,
  \<open>oracle\<close> and \<open>settlement\<close>, which are written against the same storage.
\<close>

section \<open>Types, errors and keys\<close>

datatype core_status = Core_Pending | Core_Active | Core_Released | Core_Disputed | Core_Cancelled

record core_escrow =
  ce_id :: u64
  ce_depositor :: address
  ce_beneficiary :: address
  ce_amount :: i128
  ce_token :: address
  ce_status :: core_status
  ce_created_at :: u64
  ce_release_deadline :: u64

record core_dispute =
  cd_escrow_id :: u64
  cd_raised_by :: address
  cd_reason :: string
  cd_resolved :: bool
  cd_ruling_for_depositor :: bool

datatype core_error =
    Core_Unauthorized | Core_EscrowNotFound | Core_InvalidAmount | Core_EscrowAlreadyReleased
  | Core_DisputeNotFound | Core_DisputeAlreadyResolved | Core_InsufficientFunds | Core_OracleStale
  | Core_ArithmeticOverflow | Core_InvalidState

fun core_error_code :: "core_error \<Rightarrow> u32" where
  "core_error_code Core_Unauthorized = 1"
| "core_error_code Core_EscrowNotFound = 2"
| "core_error_code Core_InvalidAmount = 3"
| "core_error_code Core_EscrowAlreadyReleased = 4"
| "core_error_code Core_DisputeNotFound = 5"
| "core_error_code Core_DisputeAlreadyResolved = 6"
| "core_error_code Core_InsufficientFunds = 7"
| "core_error_code Core_OracleStale = 8"
| "core_error_code Core_ArithmeticOverflow = 9"
| "core_error_code Core_InvalidState = 10"

datatype core_key =
    Key_Admin | Key_EscrowCounter | Key_Escrow u64 | Key_Dispute u64 | Key_FeeBps
  | Key_FeeCollector | Key_OracleAddress | Key_Paused

text \<open>The one event the code publishes: topics \<open>disputed\<close> and the escrow, data the caller.\<close>

datatype core_event = Disputed_event u64 address

definition PERSISTENT_BUMP :: u32 where "PERSISTENT_BUMP = 518400"
definition PERSISTENT_THRESHOLD :: u32 where "PERSISTENT_THRESHOLD = 120960"

section \<open>Storage\<close>

text \<open>
  The keys the code reads or writes, in the storage it uses for them: \<open>Admin\<close>, \<open>OracleAddress\<close>
  and \<open>Paused\<close> in the instance, \<open>Escrow\<close>, \<open>Dispute\<close> and \<open>FeeBps\<close> in the persistent storage.
\<close>

record 'w core =
  ci_admin :: "address option"
  ci_oracle_address :: "address option"
  ci_paused :: "bool option"
  cp_escrow :: "u64 \<rightharpoonup> core_escrow"
  cp_dispute :: "u64 \<rightharpoonup> core_dispute"
  cp_fee_bps :: "u32 option"
  cp_live_until :: "core_key \<Rightarrow> u32"
  core_events :: "core_event list"
  core_world :: 'w

type_synonym ('a, 'w) core_result = "('a \<times> 'w core, core_error) outcome"

fun core_has :: "'w core \<Rightarrow> core_key \<Rightarrow> bool" where
  "core_has s (Key_Escrow i) = (cp_escrow s i \<noteq> None)"
| "core_has s (Key_Dispute i) = (cp_dispute s i \<noteq> None)"
| "core_has s Key_FeeBps = (cp_fee_bps s \<noteq> None)"
| "core_has s _ = False"

text \<open>A write to a key that has no entry creates one, with the host's initial TTL.\<close>

definition core_touch :: "'w env \<Rightarrow> core_key \<Rightarrow> 'w core \<Rightarrow> 'w core" where
  "core_touch env k s = (if core_has s k then s
     else s\<lparr>cp_live_until := (cp_live_until s)(k := host_new_ttl env (sequence env))\<rparr>)"

definition core_set_escrow :: "'w env \<Rightarrow> u64 \<Rightarrow> core_escrow \<Rightarrow> 'w core \<Rightarrow> 'w core" where
  "core_set_escrow env i v s = (core_touch env (Key_Escrow i) s)\<lparr>cp_escrow := (cp_escrow s)(i \<mapsto> v)\<rparr>"

definition core_set_dispute :: "'w env \<Rightarrow> u64 \<Rightarrow> core_dispute \<Rightarrow> 'w core \<Rightarrow> 'w core" where
  "core_set_dispute env i v s = (core_touch env (Key_Dispute i) s)\<lparr>cp_dispute := (cp_dispute s)(i \<mapsto> v)\<rparr>"

definition extend_ttl :: "'w env \<Rightarrow> core_key \<Rightarrow> 'w core \<Rightarrow> 'w core" where
  "extend_ttl env key s =
     (if core_has s key
      then s\<lparr>cp_live_until := (cp_live_until s)(key :=
             host_bump env PERSISTENT_THRESHOLD PERSISTENT_BUMP (sequence env) (cp_live_until s key))\<rparr>
      else s)"

section \<open>Disputes\<close>

definition core_raise_dispute ::
    "'w env \<Rightarrow> u64 \<Rightarrow> address \<Rightarrow> string \<Rightarrow> 'w core \<Rightarrow> (unit, 'w) core_result" where
  "core_raise_dispute env escrow_id caller reason s =
     require_auth env caller (
     ok_or (cp_escrow s escrow_id) Core_EscrowNotFound (\<lambda>escrow.
     if caller \<noteq> ce_depositor escrow \<and> caller \<noteq> ce_beneficiary escrow then Err Core_Unauthorized
     else if ce_status escrow \<noteq> Core_Active then Err Core_InvalidState
     else
     let escrow = escrow\<lparr>ce_status := Core_Disputed\<rparr>;
         s = core_set_escrow env escrow_id escrow s;
         s = extend_ttl env (Key_Escrow escrow_id) s;
         dispute = \<lparr>cd_escrow_id = escrow_id, cd_raised_by = caller, cd_reason = reason,
                    cd_resolved = False, cd_ruling_for_depositor = False\<rparr>;
         s = core_set_dispute env escrow_id dispute s;
         s = extend_ttl env (Key_Dispute escrow_id) s;
         s = s\<lparr>core_events := core_events s @ [Disputed_event escrow_id caller]\<rparr>
     in Ok ((), s)))"

section \<open>Fees\<close>

definition CORE_DEFAULT_FEE_BPS :: u32 where "CORE_DEFAULT_FEE_BPS = 50"
definition CORE_MAX_FEE_BPS :: u32 where "CORE_MAX_FEE_BPS = 1000"
definition BASIS_POINTS :: i128 where "BASIS_POINTS = 10000"

definition validate_fee_bps :: "u32 \<Rightarrow> (unit, core_error) outcome" where
  "validate_fee_bps fee_bps = (if fee_bps > CORE_MAX_FEE_BPS then Err Core_InvalidAmount else Ok ())"

definition compute_fee :: "i128 \<Rightarrow> u32 \<Rightarrow> (i128 \<times> i128, core_error) outcome" where
  "compute_fee amount fee_bps =
     ok_or (Option.bind (checked_mul amount (uint fee_bps)) (\<lambda>v. checked_div v BASIS_POINTS))
       Core_ArithmeticOverflow (\<lambda>fee.
     ok_or (checked_sub amount fee) Core_ArithmeticOverflow (\<lambda>payout.
     Ok (fee, payout)))"

section \<open>Governance\<close>

definition core_require_admin :: "'w env \<Rightarrow> address \<Rightarrow> 'w core \<Rightarrow> (unit, core_error) outcome" where
  "core_require_admin env caller s =
     require_auth env caller (
     ok_or (ci_admin s) Core_Unauthorized (\<lambda>admin.
     if caller \<noteq> admin then Err Core_Unauthorized else Ok ()))"

definition core_set_fee_bps :: "'w env \<Rightarrow> address \<Rightarrow> u32 \<Rightarrow> 'w core \<Rightarrow> (unit, 'w) core_result" where
  "core_set_fee_bps env admin fee_bps s =
     attempt (core_require_admin env admin s) (\<lambda>_.
     if fee_bps > 1000 then Err Core_InvalidAmount
     else Ok ((), (core_touch env Key_FeeBps s)\<lparr>cp_fee_bps := Some fee_bps\<rparr>))"

definition core_pause :: "'w env \<Rightarrow> address \<Rightarrow> 'w core \<Rightarrow> (unit, 'w) core_result" where
  "core_pause env admin s =
     attempt (core_require_admin env admin s) (\<lambda>_. Ok ((), s\<lparr>ci_paused := Some True\<rparr>))"

section \<open>Oracle\<close>

definition MAX_ORACLE_AGE_SECS :: u64 where "MAX_ORACLE_AGE_SECS = 300"

definition get_xlm_price_usd :: "'w env \<Rightarrow> 'w core \<Rightarrow> (i128, core_error) outcome" where
  "get_xlm_price_usd env s =
     ok_or (ci_oracle_address s) Core_OracleStale (\<lambda>_.
     let now = timestamp env
     in if now = 0 then Err Core_OracleStale else Ok 10000000)"

definition assert_oracle_fresh :: "'w env \<Rightarrow> u64 \<Rightarrow> (unit, core_error) outcome" where
  "assert_oracle_fresh env oracle_ts =
     (let now = timestamp env
      in if saturating_sub now oracle_ts > MAX_ORACLE_AGE_SECS then Err Core_OracleStale else Ok ())"

section \<open>Settlement\<close>

text \<open>The plain \<open>*\<close>, \<open>/\<close> and \<open>-\<close> panic on overflow: every profile keeps the overflow checks.\<close>

definition release_to_beneficiary :: "'w env \<Rightarrow> u64 \<Rightarrow> 'w core \<Rightarrow> (i128, 'w) core_result" where
  "release_to_beneficiary env escrow_id s =
     ok_or (cp_escrow s escrow_id) Core_EscrowNotFound (\<lambda>escrow.
     if ce_status escrow = Core_Released \<or> ce_status escrow = Core_Cancelled
     then Err Core_EscrowAlreadyReleased
     else
     let fee_bps = unwrap_or (cp_fee_bps s) 50
     in unwrap (checked_mul (ce_amount escrow) (uint fee_bps)) (\<lambda>product.
     let fee = product sdiv 10000
     in unwrap (checked_sub (ce_amount escrow) fee) (\<lambda>payout.
     unwrap (token_transfer env (ce_token escrow) (current_contract_address env)
               (ce_beneficiary escrow) payout (core_world s)) (\<lambda>w.
     let s = s\<lparr>core_world := w\<rparr>;
         escrow = escrow\<lparr>ce_status := Core_Released\<rparr>
     in Ok (payout, core_set_escrow env escrow_id escrow s)))))"

section \<open>Later states\<close>

text \<open>The operations of the crate that change its storage, and the states they lead to, by anyone in
  any order, interleaved with what happens in the rest of the world.\<close>

datatype core_call =
    Core_Raise_dispute u64 address string
  | Core_Set_fee_bps address u32
  | Core_Pause address
  | Core_Release u64

definition core_state_of :: "('a, 'w) core_result \<Rightarrow> ('w core, core_error) outcome" where
  "core_state_of r = attempt r (\<lambda>(v, s). Ok s)"

fun core_exec :: "'w env \<Rightarrow> core_call \<Rightarrow> 'w core \<Rightarrow> ('w core, core_error) outcome" where
  "core_exec env (Core_Raise_dispute i caller reason) s = core_state_of (core_raise_dispute env i caller reason s)"
| "core_exec env (Core_Set_fee_bps admin bps) s = core_state_of (core_set_fee_bps env admin bps s)"
| "core_exec env (Core_Pause admin) s = core_state_of (core_pause env admin s)"
| "core_exec env (Core_Release i) s = core_state_of (release_to_beneficiary env i s)"

inductive core_step :: "'w core \<Rightarrow> 'w core \<Rightarrow> bool" where
  call: "core_exec env c s = Ok s' \<Longrightarrow> core_step s s'"
| outside: "core_step s (s\<lparr>core_world := w\<rparr>)"

abbreviation core_later where
  "core_later \<equiv> core_step\<^sup>*\<^sup>*"

section \<open>What a successful call does\<close>

lemma core_touch_fields [simp]:
  "cp_escrow (core_touch env k s) = cp_escrow s" "cp_dispute (core_touch env k s) = cp_dispute s"
  "core_events (core_touch env k s) = core_events s" "core_world (core_touch env k s) = core_world s"
  "ci_admin (core_touch env k s) = ci_admin s" "ci_paused (core_touch env k s) = ci_paused s"
  "ci_oracle_address (core_touch env k s) = ci_oracle_address s" "cp_fee_bps (core_touch env k s) = cp_fee_bps s"
  by (simp_all add: core_touch_def)

lemma extend_ttl_fields [simp]:
  "cp_escrow (extend_ttl env k s) = cp_escrow s" "cp_dispute (extend_ttl env k s) = cp_dispute s"
  "core_events (extend_ttl env k s) = core_events s" "core_world (extend_ttl env k s) = core_world s"
  "ci_admin (extend_ttl env k s) = ci_admin s" "ci_paused (extend_ttl env k s) = ci_paused s"
  "ci_oracle_address (extend_ttl env k s) = ci_oracle_address s" "cp_fee_bps (extend_ttl env k s) = cp_fee_bps s"
  by (simp_all add: extend_ttl_def)

lemma core_state_of_Ok [outcome_ok]: "core_state_of r = Ok s' \<longleftrightarrow> (\<exists>v. r = Ok (v, s'))"
  by (auto simp: core_state_of_def outcome_ok)

lemma core_require_admin_Ok:
  "core_require_admin env caller s = Ok u \<longleftrightarrow> authorized env caller \<and> ci_admin s = Some caller"
  by (auto simp: core_require_admin_def outcome_ok)

text \<open>An escrow is never deleted, keeps its parties, and never becomes active again.\<close>

definition no_longer_active :: "u64 \<Rightarrow> core_escrow \<Rightarrow> 'w core \<Rightarrow> bool" where
  "no_longer_active i e s \<longleftrightarrow> (\<exists>e'. cp_escrow s i = Some e' \<and> ce_depositor e' = ce_depositor e
     \<and> ce_beneficiary e' = ce_beneficiary e \<and> ce_status e' \<noteq> Core_Active)"

lemma core_exec_stays_inactive:
  assumes "core_exec env c s = Ok s'" and "no_longer_active i e s"
  shows "no_longer_active i e s'"
proof (cases c)
  case (Core_Raise_dispute j caller reason)
  with assms show ?thesis
    by (auto simp: no_longer_active_def core_raise_dispute_def core_set_escrow_def core_set_dispute_def
        outcome_ok Let_def split: if_splits)
next
  case (Core_Set_fee_bps admin bps)
  with assms show ?thesis by (auto simp: no_longer_active_def core_set_fee_bps_def outcome_ok split: if_splits)
next
  case (Core_Pause admin)
  with assms show ?thesis by (auto simp: no_longer_active_def core_pause_def outcome_ok)
next
  case (Core_Release j)
  with assms show ?thesis
    by (auto simp: no_longer_active_def release_to_beneficiary_def core_set_escrow_def outcome_ok Let_def split: if_splits)
qed

lemma later_stays_inactive:
  assumes "core_later s s'" and "no_longer_active i e s"
  shows "no_longer_active i e s'"
  using assms
proof (induction rule: rtranclp_induct)
  case (step t u)
  from step.hyps(2) show ?case
  proof (cases rule: core_step.cases)
    case (call env c)
    then show ?thesis by (rule core_exec_stays_inactive) (rule step.IH [OF step.prems])
  next
    case (outside w)
    with step.IH [OF step.prems] show ?thesis by (simp add: no_longer_active_def)
  qed
qed

text \<open>The fee of a settlement or of \<open>compute_fee\<close> is the truncated product; for amounts that are
  not negative that is the floor.\<close>

lemma compute_fee_Ok:
  assumes "in_i128 amount" and "bps \<le> 10000" and "in_i128 (amount * uint bps)" and "0 \<le> amount"
  shows "compute_fee amount bps = Ok (amount * uint bps div 10000, amount - amount * uint bps div 10000)"
proof -
  have b: "0 \<le> uint bps" "uint bps \<le> 10000" using assms(2) by (auto simp: word_le_def)
  let ?fee = "amount * uint bps div 10000"
  have "?fee \<le> amount * 10000 div 10000" using b assms(4) by (intro zdiv_mono1 mult_left_mono) auto
  moreover have "0 \<le> ?fee" using b assms(4) by (simp add: pos_imp_zdiv_nonneg_iff)
  ultimately have "in_i128 ?fee" "in_i128 (amount - ?fee)" using assms(1,4) by (auto simp: in_i128_def)
  with assms b show ?thesis
    by (simp add: compute_fee_def checked_mul_def checked_div_def checked_sub_def BASIS_POINTS_def sdiv_nonneg outcome_run)
qed

end
