(* ===== verification/Core_Properties.thy ===== *)
theory Core_Properties
  imports Core TrustFlow_Scenario
begin

text \<open>
  The guarantees of the core protocol crate: what raising a dispute does and why it happens
  once, how its fee function relates to the one of the escrow contract, when an oracle price
  is fresh, and what its settlement does not check.
\<close>

text \<open>C38. A dispute of the core crate is raised once: only a party who signed can raise it, on an
  active escrow. The call changes nothing but that escrow's status, that dispute record, the
  lifetimes of these two entries, which live for at least another seven days, and the event
  log; no token moves. And in every later state, after any operations of the crate by anyone,
  raising a dispute on that escrow fails again: for a party who signs with \<open>InvalidState\<close>, for
  anyone else who signs with \<open>Unauthorized\<close>, without a signature by a panic.\<close>

theorem core_dispute_once:
  assumes "ttl_host (host_bump env)" and run: "core_raise_dispute env i caller reason s = Ok (u, s')"
  shows "\<exists>e lu. cp_escrow s i = Some e \<and> ce_status e = Core_Active \<and> authorized env caller
    \<and> (caller = ce_depositor e \<or> caller = ce_beneficiary e)
    \<and> s' = s\<lparr>cp_escrow := (cp_escrow s)(i \<mapsto> e\<lparr>ce_status := Core_Disputed\<rparr>),
           cp_dispute := (cp_dispute s)(i \<mapsto> \<lparr>cd_escrow_id = i, cd_raised_by = caller, cd_reason = reason,
              cd_resolved = False, cd_ruling_for_depositor = False\<rparr>),
           cp_live_until := lu, core_events := core_events s @ [Disputed_event i caller]\<rparr>
    \<and> (\<forall>key. key \<notin> {Key_Escrow i, Key_Dispute i} \<longrightarrow> lu key = cp_live_until s key)
    \<and> (\<forall>key\<in>{Key_Escrow i, Key_Dispute i}. uint (saturating_add (sequence env) (7 * 17280)) \<le> uint (lu key))
    \<and> (\<forall>s'' env' c r. core_later s' s'' \<longrightarrow> core_raise_dispute env' i c r s'' =
         (if \<not> authorized env' c then Panic
          else if c = ce_depositor e \<or> c = ce_beneficiary e then Err Core_InvalidState
          else Err Core_Unauthorized))"
proof -
  let ?d = "\<lparr>cd_escrow_id = i, cd_raised_by = caller, cd_reason = reason, cd_resolved = False,
    cd_ruling_for_depositor = False\<rparr>"
  from run obtain e where e: "cp_escrow s i = Some e" "ce_status e = Core_Active" "authorized env caller"
    "caller = ce_depositor e \<or> caller = ce_beneficiary e"
    by (auto simp: core_raise_dispute_def outcome_ok Let_def)
  define s1 where "s1 = extend_ttl env (Key_Escrow i) (core_set_escrow env i (e\<lparr>ce_status := Core_Disputed\<rparr>) s)"
  define s2 where "s2 = extend_ttl env (Key_Dispute i) (core_set_dispute env i ?d s1)"
  have s': "s' = s2\<lparr>core_events := core_events s2 @ [Disputed_event i caller]\<rparr>"
    using run e by (auto simp: core_raise_dispute_def s1_def s2_def outcome_run Let_def)
  note defs = s1_def s2_def extend_ttl_def core_set_escrow_def core_set_dispute_def core_touch_def
  have frame: "s' = s\<lparr>cp_escrow := (cp_escrow s)(i \<mapsto> e\<lparr>ce_status := Core_Disputed\<rparr>),
      cp_dispute := (cp_dispute s)(i \<mapsto> ?d), cp_live_until := cp_live_until s2,
      core_events := core_events s @ [Disputed_event i caller]\<rparr>"
    using e(1) by (simp add: s' defs)
  have others: "cp_live_until s2 key = cp_live_until s key" if "key \<notin> {Key_Escrow i, Key_Dispute i}" for key
    using that by (auto simp: defs)
  have "(7 :: u32) * 17280 = PERSISTENT_THRESHOLD" by (simp add: PERSISTENT_THRESHOLD_def)
  moreover have "PERSISTENT_THRESHOLD \<le> PERSISTENT_BUMP" by (simp add: PERSISTENT_THRESHOLD_def PERSISTENT_BUMP_def)
  ultimately have lives: "uint (saturating_add (sequence env) (7 * 17280)) \<le> uint (cp_live_until s2 key)"
    if "key \<in> {Key_Escrow i, Key_Dispute i}" for key
    using that ttl_host.bump_lives [OF assms(1), of PERSISTENT_THRESHOLD PERSISTENT_BUMP "sequence env"]
    by (auto simp: defs)
  have "no_longer_active i e s'" by (simp add: frame no_longer_active_def)
  then have "core_raise_dispute env' i c r s'' = (if \<not> authorized env' c then Panic
      else if c = ce_depositor e \<or> c = ce_beneficiary e then Err Core_InvalidState else Err Core_Unauthorized)"
    if "core_later s' s''" for s'' env' c r
    using later_stays_inactive [OF that, of i e]
    by (auto simp: no_longer_active_def core_raise_dispute_def require_auth_def outcome_run)
  with e frame others lives show ?thesis by blast
qed

text \<open>A core deployment with one active escrow of 20,000 from Alice to Bob.\<close>

definition core_sample :: "mock_world core" where
  "core_sample = \<lparr>ci_admin = Some owner, ci_oracle_address = None, ci_paused = None,
     cp_escrow = [1 \<mapsto> \<lparr>ce_id = 1, ce_depositor = alice, ce_beneficiary = bob, ce_amount = 20000, ce_token = usdc,
        ce_status = Core_Active, ce_created_at = 0, ce_release_deadline = 0\<rparr>],
     cp_dispute = Map.empty, cp_fee_bps = None, cp_live_until = (\<lambda>_. 200), core_events = [],
     core_world = [usdc \<mapsto> \<lparr>mt_admin = None, mt_metadata = None, mt_balance = [escrow_contract \<mapsto> 50000]\<rparr>]\<rparr>"

definition core_disputed :: "(unit, mock_world) core_result" where
  "core_disputed = core_raise_dispute (mock_host escrow_contract [alice] 150) 1 alice ''late'' core_sample"

lemma core_disputed_facts:
  "(case core_disputed of Ok (_, s) \<Rightarrow> core_world s usdc = core_world core_sample usdc \<and> cp_fee_bps s = None
     \<and> (case cp_escrow s 1 of Some e \<Rightarrow> ce_status e = Core_Disputed \<and> ce_amount e = 20000 \<and> ce_token e = usdc
          \<and> ce_beneficiary e = bob | None \<Rightarrow> False) | _ \<Rightarrow> False)"
  by (simp add: core_disputed_def core_raise_dispute_def core_sample_def outcome_run cast_defs Let_def
      require_auth_def core_set_escrow_def core_set_dispute_def)

theorem core_dispute_once_witness:
  "\<exists>s'. core_disputed = Ok ((), s') \<and> core_events s' = [Disputed_event 1 alice]
     \<and> uint (saturating_add (150 :: u32) (7 * 17280)) \<le> uint (cp_live_until s' (Key_Escrow 1))
     \<and> (\<forall>s''. core_later s' s'' \<longrightarrow>
          core_raise_dispute (mock_host escrow_contract [juror1] 160) 1 juror1 ''again'' s'' = Err Core_Unauthorized)"
proof -
  from core_disputed_facts obtain s' where run: "core_disputed = Ok ((), s')" by (auto split: outcome.splits prod.splits)
  have "ttl_host (host_bump (mock_host escrow_contract [alice] 150))" by (simp add: standard.ttl_host_axioms)
  from core_dispute_once [OF this run [unfolded core_disputed_def]] show ?thesis
  proof (elim exE conjE, goal_cases)
    case (1 e lu)
    have "ce_depositor e = alice" "ce_beneficiary e = bob" using 1(1) by (auto simp: core_sample_def)
    then have "core_raise_dispute (mock_host escrow_contract [juror1] 160) 1 juror1 ''again'' s'' = Err Core_Unauthorized"
      if "core_later s' s''" for s'' using 1(8) [rule_format, OF that] by (simp add: cast_defs)
    moreover have "core_events s' = [Disputed_event 1 alice]" using 1(5) by (simp add: core_sample_def)
    moreover have "uint (saturating_add (150 :: u32) (7 * 17280)) \<le> uint (cp_live_until s' (Key_Escrow 1))"
      using 1(5) 1(7) by simp
    ultimately show ?case using run by blast
  qed
qed

lemma settlement_errors:
  "release_to_beneficiary env j t = Err err \<longleftrightarrow>
     (cp_escrow t j = None \<and> err = Core_EscrowNotFound)
   \<or> (\<exists>d. cp_escrow t j = Some d \<and> ce_status d \<in> {Core_Released, Core_Cancelled} \<and> err = Core_EscrowAlreadyReleased)"
  by (cases "cp_escrow t j")
    (auto simp: release_to_beneficiary_def ok_or_def unwrap_def Let_def split: option.splits)

text \<open>C39. The settlement of the core crate is guarded by the escrow's status alone: it returns an error
  exactly when the escrow does not exist, or is already released or cancelled. Nobody has to sign, the
  pause flag is never read, and an escrow under dispute (or not yet active) is paid out like an
  active one: when its amount is a non-negative \<open>i128\<close>, amount times rate (the stored \<open>FeeBps\<close>,
  50 if unset) fits an \<open>i128\<close> and the token transfers the payout, the beneficiary gets the amount
  less the fee, the fee stays in the contract, the escrow is released, and a second settlement
  is refused.\<close>

theorem core_settlement_unguarded:
  assumes e: "cp_escrow s i = Some e" and status: "ce_status e \<in> {Core_Pending, Core_Active, Core_Disputed}"
    and client: "token_client (token_transfer env) tb"
    and amount: "0 \<le> ce_amount e" "in_i128 (ce_amount e)" "in_i128 (ce_amount e * uint (unwrap_or (cp_fee_bps s) 50))"
    and payout: "payout = ce_amount e - ce_amount e * uint (unwrap_or (cp_fee_bps s) 50) div 10000"
    and moved: "token_transfer env (ce_token e) (current_contract_address env) (ce_beneficiary e) payout (core_world s) = Some w"
  shows "\<exists>s'. release_to_beneficiary (env\<lparr>authorized := \<lambda>_. False\<rparr>) i (s\<lparr>ci_paused := Some True\<rparr>) = Ok (payout, s')
    \<and> release_to_beneficiary env i s = Ok (payout, s'\<lparr>ci_paused := ci_paused s\<rparr>)
    \<and> cp_escrow s' i = Some (e\<lparr>ce_status := Core_Released\<rparr>)
    \<and> (\<forall>a. tb (ce_token e) a (core_world s') = tb (ce_token e) a (core_world s)
         - (if a = current_contract_address env then payout else 0) + (if a = ce_beneficiary e then payout else 0))
    \<and> (\<forall>env'. release_to_beneficiary env' i s' = Err Core_EscrowAlreadyReleased)
    \<and> (\<forall>env' j t err. release_to_beneficiary env' j t = Err err \<longleftrightarrow>
         (cp_escrow t j = None \<and> err = Core_EscrowNotFound)
       \<or> (\<exists>d. cp_escrow t j = Some d \<and> ce_status d \<in> {Core_Released, Core_Cancelled} \<and> err = Core_EscrowAlreadyReleased))"
proof -
  let ?e = "e\<lparr>ce_status := Core_Released\<rparr>" and ?s = "s\<lparr>ci_paused := Some True\<rparr>"
  let ?bps = "unwrap_or (cp_fee_bps s) 50"
  have fee: "(ce_amount e * uint ?bps) sdiv 10000 = ce_amount e * uint ?bps div 10000"
    using amount(1) by (intro sdiv_nonneg) auto
  define x where "x = ce_amount e * uint ?bps"
  have "0 \<le> x" "x < 2 ^ 127" using amount(1,3) by (simp_all add: x_def in_i128_def)
  then have "0 \<le> x div 10000" "x div 10000 < 2 ^ 127" by simp_all
  with amount(1,2) have "in_i128 payout" unfolding payout x_def [symmetric] in_i128_def by linarith
  note payout = payout this
  have one: "release_to_beneficiary env' i t = Ok (payout, core_set_escrow env' i ?e (t\<lparr>core_world := w\<rparr>))"
    if "cp_escrow t i = Some e" "cp_fee_bps t = cp_fee_bps s" "core_world t = core_world s"
      "token_transfer env' = token_transfer env" "current_contract_address env' = current_contract_address env" for env' t
    using that status amount payout moved
    by (auto simp: release_to_beneficiary_def outcome_run Let_def checked_mul_def checked_sub_def fee)
  let ?s' = "core_set_escrow env i ?e (?s\<lparr>core_world := w\<rparr>)"
  have "core_set_escrow (env\<lparr>authorized := \<lambda>_. False\<rparr>) i ?e (?s\<lparr>core_world := w\<rparr>) = ?s'"
    by (simp add: core_set_escrow_def core_touch_def)
  with one [of ?s "env\<lparr>authorized := \<lambda>_. False\<rparr>"] e
  have "release_to_beneficiary (env\<lparr>authorized := \<lambda>_. False\<rparr>) i ?s = Ok (payout, ?s')" by simp
  moreover have "core_set_escrow env i ?e (s\<lparr>core_world := w\<rparr>) = ?s'\<lparr>ci_paused := ci_paused s\<rparr>"
    using e by (simp add: core_set_escrow_def core_touch_def)
  with one [of s env] e have "release_to_beneficiary env i s = Ok (payout, ?s'\<lparr>ci_paused := ci_paused s\<rparr>)" by simp
  moreover have "cp_escrow ?s' i = Some ?e" "core_world ?s' = w" by (simp_all add: core_set_escrow_def)
  moreover have "release_to_beneficiary env' i ?s' = Err Core_EscrowAlreadyReleased" for env'
    by (simp add: release_to_beneficiary_def core_set_escrow_def outcome_run)
  moreover note token_client.transfer_moves [OF client moved]
  ultimately show ?thesis using settlement_errors
    by (intro exI [of _ ?s'] conjI allI; (fact settlement_errors | simp))
qed

theorem core_settlement_unguarded_witness:
  "\<exists>s s'. core_disputed = Ok ((), s) \<and> release_to_beneficiary (mock_host escrow_contract [] 150) 1 s = Ok (19900, s')
     \<and> mock_client_balance usdc bob (core_world s') = 19900
     \<and> mock_client_balance usdc escrow_contract (core_world s') = 30100"
proof -
  let ?env = "mock_host escrow_contract [] 150"
  from core_disputed_facts obtain s e where run: "core_disputed = Ok ((), s)"
    and w: "core_world s usdc = core_world core_sample usdc" "cp_fee_bps s = None"
    and e: "cp_escrow s 1 = Some e" "ce_status e = Core_Disputed" "ce_amount e = 20000" "ce_token e = usdc"
      "ce_beneficiary e = bob"
    by (auto split: outcome.splits prod.splits option.splits)
  have "token_transfer ?env (ce_token e) (current_contract_address ?env) (ce_beneficiary e) 19900 (core_world s) \<noteq> None"
    using w e
    by (simp add: mock_client_transfer_def mock_transfer_def core_sample_def cast_defs ensure_def callee_env_def
        bare_host_def mock_balance_def checked_sub_def checked_add_def in_i128_def Let_def)
  then obtain w' where moved:
    "token_transfer ?env (ce_token e) (current_contract_address ?env) (ce_beneficiary e) 19900 (core_world s) = Some w'"
    by blast
  have client: "token_client (token_transfer ?env) mock_client_balance"
    using mock_hosted.hosted_axioms [of escrow_contract "[]" 150] by (simp add: hosted_def)
  have nums: "0 \<le> ce_amount e" "in_i128 (ce_amount e * uint (unwrap_or (cp_fee_bps s) 50))" "in_i128 (ce_amount e)"
    "(19900 :: int) = ce_amount e - ce_amount e * uint (unwrap_or (cp_fee_bps s) 50) div 10000"
    "ce_status e \<in> {Core_Pending, Core_Active, Core_Disputed}"
    using e w by (simp_all add: in_i128_def)
  from core_settlement_unguarded [OF e(1) nums(5) client nums(1,3,2,4) moved] obtain s' where
    "release_to_beneficiary ?env 1 s = Ok (19900, s'\<lparr>ci_paused := ci_paused s\<rparr>)"
    "\<And>a. mock_client_balance (ce_token e) a (core_world s') = mock_client_balance (ce_token e) a (core_world s)
       - (if a = current_contract_address ?env then 19900 else 0) + (if a = ce_beneficiary e then 19900 else 0)" by blast
  moreover have "mock_client_balance usdc escrow_contract (core_world s) = 50000" "mock_client_balance usdc bob (core_world s) = 0"
    using w by (simp_all add: mock_client_balance_def core_sample_def mock_balance_def cast_defs)
  ultimately show ?thesis using run e(4,5)
    by (intro exI [of _ s] exI [of _ "s'\<lparr>ci_paused := ci_paused s\<rparr>"]) (simp add: cast_defs)
qed

text \<open>C40. The two fee functions of the repository agree: at a rate the crate accepts, the fee of
  \<open>compute_fee\<close> is the \<open>cumulative_fee\<close> of the escrow contract and is split off without loss;
  it gives up with \<open>ArithmeticOverflow\<close> exactly when the product of amount and rate does not
  fit an \<open>i128\<close>, where the overflow-safe version still answers.\<close>

theorem compute_fee_agrees:
  assumes "in_i128 amount" and "0 \<le> amount" and "validate_fee_bps bps = Ok ()"
  shows "cumulative_fee amount bps = Ok (amount * uint bps div 10000)
    \<and> (compute_fee amount bps = Err Core_ArithmeticOverflow \<longleftrightarrow> 2 ^ 127 \<le> amount * uint bps)
    \<and> (amount * uint bps < 2 ^ 127 \<longrightarrow> (\<exists>fee payout. compute_fee amount bps = Ok (fee, payout)
         \<and> cumulative_fee amount bps = Ok fee \<and> fee + payout = amount \<and> 0 \<le> fee \<and> 10 * fee \<le> amount))"
proof -
  have b: "uint bps \<le> 1000"
    using assms(3) by (simp add: validate_fee_bps_def CORE_MAX_FEE_BPS_def word_less_def not_less split: if_splits)
  then have bps: "bps \<le> 10000" by (simp add: word_le_def)
  from cumulative_fee_total [of amount bps] assms(1,2) b
  have cum: "cumulative_fee amount bps = Ok (amount * uint bps div 10000)" by (simp add: exact_fee_def)
  have nonneg: "0 \<le> amount * uint bps" using assms(2) by simp
  have over: "compute_fee amount bps = Err Core_ArithmeticOverflow" if "2 ^ 127 \<le> amount * uint bps"
    using that by (simp add: compute_fee_def checked_mul_def in_i128_def outcome_run)
  have fine: "compute_fee amount bps = Ok (amount * uint bps div 10000, amount - amount * uint bps div 10000)"
    if "amount * uint bps < 2 ^ 127"
  proof (rule compute_fee_Ok [OF assms(1) bps _ assms(2)])
    from that nonneg show "in_i128 (amount * uint bps)" unfolding in_i128_def by linarith
  qed
  have "amount * uint bps div 10000 \<le> amount * 1000 div 10000"
    using b assms(2) by (intro zdiv_mono1 mult_left_mono) auto
  moreover have "amount * 1000 div (10 * 1000) = amount div 10" by (rule div_mult_mult2) simp
  moreover have "10 * (amount div 10) \<le> amount" by presburger
  ultimately have "10 * (amount * uint bps div 10000) \<le> amount" by simp
  moreover have "0 \<le> amount * uint bps div 10000" using nonneg by (simp add: pos_imp_zdiv_nonneg_iff)
  ultimately show ?thesis using cum over fine by (cases "amount * uint bps < 2 ^ 127") auto
qed

theorem compute_fee_agrees_witness:
  "compute_fee 20000 50 = Ok (100, 19900) \<and> compute_fee (2 ^ 126) 50 = Err Core_ArithmeticOverflow
   \<and> cumulative_fee (2 ^ 126) 50 = Ok (2 ^ 126 * 50 div 10000)"
proof -
  have v: "validate_fee_bps 50 = Ok ()" by (simp add: validate_fee_bps_def CORE_MAX_FEE_BPS_def)
  have r: "in_i128 20000" "in_i128 (2 ^ 126)" by (simp_all add: in_i128_def)
  from compute_fee_agrees [OF r(1) _ v] obtain payout where "compute_fee 20000 50 = Ok (100, payout)" "100 + payout = 20000"
    by auto
  moreover from compute_fee_agrees [OF r(2) _ v] have
    "compute_fee (2 ^ 126) 50 = Err Core_ArithmeticOverflow" "cumulative_fee (2 ^ 126) 50 = Ok (2 ^ 126 * 50 div 10000)"
    by auto
  ultimately show ?thesis by auto
qed

text \<open>Freshness of an oracle price: a timestamp passes exactly when it is at most 300 seconds
  old, without wrap-around at either end of the clock; a timestamp in the future always
  passes.\<close>

lemma oracle_freshness:
  "(assert_oracle_fresh env ts = Ok () \<longleftrightarrow> uint (timestamp env) - uint ts \<le> 300)
   \<and> (assert_oracle_fresh env ts = Err Core_OracleStale \<longleftrightarrow> 300 < uint (timestamp env) - uint ts)"
proof -
  have "saturating_sub (timestamp env) ts > 300 \<longleftrightarrow> 300 < uint (timestamp env) - uint ts"
    by (auto simp: saturating_sub_def word_less_def word_le_def uint_sub_if')
  then show ?thesis by (auto simp: assert_oracle_fresh_def MAX_ORACLE_AGE_SECS_def Let_def)
qed

end
