(* ===== verification/TrustFlow_Tests.thy ===== *)
theory TrustFlow_Tests
  imports TrustFlow_Scenario
begin

text \<open>
  The unit tests of the escrow contract, run on the model. Each test of the module \<open>tests\<close>
  of \<open>contracts/trustflow/src/lib.rs\<close> is a list of steps over the ledger and the contract's
  state, in the order of the source: calls that must return \<open>Ok\<close>, calls that must return a
  given error, and assertions about storage, balances and events. \<open>passes\<close> runs a test from a
  fresh deployment, and the lemmas evaluate it. The tests mock every signature and take the
  place of SHA-256 and of the Stellar asset contract with \<open>sample_hash\<close> and the
  repository's mock token.
\<close>

section \<open>The harness\<close>

definition token_addr :: address where "token_addr = Contract 2"
definition contract_addr :: address where "contract_addr = Contract 1"
definition nobody :: address where "nobody = Account 0"
definition issuer :: address where "issuer = Account 12"
definition admin :: address where "admin = Account 1"
definition depositor :: address where "depositor = Account 2"
definition beneficiary :: address where "beneficiary = Account 3"
definition juror :: address where "juror = Account 4"
definition juror_b :: address where "juror_b = Account 5"
definition silent_juror :: address where "silent_juror = Account 6"
definition honest1 :: address where "honest1 = Account 4"
definition honest2 :: address where "honest2 = Account 5"
definition malicious :: address where "malicious = Account 6"
definition depositor2 :: address where "depositor2 = Account 7"
definition beneficiary2 :: address where "beneficiary2 = Account 8"
definition outsider :: address where "outsider = Account 9"
definition pauser :: address where "pauser = Account 10"
definition new_treasury :: address where "new_treasury = Account 11"

definition test_env :: "u32 \<Rightarrow> mock_world env" where
  "test_env now = with_mock_token ((bare_host contract_addr [] now)\<lparr>authorized := (\<lambda>_. True)\<rparr>)"

text \<open>
  The steps of a test: \<open>client.f(..)\<close>, which must return; the calls whose returned value a
  test uses; \<open>client.try_f(..)\<close>, which must fail with the given error; a mint of the test token
  and a burn (a transfer to nobody); the passing of ledgers; an assertion about the contract's state at the current ledger.
\<close>

datatype test_step =
    Calls tf_call
  | Creates address address i128 u64
  | Inits address address "milestone list" u64
  | Rules u64 bool
  | Rejects tf_call trustflow_error
  | Bumps_escrow u64 "u32 \<Rightarrow> u32"
  | Bumps_juror address "u32 \<Rightarrow> u32"
  | Mints address i128
  | Burns address i128
  | Advance_ledger u32
  | Asserts "u32 \<Rightarrow> mock_world trustflow \<Rightarrow> bool"

definition returned :: "('a, mock_world) result \<Rightarrow> 'a \<Rightarrow> mock_world trustflow option" where
  "returned r v = (case r of Ok (v', s) \<Rightarrow> if v' = v then Some s else None | _ \<Rightarrow> None)"

fun perform :: "test_step \<Rightarrow> u32 \<Rightarrow> mock_world trustflow \<Rightarrow> mock_world trustflow option" where
  "perform (Calls c) now s = (case exec (test_env now) c s of Ok s' \<Rightarrow> Some s' | _ \<Rightarrow> None)"
| "perform (Creates d b amount i) now s = returned (create_escrow (test_env now) d b amount s) i"
| "perform (Inits d b ms i) now s = returned (init_escrow (test_env now) d b ms s) i"
| "perform (Rules i ruling) now s = returned (resolve_dispute (test_env now) i s) ruling"
| "perform (Bumps_escrow i live) now s = returned (bump_escrow_ttl (test_env now) i s) (live now)"
| "perform (Bumps_juror j live) now s = returned (bump_juror_stake_ttl (test_env now) j s) (live now)"
| "perform (Rejects c e) now s = (case exec (test_env now) c s of Err e' \<Rightarrow> if e' = e then Some s else None | _ \<Rightarrow> None)"
| "perform (Mints to amount) now s = (case world s token_addr of None \<Rightarrow> None
     | Some t \<Rightarrow> (case mock_mint (callee_env (test_env now) token_addr) to amount t of None \<Rightarrow> None
         | Some t' \<Rightarrow> Some (s\<lparr>world := (world s)(token_addr \<mapsto> t')\<rparr>)))"
| "perform (Burns from amount) now s = (case mock_client_transfer (test_env now) token_addr from nobody amount (world s) of
     None \<Rightarrow> None | Some w \<Rightarrow> Some (s\<lparr>world := w\<rparr>))"
| "perform (Advance_ledger _) now s = Some s"
| "perform (Asserts b) now s = (if b now s then Some s else None)"

definition advance_ledger :: "test_step \<Rightarrow> u32 \<Rightarrow> u32" where
  "advance_ledger f now = (case f of Advance_ledger ledgers \<Rightarrow> saturating_add now ledgers | _ \<Rightarrow> now)"

fun runs :: "test_step list \<Rightarrow> u32 \<Rightarrow> mock_world trustflow \<Rightarrow> bool" where
  "runs [] now s = True"
| "runs (f # fs) now s = (case perform f now s of None \<Rightarrow> False | Some s' \<Rightarrow> runs fs (advance_ledger f now) s')"

definition create_token :: mock_world where
  "create_token = [token_addr \<mapsto> \<lparr>mt_admin = Some issuer, mt_metadata = None, mt_balance = Map.empty\<rparr>]"

definition test_setup :: "u32 \<Rightarrow> test_step list" where
  "test_setup slash_bps = [Calls (Call_initialize admin token_addr slash_bps)]"

definition passes :: "test_step list \<Rightarrow> bool" where
  "passes test \<longleftrightarrow> runs test 0 (empty_storage create_token)"

text \<open>What the assertions read.\<close>

definition balance :: "address \<Rightarrow> mock_world trustflow \<Rightarrow> i128" where
  "balance addr s = mock_client_balance token_addr addr (world s)"

definition test_salt :: "u8 list" where "test_salt = replicate 32 7"

definition vote_hash :: "bool \<Rightarrow> u8 list" where "vote_hash v = hash_vote (test_env 0) v test_salt"

definition dispute_round :: "u64 \<Rightarrow> address list \<Rightarrow> address \<Rightarrow> test_step list" where
  "dispute_round escrow_id honest_jurors malicious_juror =
     [Mints depositor 1000,
      Creates depositor beneficiary 1000 escrow_id,
      Calls (Call_raise_dispute escrow_id depositor ''test dispute'')]
   @ map (\<lambda>j. Calls (Call_commit_vote escrow_id j (vote_hash True))) honest_jurors
   @ [Calls (Call_commit_vote escrow_id malicious_juror (vote_hash False)),
      Advance_ledger COMMIT_WINDOW_LEDGERS]
   @ map (\<lambda>j. Calls (Call_reveal_vote escrow_id j True test_salt)) honest_jurors
   @ [Calls (Call_reveal_vote escrow_id malicious_juror False test_salt),
      Advance_ledger REVEAL_WINDOW_LEDGERS,
      Calls (Call_resolve_dispute escrow_id)]"

section \<open>Basic staking\<close>

definition test_stake_and_unstake :: "test_step list" where
  "test_stake_and_unstake = test_setup DEFAULT_SLASH_BPS @
     [Mints juror 500,
      Calls (Call_stake juror 500),
      Asserts (\<lambda>_ s. get_stake juror s = 500), Asserts (\<lambda>_ s. balance juror s = 0),
      Calls (Call_unstake juror 200),
      Asserts (\<lambda>_ s. get_stake juror s = 300), Asserts (\<lambda>_ s. balance juror s = 200)]"

definition test_unstake_insufficient_funds :: "test_step list" where
  "test_unstake_insufficient_funds = test_setup DEFAULT_SLASH_BPS @
     [Mints juror 100,
      Calls (Call_stake juror 100),
      Rejects (Call_unstake juror 200) InsufficientStake]"

definition test_stake_zero_rejected :: "test_step list" where
  "test_stake_zero_rejected = test_setup DEFAULT_SLASH_BPS @
     [Rejects (Call_stake juror 0) InvalidAmount]"

lemma basic_staking_tests_pass:
  "list_all passes [test_stake_and_unstake, test_unstake_insufficient_funds,
     test_stake_zero_rejected]"
  by code_simp

section \<open>Dispute voting\<close>

definition test_commit_vote_requires_stake :: "test_step list" where
  "test_commit_vote_requires_stake = test_setup DEFAULT_SLASH_BPS @
     [Mints depositor 500,
      Creates depositor beneficiary 500 1,
      Calls (Call_raise_dispute 1 depositor ''test''),
      Rejects (Call_commit_vote 1 juror (vote_hash True)) InsufficientStake]"

definition test_commit_vote_duplicate_rejected :: "test_step list" where
  "test_commit_vote_duplicate_rejected = test_setup DEFAULT_SLASH_BPS @
     [Mints depositor 500, Mints juror 200,
      Calls (Call_stake juror 200),
      Creates depositor beneficiary 500 1,
      Calls (Call_raise_dispute 1 depositor ''test''),
      Calls (Call_commit_vote 1 juror (vote_hash True)),
      Rejects (Call_commit_vote 1 juror (vote_hash True)) AlreadyCommitted]"

definition test_commit_vote_after_commit_deadline_rejected :: "test_step list" where
  "test_commit_vote_after_commit_deadline_rejected = test_setup DEFAULT_SLASH_BPS @
     [Mints depositor 500, Mints juror 200,
      Calls (Call_stake juror 200),
      Creates depositor beneficiary 500 1,
      Calls (Call_raise_dispute 1 depositor ''test''),
      Advance_ledger COMMIT_WINDOW_LEDGERS,
      Rejects (Call_commit_vote 1 juror (vote_hash True)) CommitPhaseEnded]"

definition test_reveal_vote_before_commit_deadline_rejected :: "test_step list" where
  "test_reveal_vote_before_commit_deadline_rejected = test_setup DEFAULT_SLASH_BPS @
     [Mints depositor 500, Mints juror 200,
      Calls (Call_stake juror 200),
      Creates depositor beneficiary 500 1,
      Calls (Call_raise_dispute 1 depositor ''test''),
      Calls (Call_commit_vote 1 juror (vote_hash True)),
      Rejects (Call_reveal_vote 1 juror True test_salt) RevealPhaseNotOpen]"

definition test_reveal_vote_wrong_preimage_rejected :: "test_step list" where
  "test_reveal_vote_wrong_preimage_rejected = test_setup DEFAULT_SLASH_BPS @
     [Mints depositor 500, Mints juror 200,
      Calls (Call_stake juror 200),
      Creates depositor beneficiary 500 1,
      Calls (Call_raise_dispute 1 depositor ''test''),
      Calls (Call_commit_vote 1 juror (vote_hash True)),
      Advance_ledger COMMIT_WINDOW_LEDGERS,
      Rejects (Call_reveal_vote 1 juror False test_salt) InvalidReveal]"

definition test_reveal_vote_duplicate_rejected :: "test_step list" where
  "test_reveal_vote_duplicate_rejected = test_setup DEFAULT_SLASH_BPS @
     [Mints depositor 500, Mints juror 200,
      Calls (Call_stake juror 200),
      Creates depositor beneficiary 500 1,
      Calls (Call_raise_dispute 1 depositor ''test''),
      Calls (Call_commit_vote 1 juror (vote_hash True)),
      Advance_ledger COMMIT_WINDOW_LEDGERS,
      Calls (Call_reveal_vote 1 juror True test_salt),
      Rejects (Call_reveal_vote 1 juror True test_salt) AlreadyVoted]"

definition test_reveal_vote_without_commit_rejected :: "test_step list" where
  "test_reveal_vote_without_commit_rejected = test_setup DEFAULT_SLASH_BPS @
     [Mints depositor 500, Mints juror 200,
      Calls (Call_stake juror 200),
      Creates depositor beneficiary 500 1,
      Calls (Call_raise_dispute 1 depositor ''test''),
      Advance_ledger COMMIT_WINDOW_LEDGERS,
      Rejects (Call_reveal_vote 1 juror True test_salt) NoCommitFound]"

definition test_same_salt_across_different_disputes_does_not_collide :: "test_step list" where
  "test_same_salt_across_different_disputes_does_not_collide = test_setup DEFAULT_SLASH_BPS @
     [Mints depositor 500, Mints depositor2 500, Mints juror 400,
      Calls (Call_stake juror 400),
      Creates depositor beneficiary 500 1,
      Creates depositor2 beneficiary2 500 2,
      Calls (Call_raise_dispute 1 depositor ''d1''),
      Calls (Call_raise_dispute 2 depositor2 ''d2''),
      Calls (Call_commit_vote 1 juror (vote_hash True)),
      Calls (Call_commit_vote 2 juror (vote_hash True)),
      Advance_ledger COMMIT_WINDOW_LEDGERS,
      Calls (Call_reveal_vote 1 juror True test_salt),
      Calls (Call_reveal_vote 2 juror True test_salt)]"

definition test_commitment_cleared_after_reveal :: "test_step list" where
  "test_commitment_cleared_after_reveal = test_setup DEFAULT_SLASH_BPS @
     [Mints depositor 500, Mints juror 200,
      Calls (Call_stake juror 200),
      Creates depositor beneficiary 500 1,
      Calls (Call_raise_dispute 1 depositor ''test''),
      Calls (Call_commit_vote 1 juror (vote_hash True)),
      Asserts (\<lambda>_ s. has_key s (JurorCommit \<lparr>v_escrow_id = 1, v_juror = juror\<rparr>)),
      Advance_ledger COMMIT_WINDOW_LEDGERS,
      Calls (Call_reveal_vote 1 juror True test_salt),
      Asserts (\<lambda>_ s. \<not> has_key s (JurorCommit \<lparr>v_escrow_id = 1, v_juror = juror\<rparr>))]"

lemma dispute_voting_tests_pass:
  "list_all passes [test_commit_vote_requires_stake, test_commit_vote_duplicate_rejected,
     test_commit_vote_after_commit_deadline_rejected,
     test_reveal_vote_before_commit_deadline_rejected, test_reveal_vote_wrong_preimage_rejected,
     test_reveal_vote_duplicate_rejected, test_reveal_vote_without_commit_rejected,
     test_same_salt_across_different_disputes_does_not_collide,
     test_commitment_cleared_after_reveal]"
  by code_simp

end
