(* ===== verification/TrustFlow_Tests_Disputes.thy ===== *)
theory TrustFlow_Tests_Disputes
  imports TrustFlow_Tests
begin

text \<open>
  The unit tests of \<open>tests\<close> about resolution and slashing, run on the model.
\<close>

section \<open>Single round slashing\<close>

definition three_jurors :: "i128 \<Rightarrow> i128 \<Rightarrow> test_step list" where
  "three_jurors honest_stake malicious_stake =
     [Mints honest1 honest_stake, Mints honest2 honest_stake, Mints malicious malicious_stake,
      Calls (Call_stake honest1 honest_stake), Calls (Call_stake honest2 honest_stake),
      Calls (Call_stake malicious malicious_stake)]"

definition test_single_round_malicious_juror_slashed :: "test_step list" where
  "test_single_round_malicious_juror_slashed = test_setup 1000 @ three_jurors 500 1000 @
     [Asserts (\<lambda>_ s. get_stake malicious s = 1000)] @
     dispute_round 1 [honest1, honest2] malicious @
     [Asserts (\<lambda>_ s. get_stake malicious s = 900), Asserts (\<lambda>_ s. get_slash_count malicious s = 1)]"

definition test_honest_jurors_not_slashed :: "test_step list" where
  "test_honest_jurors_not_slashed = test_setup 1000 @ three_jurors 500 500 @
     dispute_round 1 [honest1, honest2] malicious @
     [Asserts (\<lambda>_ s. get_stake honest1 s = 500), Asserts (\<lambda>_ s. get_stake honest2 s = 500),
      Asserts (\<lambda>_ s. get_slash_count honest1 s = 0), Asserts (\<lambda>_ s. get_slash_count honest2 s = 0)]"

lemma single_round_slashing_tests_pass:
  "list_all passes [test_single_round_malicious_juror_slashed, test_honest_jurors_not_slashed]"
  by code_simp

section \<open>Several rounds\<close>

definition test_multiple_rounds_malicious_juror_balance_decreases :: "test_step list" where
  "test_multiple_rounds_malicious_juror_balance_decreases = test_setup 1000 @ three_jurors 10000 10000 @
     dispute_round 1 [honest1, honest2] malicious @
     [Asserts (\<lambda>_ s. get_stake malicious s < 10000), Asserts (\<lambda>_ s. get_stake malicious s = 9000),
      Asserts (\<lambda>_ s. get_slash_count malicious s = 1)] @
     dispute_round 2 [honest1, honest2] malicious @
     [Asserts (\<lambda>_ s. get_stake malicious s < 9000), Asserts (\<lambda>_ s. get_stake malicious s = 8100),
      Asserts (\<lambda>_ s. get_slash_count malicious s = 2)] @
     dispute_round 3 [honest1, honest2] malicious @
     [Asserts (\<lambda>_ s. get_stake malicious s < 8100), Asserts (\<lambda>_ s. get_slash_count malicious s = 3),
      Asserts (\<lambda>_ s. 7290 \<le> get_stake malicious s \<and> get_stake malicious s \<le> 7300)]"

definition progressive_round :: "u64 \<Rightarrow> i128 \<Rightarrow> i128 \<Rightarrow> test_step list" where
  "progressive_round round prev_stake current_stake = dispute_round round [honest1, honest2] malicious @
     [Asserts (\<lambda>_ s. get_stake malicious s < prev_stake), Asserts (\<lambda>_ s. get_stake malicious s = current_stake),
      Asserts (\<lambda>_ s. uint (get_slash_count malicious s) = uint round)]"

definition test_four_rounds_progressive_slashing :: "test_step list" where
  "test_four_rounds_progressive_slashing = test_setup 2000 @ three_jurors 5000 10000 @
     progressive_round 1 10000 8000 @ progressive_round 2 8000 6400 @
     progressive_round 3 6400 5120 @ progressive_round 4 5120 4096"

lemma several_rounds_tests_pass:
  "list_all passes [test_multiple_rounds_malicious_juror_balance_decreases,
     test_four_rounds_progressive_slashing]"
  by code_simp

section \<open>Ties\<close>

definition test_tie_favours_depositor :: "test_step list" where
  "test_tie_favours_depositor = test_setup 1000 @
     [Mints juror 500, Mints juror_b 500,
      Calls (Call_stake juror 500), Calls (Call_stake juror_b 500),
      Mints depositor 1000,
      Creates depositor beneficiary 1000 1,
      Calls (Call_raise_dispute 1 depositor ''tie-break test''),
      Calls (Call_commit_vote 1 juror (vote_hash True)),
      Calls (Call_commit_vote 1 juror_b (vote_hash False)),
      Advance_ledger COMMIT_WINDOW_LEDGERS,
      Calls (Call_reveal_vote 1 juror True test_salt),
      Calls (Call_reveal_vote 1 juror_b False test_salt),
      Advance_ledger REVEAL_WINDOW_LEDGERS,
      Rules 1 True,
      Asserts (\<lambda>_ s. get_slash_count juror_b s = 1), Asserts (\<lambda>_ s. get_stake juror_b s < 500),
      Asserts (\<lambda>_ s. get_slash_count juror s = 0), Asserts (\<lambda>_ s. get_stake juror s = 500),
      Asserts (\<lambda>_ s. balance depositor s = 1000)]"

lemma ties_tests_pass:
  "list_all passes [test_tie_favours_depositor]"
  by code_simp

section \<open>Edge cases\<close>

definition test_resolve_dispute_no_votes_fails :: "test_step list" where
  "test_resolve_dispute_no_votes_fails = test_setup 1000 @
     [Mints depositor 500,
      Creates depositor beneficiary 500 1,
      Calls (Call_raise_dispute 1 depositor ''test''),
      Advance_ledger (COMMIT_WINDOW_LEDGERS + REVEAL_WINDOW_LEDGERS),
      Rejects (Call_resolve_dispute 1) NoVotesCast]"

definition test_resolve_already_resolved_fails :: "test_step list" where
  "test_resolve_already_resolved_fails = test_setup 1000 @
     [Mints juror 500, Mints depositor 500,
      Calls (Call_stake juror 500),
      Creates depositor beneficiary 500 1,
      Calls (Call_raise_dispute 1 depositor ''test''),
      Calls (Call_commit_vote 1 juror (vote_hash True)),
      Advance_ledger COMMIT_WINDOW_LEDGERS,
      Calls (Call_reveal_vote 1 juror True test_salt),
      Advance_ledger REVEAL_WINDOW_LEDGERS,
      Calls (Call_resolve_dispute 1),
      Rejects (Call_resolve_dispute 1) DisputeAlreadyResolved]"

definition test_resolve_dispute_before_reveal_deadline_rejected :: "test_step list" where
  "test_resolve_dispute_before_reveal_deadline_rejected = test_setup DEFAULT_SLASH_BPS @
     [Mints depositor 500, Mints juror 200,
      Calls (Call_stake juror 200),
      Creates depositor beneficiary 500 1,
      Calls (Call_raise_dispute 1 depositor ''test''),
      Calls (Call_commit_vote 1 juror (vote_hash True)),
      Advance_ledger COMMIT_WINDOW_LEDGERS,
      Calls (Call_reveal_vote 1 juror True test_salt),
      Rejects (Call_resolve_dispute 1) RevealPhaseNotEnded]"

definition test_committed_but_unrevealed_vote_not_counted :: "test_step list" where
  "test_committed_but_unrevealed_vote_not_counted = test_setup DEFAULT_SLASH_BPS @
     [Mints depositor 500, Mints juror 200, Mints juror_b 200, Mints silent_juror 200,
      Calls (Call_stake juror 200), Calls (Call_stake juror_b 200), Calls (Call_stake silent_juror 200),
      Creates depositor beneficiary 500 1,
      Calls (Call_raise_dispute 1 depositor ''test''),
      Calls (Call_commit_vote 1 juror (vote_hash True)),
      Calls (Call_commit_vote 1 juror_b (vote_hash False)),
      Calls (Call_commit_vote 1 silent_juror (vote_hash True)),
      Advance_ledger COMMIT_WINDOW_LEDGERS,
      Calls (Call_reveal_vote 1 juror True test_salt),
      Calls (Call_reveal_vote 1 juror_b False test_salt),
      Advance_ledger REVEAL_WINDOW_LEDGERS,
      Rules 1 True,
      Asserts (\<lambda>_ s. get_slash_count juror_b s = 1), Asserts (\<lambda>_ s. get_stake juror_b s < 200),
      Asserts (\<lambda>_ s. get_slash_count silent_juror s = 0), Asserts (\<lambda>_ s. get_stake silent_juror s = 200),
      Asserts (\<lambda>_ s. get_slash_count juror s = 0), Asserts (\<lambda>_ s. get_stake juror s = 200)]"

definition test_slash_cannot_exceed_stake :: "test_step list" where
  "test_slash_cannot_exceed_stake = test_setup 10000 @ three_jurors 500 300 @
     dispute_round 1 [honest1, honest2] malicious @
     [Asserts (\<lambda>_ s. get_stake malicious s = 0)]"

lemma edge_cases_tests_pass:
  "list_all passes [test_resolve_dispute_no_votes_fails, test_resolve_already_resolved_fails,
     test_resolve_dispute_before_reveal_deadline_rejected,
     test_committed_but_unrevealed_vote_not_counted, test_slash_cannot_exceed_stake]"
  by code_simp

end
