(* ===== verification/TrustFlow_Tests_Escrows.thy ===== *)
theory TrustFlow_Tests_Escrows
  imports TrustFlow_Tests
begin

text \<open>
  The unit tests of \<open>tests\<close> about lifetimes, milestone releases, fees and the pause, run on
  the model.
\<close>

section \<open>Milestone escrows\<close>

definition milestone_of :: "string \<Rightarrow> i128 \<Rightarrow> u32 \<Rightarrow> milestone" where
  "milestone_of label amount release_time =
     \<lparr>m_label = label, m_amount = amount, m_approved = False, m_release_time = release_time\<rparr>"

definition setup_milestone_escrow :: "i128 \<Rightarrow> test_step list" where
  "setup_milestone_escrow milestone_amount =
     [Mints depositor milestone_amount,
      Inits depositor beneficiary [milestone_of ''Milestone 1'' milestone_amount 0] 1]"

text \<open>What the tests read of an escrow, of its snapshot and of its counters.\<close>

definition status_is :: "u64 \<Rightarrow> escrow_status \<Rightarrow> mock_world trustflow \<Rightarrow> bool" where
  "status_is i st s \<longleftrightarrow> (case p_escrow s i of Some e \<Rightarrow> e_status e = st | None \<Rightarrow> False)"

definition approvals_are :: "u64 \<Rightarrow> bool list \<Rightarrow> mock_world trustflow \<Rightarrow> bool" where
  "approvals_are i bs s \<longleftrightarrow> (case p_escrow s i of Some e \<Rightarrow> map m_approved (e_milestones e) = bs | None \<Rightarrow> False)"

definition read_escrow_fee_config :: "u64 \<Rightarrow> mock_world trustflow \<Rightarrow> escrow_fee_config option" where
  "read_escrow_fee_config i s = p_escrow_fee_config s i"

definition read_milestone_released :: "u64 \<Rightarrow> u32 \<Rightarrow> mock_world trustflow \<Rightarrow> i128" where
  "read_milestone_released i k s = unwrap_or (p_milestone_released s \<lparr>k_escrow_id = i, k_milestone_index = k\<rparr>) 0"

definition read_escrow_released :: "u64 \<Rightarrow> mock_world trustflow \<Rightarrow> i128" where
  "read_escrow_released i s = unwrap_or (p_escrow_released s i) 0"

definition dispute_open :: "u64 \<Rightarrow> mock_world trustflow \<Rightarrow> bool" where
  "dispute_open i s \<longleftrightarrow> (case p_dispute s i of Some d \<Rightarrow> \<not> d_resolved d | None \<Rightarrow> False)"

text \<open>A read of an archived entry traps: what a test reads after a long pause must be live.\<close>

definition live :: "datakey \<Rightarrow> u32 \<Rightarrow> mock_world trustflow \<Rightarrow> bool" where
  "live k now s \<longleftrightarrow> now \<le> p_live_until s k"

definition instance_live :: "u32 \<Rightarrow> mock_world trustflow \<Rightarrow> bool" where
  "instance_live now s \<longleftrightarrow> now \<le> i_live_until s"

definition test_init_escrow_with_milestones :: "test_step list" where
  "test_init_escrow_with_milestones = test_setup DEFAULT_SLASH_BPS @
     [Mints depositor 1000,
      Inits depositor beneficiary [milestone_of ''Design'' 400 0, milestone_of ''Development'' 600 0] 1,
      Asserts (\<lambda>_ s. balance depositor s = 0), Asserts (\<lambda>_ s. balance contract_addr s = 1000)]"

lemma milestone_escrows_tests_pass:
  "list_all passes [test_init_escrow_with_milestones]"
  by code_simp

section \<open>Time to live\<close>

definition test_create_escrow_survives_default_ttl_window :: "test_step list" where
  "test_create_escrow_survives_default_ttl_window = test_setup DEFAULT_SLASH_BPS @
     [Mints depositor 500,
      Creates depositor beneficiary 500 1,
      Advance_ledger 20000,
      Asserts instance_live, Asserts (live (Escrow 1)),
      Calls (Call_raise_dispute 1 depositor ''still here'')]"

definition test_bump_escrow_ttl_keeps_dormant_escrow_alive :: "test_step list" where
  "test_bump_escrow_ttl_keeps_dormant_escrow_alive = test_setup DEFAULT_SLASH_BPS @
     [Mints depositor 500,
      Creates depositor beneficiary 500 1,
      Advance_ledger (PERSISTENT_BUMP_AMOUNT - PERSISTENT_LIFETIME_THRESHOLD + 1),
      Calls (Call_bump_escrow_ttl 1),
      Advance_ledger PERSISTENT_LIFETIME_THRESHOLD,
      Asserts instance_live, Asserts (live (Escrow 1)),
      Calls (Call_raise_dispute 1 depositor ''kept alive by keeper'')]"

definition test_bump_escrow_ttl_also_refreshes_dispute_storage :: "test_step list" where
  "test_bump_escrow_ttl_also_refreshes_dispute_storage = test_setup DEFAULT_SLASH_BPS @
     [Mints juror 500, Mints depositor 500,
      Calls (Call_stake juror 500),
      Creates depositor beneficiary 500 1,
      Calls (Call_raise_dispute 1 depositor ''slow juror''),
      Calls (Call_commit_vote 1 juror (vote_hash True)),
      Advance_ledger (PERSISTENT_BUMP_AMOUNT - PERSISTENT_LIFETIME_THRESHOLD + 1),
      Calls (Call_bump_escrow_ttl 1),
      Calls (Call_bump_juror_stake_ttl juror),
      Advance_ledger PERSISTENT_LIFETIME_THRESHOLD,
      Asserts (live (Dispute 1)), Asserts (\<lambda>_ s. dispute_open 1 s),
      Asserts (live (JurorStake juror)), Asserts (\<lambda>_ s. get_stake juror s = 500)]"

definition test_bump_escrow_ttl_nonexistent_escrow_fails :: "test_step list" where
  "test_bump_escrow_ttl_nonexistent_escrow_fails = test_setup DEFAULT_SLASH_BPS @
     [Rejects (Call_bump_escrow_ttl 999) EscrowNotFound]"

definition test_bump_escrow_ttl_emits_event :: "test_step list" where
  "test_bump_escrow_ttl_emits_event = test_setup DEFAULT_SLASH_BPS @
     [Mints depositor 500,
      Creates depositor beneficiary 500 1,
      Advance_ledger (PERSISTENT_BUMP_AMOUNT - PERSISTENT_LIFETIME_THRESHOLD + 1),
      Bumps_escrow 1 (\<lambda>now. saturating_add now PERSISTENT_BUMP_AMOUNT),
      Asserts (\<lambda>now s. last (events s) = EscrowTtlBumped 1 (saturating_add now PERSISTENT_BUMP_AMOUNT))]"

definition test_bump_escrow_ttl_triggers_exactly_at_threshold_boundary :: "test_step list" where
  "test_bump_escrow_ttl_triggers_exactly_at_threshold_boundary = test_setup DEFAULT_SLASH_BPS @
     [Mints depositor 500,
      Creates depositor beneficiary 500 1,
      Advance_ledger (PERSISTENT_BUMP_AMOUNT - PERSISTENT_LIFETIME_THRESHOLD),
      Calls (Call_bump_escrow_ttl 1),
      Advance_ledger (PERSISTENT_LIFETIME_THRESHOLD + 1),
      Asserts instance_live, Asserts (live (Escrow 1)),
      Calls (Call_raise_dispute 1 depositor ''right at the boundary'')]"

definition test_bump_juror_stake_ttl_nonexistent_juror_fails :: "test_step list" where
  "test_bump_juror_stake_ttl_nonexistent_juror_fails = test_setup DEFAULT_SLASH_BPS @
     [Rejects (Call_bump_juror_stake_ttl juror) JurorStakeNotFound]"

definition test_bump_juror_stake_ttl_emits_event :: "test_step list" where
  "test_bump_juror_stake_ttl_emits_event = test_setup DEFAULT_SLASH_BPS @
     [Mints juror 500,
      Calls (Call_stake juror 500),
      Advance_ledger (PERSISTENT_BUMP_AMOUNT - PERSISTENT_LIFETIME_THRESHOLD + 1),
      Bumps_juror juror (\<lambda>now. saturating_add now PERSISTENT_BUMP_AMOUNT),
      Asserts (\<lambda>now s. last (events s) = JurorStakeTtlBumped juror (saturating_add now PERSISTENT_BUMP_AMOUNT))]"

definition test_instance_ttl_survives_long_dormancy_between_calls :: "test_step list" where
  "test_instance_ttl_survives_long_dormancy_between_calls = test_setup DEFAULT_SLASH_BPS @
     [Advance_ledger 20000,
      Mints juror 100,
      Asserts instance_live,
      Calls (Call_stake juror 100),
      Asserts (\<lambda>_ s. get_stake juror s = 100)]"

lemma time_to_live_tests_pass:
  "list_all passes [test_create_escrow_survives_default_ttl_window,
     test_bump_escrow_ttl_keeps_dormant_escrow_alive,
     test_bump_escrow_ttl_also_refreshes_dispute_storage,
     test_bump_escrow_ttl_nonexistent_escrow_fails, test_bump_escrow_ttl_emits_event,
     test_bump_escrow_ttl_triggers_exactly_at_threshold_boundary,
     test_bump_juror_stake_ttl_nonexistent_juror_fails, test_bump_juror_stake_ttl_emits_event,
     test_instance_ttl_survives_long_dormancy_between_calls]"
  by code_simp

section \<open>Milestone releases\<close>

definition test_release_milestone_exact_fee_split :: "test_step list" where
  "test_release_milestone_exact_fee_split = test_setup DEFAULT_SLASH_BPS @ setup_milestone_escrow 10000 @
     [Calls (Call_release_milestone_tranche 1 0 10000 depositor),
      Asserts (\<lambda>_ s. balance beneficiary s = 9950), Asserts (\<lambda>_ s. balance admin s = 50),
      Asserts (\<lambda>_ s. balance contract_addr s = 0),
      Asserts (\<lambda>_ s. status_is 1 Settled s), Asserts (\<lambda>_ s. approvals_are 1 [True] s)]"

definition test_release_milestone_rounding_zero_fee_tranche :: "test_step list" where
  "test_release_milestone_rounding_zero_fee_tranche = test_setup DEFAULT_SLASH_BPS @ setup_milestone_escrow 1000 @
     [Calls (Call_release_milestone_tranche 1 0 100 depositor),
      Asserts (\<lambda>_ s. balance beneficiary s = 100), Asserts (\<lambda>_ s. balance admin s = 0),
      Asserts (\<lambda>_ s. read_milestone_released 1 0 s = 100)]"

definition test_multiple_partial_releases_accumulate :: "test_step list" where
  "test_multiple_partial_releases_accumulate = test_setup DEFAULT_SLASH_BPS @ setup_milestone_escrow 1000 @
     [Calls (Call_release_milestone_tranche 1 0 400 depositor),
      Asserts (\<lambda>_ s. read_milestone_released 1 0 s = 400), Asserts (\<lambda>_ s. read_escrow_released 1 s = 400),
      Asserts (\<lambda>_ s. status_is 1 Active s),
      Calls (Call_release_milestone_tranche 1 0 300 depositor),
      Asserts (\<lambda>_ s. read_milestone_released 1 0 s = 700), Asserts (\<lambda>_ s. read_escrow_released 1 s = 700),
      Asserts (\<lambda>_ s. status_is 1 Active s)]"

definition test_final_release_settles_escrow :: "test_step list" where
  "test_final_release_settles_escrow = test_setup DEFAULT_SLASH_BPS @
     [Mints depositor 1000,
      Inits depositor beneficiary [milestone_of ''M1'' 400 0, milestone_of ''M2'' 600 0] 1,
      Calls (Call_release_milestone_tranche 1 0 400 depositor),
      Asserts (\<lambda>_ s. status_is 1 Active s),
      Calls (Call_release_milestone_tranche 1 1 600 depositor),
      Asserts (\<lambda>_ s. status_is 1 Settled s), Asserts (\<lambda>_ s. approvals_are 1 [True, True] s)]"

definition test_release_zero_amount_rejected :: "test_step list" where
  "test_release_zero_amount_rejected = test_setup DEFAULT_SLASH_BPS @ setup_milestone_escrow 1000 @
     [Rejects (Call_release_milestone_tranche 1 0 0 depositor) InvalidAmount]"

definition test_release_excessive_amount_rejected :: "test_step list" where
  "test_release_excessive_amount_rejected = test_setup DEFAULT_SLASH_BPS @ setup_milestone_escrow 1000 @
     [Rejects (Call_release_milestone_tranche 1 0 1001 depositor) MilestoneAmountMismatch,
      Calls (Call_release_milestone_tranche 1 0 600 depositor),
      Rejects (Call_release_milestone_tranche 1 0 500 depositor) MilestoneAmountMismatch,
      Asserts (\<lambda>_ s. read_milestone_released 1 0 s = 600)]"

definition test_release_nonexistent_milestone_rejected :: "test_step list" where
  "test_release_nonexistent_milestone_rejected = test_setup DEFAULT_SLASH_BPS @ setup_milestone_escrow 1000 @
     [Rejects (Call_release_milestone_tranche 1 5 100 depositor) MilestoneNotFound]"

definition test_release_unauthorized_caller_rejected :: "test_step list" where
  "test_release_unauthorized_caller_rejected = test_setup DEFAULT_SLASH_BPS @ setup_milestone_escrow 1000 @
     [Rejects (Call_release_milestone_tranche 1 0 500 beneficiary) Unauthorized]"

definition test_release_on_disputed_escrow_rejected :: "test_step list" where
  "test_release_on_disputed_escrow_rejected = test_setup DEFAULT_SLASH_BPS @ setup_milestone_escrow 1000 @
     [Calls (Call_raise_dispute 1 depositor ''test''),
      Rejects (Call_release_milestone_tranche 1 0 500 depositor) InvalidState]"

definition test_release_on_settled_escrow_rejected :: "test_step list" where
  "test_release_on_settled_escrow_rejected = test_setup DEFAULT_SLASH_BPS @ setup_milestone_escrow 1000 @
     [Calls (Call_release_milestone_tranche 1 0 1000 depositor),
      Asserts (\<lambda>_ s. status_is 1 Settled s),
      Rejects (Call_release_milestone_tranche 1 0 1 depositor) InvalidState]"

lemma milestone_releases_tests_pass:
  "list_all passes [test_release_milestone_exact_fee_split,
     test_release_milestone_rounding_zero_fee_tranche, test_multiple_partial_releases_accumulate,
     test_final_release_settles_escrow, test_release_zero_amount_rejected,
     test_release_excessive_amount_rejected, test_release_nonexistent_milestone_rejected,
     test_release_unauthorized_caller_rejected, test_release_on_disputed_escrow_rejected,
     test_release_on_settled_escrow_rejected]"
  by code_simp

section \<open>Time-locked milestones\<close>

definition test_milestone_time_locked_rejects_early_release :: "test_step list" where
  "test_milestone_time_locked_rejects_early_release = test_setup DEFAULT_SLASH_BPS @
     [Mints depositor 1000,
      Inits depositor beneficiary [milestone_of ''Milestone 1'' 1000 (0 + 100)] 1,
      Rejects (Call_release_milestone_tranche 1 0 1000 depositor) MilestoneTimeLocked]"

definition test_milestone_time_locked_allows_release_after_deadline :: "test_step list" where
  "test_milestone_time_locked_allows_release_after_deadline = test_setup DEFAULT_SLASH_BPS @
     [Mints depositor 1000,
      Inits depositor beneficiary [milestone_of ''Milestone 1'' 1000 (0 + 10)] 1,
      Rejects (Call_release_milestone_tranche 1 0 1000 depositor) MilestoneTimeLocked,
      Advance_ledger 10,
      Calls (Call_release_milestone_tranche 1 0 1000 depositor),
      Asserts (\<lambda>_ s. balance beneficiary s = 995)]"

definition test_milestone_time_locked_partial_release :: "test_step list" where
  "test_milestone_time_locked_partial_release = test_setup DEFAULT_SLASH_BPS @
     [Mints depositor 1000,
      Inits depositor beneficiary [milestone_of ''Milestone 1'' 1000 (0 + 10)] 1,
      Rejects (Call_release_milestone_tranche 1 0 500 depositor) MilestoneTimeLocked,
      Advance_ledger 10,
      Calls (Call_release_milestone_tranche 1 0 500 depositor),
      Asserts (\<lambda>_ s. balance beneficiary s = 498),
      Calls (Call_release_milestone_tranche 1 0 500 depositor),
      Asserts (\<lambda>_ s. balance beneficiary s = 995)]"

definition test_multiple_milestones_different_time_locks :: "test_step list" where
  "test_multiple_milestones_different_time_locks = test_setup DEFAULT_SLASH_BPS @
     [Mints depositor 1000,
      Inits depositor beneficiary [milestone_of ''M1'' 400 0, milestone_of ''M2'' 600 (0 + 20)] 1,
      Calls (Call_release_milestone_tranche 1 0 400 depositor),
      Asserts (\<lambda>_ s. balance beneficiary s = 398),
      Rejects (Call_release_milestone_tranche 1 1 600 depositor) MilestoneTimeLocked,
      Advance_ledger 20,
      Calls (Call_release_milestone_tranche 1 1 600 depositor),
      Asserts (\<lambda>_ s. balance beneficiary s = 995)]"

definition test_milestone_no_time_lock_immediate_release :: "test_step list" where
  "test_milestone_no_time_lock_immediate_release = test_setup DEFAULT_SLASH_BPS @
     [Mints depositor 1000,
      Inits depositor beneficiary [milestone_of ''Milestone 1'' 1000 0] 1,
      Calls (Call_release_milestone_tranche 1 0 1000 depositor),
      Asserts (\<lambda>_ s. balance beneficiary s = 995)]"

lemma time_locked_milestones_tests_pass:
  "list_all passes [test_milestone_time_locked_rejects_early_release,
     test_milestone_time_locked_allows_release_after_deadline,
     test_milestone_time_locked_partial_release, test_multiple_milestones_different_time_locks,
     test_milestone_no_time_lock_immediate_release]"
  by code_simp

section \<open>Fees and their snapshot\<close>

text \<open>The same amount in three tranches and in one, in two deployments: fee and payout by difference.\<close>

definition fragmented_releases :: "test_step list" where
  "fragmented_releases = test_setup DEFAULT_SLASH_BPS @ setup_milestone_escrow 333 @
     [Asserts (\<lambda>_ s. balance admin s = 0), Asserts (\<lambda>_ s. balance beneficiary s = 0),
      Calls (Call_release_milestone_tranche 1 0 111 depositor),
      Calls (Call_release_milestone_tranche 1 0 111 depositor),
      Calls (Call_release_milestone_tranche 1 0 111 depositor),
      Asserts (\<lambda>_ s. balance admin s = 333 * uint DEFAULT_FEE_BPS div BPS_DENOMINATOR),
      Asserts (\<lambda>_ s. balance beneficiary s + balance admin s = 333)]"

definition one_shot_release :: "test_step list" where
  "one_shot_release = test_setup DEFAULT_SLASH_BPS @ setup_milestone_escrow 333 @
     [Asserts (\<lambda>_ s. balance admin s = 0),
      Calls (Call_release_milestone_tranche 1 0 333 depositor),
      Asserts (\<lambda>_ s. balance admin s = 333 * uint DEFAULT_FEE_BPS div BPS_DENOMINATOR)]"

definition test_set_fee_bps_authorization_and_limits :: "test_step list" where
  "test_set_fee_bps_authorization_and_limits = test_setup DEFAULT_SLASH_BPS @
     [Asserts (\<lambda>_ s. get_treasury s = Ok admin), Asserts (\<lambda>_ s. get_fee_bps s = DEFAULT_FEE_BPS),
      Calls (Call_set_fee_bps admin 200), Asserts (\<lambda>_ s. get_fee_bps s = 200),
      Rejects (Call_set_fee_bps admin 1001) InvalidFeeBps, Asserts (\<lambda>_ s. get_fee_bps s = 200),
      Rejects (Call_set_fee_bps outsider 100) Unauthorized, Asserts (\<lambda>_ s. get_fee_bps s = 200)]"

definition test_set_treasury_authorization :: "test_step list" where
  "test_set_treasury_authorization = test_setup DEFAULT_SLASH_BPS @
     [Rejects (Call_set_treasury outsider new_treasury) Unauthorized, Asserts (\<lambda>_ s. get_treasury s = Ok admin),
      Calls (Call_set_treasury admin new_treasury), Asserts (\<lambda>_ s. get_treasury s = Ok new_treasury)]"

definition test_escrow_fee_snapshot_immutable_after_fee_change :: "test_step list" where
  "test_escrow_fee_snapshot_immutable_after_fee_change = test_setup DEFAULT_SLASH_BPS @ setup_milestone_escrow 1000 @
     [Asserts (\<lambda>_ s. read_escrow_fee_config 1 s = Some \<lparr>f_treasury = admin, f_fee_bps = DEFAULT_FEE_BPS\<rparr>),
      Calls (Call_set_fee_bps admin 500),
      Asserts (\<lambda>_ s. read_escrow_fee_config 1 s = Some \<lparr>f_treasury = admin, f_fee_bps = DEFAULT_FEE_BPS\<rparr>),
      Mints depositor2 1000,
      Creates depositor2 beneficiary2 1000 2,
      Asserts (\<lambda>_ s. map_option f_fee_bps (read_escrow_fee_config 2 s) = Some 500)]"

definition test_escrow_treasury_snapshot_immutable_after_treasury_change :: "test_step list" where
  "test_escrow_treasury_snapshot_immutable_after_treasury_change = test_setup DEFAULT_SLASH_BPS @ setup_milestone_escrow 1000 @
     [Asserts (\<lambda>_ s. read_escrow_fee_config 1 s = Some \<lparr>f_treasury = admin, f_fee_bps = DEFAULT_FEE_BPS\<rparr>),
      Calls (Call_set_treasury admin new_treasury),
      Asserts (\<lambda>_ s. read_escrow_fee_config 1 s = Some \<lparr>f_treasury = admin, f_fee_bps = DEFAULT_FEE_BPS\<rparr>),
      Mints depositor2 1000,
      Creates depositor2 beneficiary2 1000 2,
      Asserts (\<lambda>_ s. map_option f_treasury (read_escrow_fee_config 2 s) = Some new_treasury)]"

definition test_release_milestone_tranche_emits_event :: "test_step list" where
  "test_release_milestone_tranche_emits_event = test_setup DEFAULT_SLASH_BPS @ setup_milestone_escrow 10000 @
     [Calls (Call_release_milestone_tranche 1 0 10000 depositor),
      Asserts (\<lambda>_ s. last (events s) = MilestoneTrancheReleased 1 0 10000 50 9950 10000 10000 beneficiary admin)]"

lemma fees_and_their_snapshot_tests_pass:
  "list_all passes [fragmented_releases, one_shot_release,
     test_set_fee_bps_authorization_and_limits, test_set_treasury_authorization,
     test_escrow_fee_snapshot_immutable_after_fee_change,
     test_escrow_treasury_snapshot_immutable_after_treasury_change,
     test_release_milestone_tranche_emits_event]"
  by code_simp

section \<open>Disputes after a partial release\<close>

definition test_raise_dispute_refreshes_partial_release_accounting_ttl :: "test_step list" where
  "test_raise_dispute_refreshes_partial_release_accounting_ttl = test_setup DEFAULT_SLASH_BPS @ setup_milestone_escrow 1000 @
     [Calls (Call_release_milestone_tranche 1 0 400 depositor),
      Advance_ledger (PERSISTENT_BUMP_AMOUNT - PERSISTENT_LIFETIME_THRESHOLD + 1),
      Calls (Call_raise_dispute 1 depositor ''ttl regression''),
      Advance_ledger PERSISTENT_LIFETIME_THRESHOLD,
      Asserts (live (EscrowReleased 1)), Asserts (\<lambda>_ s. read_escrow_released 1 s = 400),
      Asserts (live (Escrow 1)), Asserts (\<lambda>_ s. status_is 1 Disputed s)]"

definition test_dispute_settlement_after_partial_release_transfers_remaining_only :: "test_step list" where
  "test_dispute_settlement_after_partial_release_transfers_remaining_only = test_setup DEFAULT_SLASH_BPS @ setup_milestone_escrow 1000 @
     [Calls (Call_release_milestone_tranche 1 0 400 depositor),
      Asserts (\<lambda>_ s. balance beneficiary s = 398),
      Calls (Call_raise_dispute 1 depositor ''scope changed''),
      Mints juror 500, Calls (Call_stake juror 500),
      Calls (Call_commit_vote 1 juror (vote_hash False)),
      Advance_ledger COMMIT_WINDOW_LEDGERS,
      Calls (Call_reveal_vote 1 juror False test_salt),
      Advance_ledger REVEAL_WINDOW_LEDGERS,
      Asserts (\<lambda>_ s. balance contract_addr s = 1100),
      Calls (Call_resolve_dispute 1),
      Asserts (\<lambda>_ s. balance beneficiary s = 398 + 600), Asserts (\<lambda>_ s. balance contract_addr s = 1100 - 600),
      Asserts (\<lambda>_ s. status_is 1 Settled s)]"

definition test_no_balance_leakage_matches_gross_release :: "test_step list" where
  "test_no_balance_leakage_matches_gross_release = test_setup DEFAULT_SLASH_BPS @ setup_milestone_escrow 10000 @
     [Asserts (\<lambda>_ s. balance contract_addr s = 10000),
      Calls (Call_release_milestone_tranche 1 0 3333 depositor),
      Calls (Call_release_milestone_tranche 1 0 3333 depositor),
      Calls (Call_release_milestone_tranche 1 0 3334 depositor),
      Asserts (\<lambda>_ s. balance contract_addr s = 0), Asserts (\<lambda>_ s. status_is 1 Settled s)]"

lemma disputes_after_a_partial_release_tests_pass:
  "list_all passes [test_raise_dispute_refreshes_partial_release_accounting_ttl,
     test_dispute_settlement_after_partial_release_transfers_remaining_only,
     test_no_balance_leakage_matches_gross_release]"
  by code_simp

section \<open>Rollback\<close>

definition test_release_milestone_tranche_rolls_back_atomically_on_transfer_failure :: "test_step list" where
  "test_release_milestone_tranche_rolls_back_atomically_on_transfer_failure = test_setup DEFAULT_SLASH_BPS @ setup_milestone_escrow 10000 @
     [Burns contract_addr 50,
      Asserts (\<lambda>_ s. balance contract_addr s = 9950), Asserts (\<lambda>_ s. balance beneficiary s = 0),
      Asserts (\<lambda>_ s. balance admin s = 0), Asserts (\<lambda>_ s. map_option e_amount (p_escrow s 1) = Some 10000),
      Asserts (\<lambda>_ s. read_milestone_released 1 0 s = 0), Asserts (\<lambda>_ s. read_escrow_released 1 s = 0),
      Rejects (Call_release_milestone_tranche 1 0 10000 depositor) TokenTransferFailed,
      Asserts (\<lambda>_ s. balance beneficiary s = 0), Asserts (\<lambda>_ s. balance admin s = 0),
      Asserts (\<lambda>_ s. balance contract_addr s = 9950),
      Asserts (\<lambda>_ s. status_is 1 Active s), Asserts (\<lambda>_ s. approvals_are 1 [False] s),
      Asserts (\<lambda>_ s. read_milestone_released 1 0 s = 0), Asserts (\<lambda>_ s. read_escrow_released 1 s = 0),
      Asserts (\<lambda>_ s. list_all (\<lambda>e. \<not> is_MilestoneTrancheReleased e) (events s))]"

lemma rollback_tests_pass:
  "list_all passes [test_release_milestone_tranche_rolls_back_atomically_on_transfer_failure]"
  by code_simp

section \<open>Pause\<close>

definition test_pause_and_unpause_by_admin :: "test_step list" where
  "test_pause_and_unpause_by_admin = test_setup 1000 @
     [Asserts (\<lambda>_ s. \<not> is_paused s),
      Calls (Call_pause admin), Asserts (\<lambda>_ s. is_paused s),
      Calls (Call_unpause admin), Asserts (\<lambda>_ s. \<not> is_paused s)]"

definition test_pauser_role_can_pause_and_cannot_unpause :: "test_step list" where
  "test_pauser_role_can_pause_and_cannot_unpause = test_setup 1000 @
     [Calls (Call_set_pauser admin pauser), Asserts (\<lambda>_ s. get_pauser s = Some pauser),
      Calls (Call_pause pauser), Asserts (\<lambda>_ s. is_paused s),
      Rejects (Call_unpause pauser) Unauthorized, Asserts (\<lambda>_ s. is_paused s),
      Calls (Call_unpause admin), Asserts (\<lambda>_ s. \<not> is_paused s)]"

definition test_set_and_revoke_pauser_admin_only :: "test_step list" where
  "test_set_and_revoke_pauser_admin_only = test_setup 1000 @
     [Rejects (Call_set_pauser outsider pauser) Unauthorized, Asserts (\<lambda>_ s. get_pauser s = None),
      Calls (Call_set_pauser admin pauser), Asserts (\<lambda>_ s. get_pauser s = Some pauser),
      Rejects (Call_revoke_pauser outsider) Unauthorized, Asserts (\<lambda>_ s. get_pauser s = Some pauser),
      Calls (Call_revoke_pauser admin), Asserts (\<lambda>_ s. get_pauser s = None),
      Rejects (Call_pause pauser) Unauthorized]"

definition test_unauthorized_callers_cannot_pause_or_unpause :: "test_step list" where
  "test_unauthorized_callers_cannot_pause_or_unpause = test_setup 1000 @
     [Rejects (Call_pause outsider) Unauthorized,
      Rejects (Call_unpause outsider) Unauthorized]"

definition test_circuit_breaker_halts_sensitive_entrypoints :: "test_step list" where
  "test_circuit_breaker_halts_sensitive_entrypoints = test_setup 1000 @
     [Mints depositor 100000, Mints juror 100000,
      Calls (Call_pause admin), Asserts (\<lambda>_ s. is_paused s),
      Rejects (Call_stake juror 10000) ContractPausedError,
      Rejects (Call_unstake juror 1000) ContractPausedError,
      Rejects (Call_create_escrow depositor beneficiary 50000) ContractPausedError,
      Rejects (Call_init_escrow depositor beneficiary [milestone_of ''M1'' 50000 0]) ContractPausedError,
      Calls (Call_unpause admin),
      Inits depositor beneficiary [milestone_of ''M1'' 50000 0] 1,
      Calls (Call_stake juror 10000),
      Calls (Call_pause admin),
      Rejects (Call_release_milestone_tranche 1 0 50000 depositor) ContractPausedError,
      Rejects (Call_raise_dispute 1 depositor ''Issue'') ContractPausedError,
      Calls (Call_unpause admin),
      Calls (Call_raise_dispute 1 depositor ''Issue''),
      Calls (Call_pause admin),
      Rejects (Call_commit_vote 1 juror (replicate 32 1)) ContractPausedError,
      Rejects (Call_reveal_vote 1 juror True (replicate 32 2)) ContractPausedError,
      Rejects (Call_resolve_dispute 1) ContractPausedError]"

definition test_read_only_and_maintenance_work_during_pause :: "test_step list" where
  "test_read_only_and_maintenance_work_during_pause = test_setup 1000 @
     [Mints depositor 100000, Mints juror 100000,
      Creates depositor beneficiary 50000 1,
      Calls (Call_stake juror 10000),
      Calls (Call_pause admin),
      Asserts (\<lambda>_ s. get_fee_bps s = 50), Asserts (\<lambda>_ s. get_stake juror s = 10000),
      Asserts (\<lambda>_ s. get_slash_count juror s = 0), Asserts (\<lambda>_ s. is_paused s),
      Bumps_escrow 1 (\<lambda>now. saturating_add now PERSISTENT_BUMP_AMOUNT),
      Bumps_juror juror (\<lambda>now. saturating_add now PERSISTENT_BUMP_AMOUNT)]"

definition test_unpause_resumes_operations_funds_not_stranded :: "test_step list" where
  "test_unpause_resumes_operations_funds_not_stranded = test_setup 1000 @
     [Mints depositor 100000,
      Inits depositor beneficiary [milestone_of ''M1'' 50000 0] 1,
      Calls (Call_set_pauser admin pauser),
      Calls (Call_pause pauser),
      Rejects (Call_release_milestone_tranche 1 0 50000 depositor) ContractPausedError,
      Calls (Call_unpause admin),
      Calls (Call_release_milestone_tranche 1 0 50000 depositor),
      Asserts (\<lambda>_ s. balance beneficiary s = 49750)]"

lemma pause_tests_pass:
  "list_all passes [test_pause_and_unpause_by_admin, test_pauser_role_can_pause_and_cannot_unpause,
     test_set_and_revoke_pauser_admin_only, test_unauthorized_callers_cannot_pause_or_unpause,
     test_circuit_breaker_halts_sensitive_entrypoints,
     test_read_only_and_maintenance_work_during_pause,
     test_unpause_resumes_operations_funds_not_stranded]"
  by code_simp

end
