(* ===== verification/Spec2Isabelle.thy ===== *)
theory Spec2Isabelle
  imports TrustFlow_Votes TrustFlow_Progress TrustFlow_Deadlock TrustFlow_Authority TrustFlow_Calls
    TrustFlow_Lifecycle TrustFlow_Evasion TrustFlow_On_Abundance
    Token_Properties Crowdfund_Properties Core_Properties
    TrustFlow_Tests_Disputes TrustFlow_Tests_Escrows
begin

text \<open>
  Verification of the TrustFlow contracts: the Soroban smart contracts under \<open>contracts/\<close>.

  \<^bold>\<open>The program.\<close> Five crates. \<open>contracts/trustflow\<close> is the escrow contract: a depositor
  locks tokens for a beneficiary and releases them in milestone tranches, a protocol fee goes to
  a treasury, and a disputed escrow is settled by staked jurors who vote by commit and reveal.
  \<open>contracts/mock-token\<close> and \<open>contracts/abundance\<close> are tokens, \<open>contracts/crowdfund\<close> is a
  fundraising contract, and \<open>contracts/src\<close> is the core protocol crate, with an older dispute
  entry point and four modules it does not compile in. The escrow and the crowdfunding contract
  are clients of a token contract; the contracts do not call each other otherwise.

  \<^bold>\<open>How the code is modelled.\<close> A contract's storage is a record: the instance keys and the
  persistent keys of its \<open>DataKey\<close> are fields (a map where the key has an argument), next to
  the published events, the expiration ledger of the entries, and the world outside the
  contract. An entry point is a function of the environment, its arguments and the state.
  \<open>u32\<close> and \<open>u64\<close> are words, \<open>i128\<close> and \<open>u128\<close> integers with the range check written out in
  every checked, saturating or casting operation (\<open>Prelude\<close>). A function that returns
  \<open>Result\<close> has an \<open>outcome\<close>: \<open>Ok\<close> with value and new state, \<open>Err\<close> with the error, or \<open>Panic\<close>; the
  contracts that only panic return an \<open>option\<close>. The host commits the state of \<open>Ok\<close> alone. What
  the host and other contracts do (authorisation, the clock, SHA-256, the TTL rule, the token
  calls) is a field of the environment (\<open>Host\<close>), that is, a parameter; what the code relies on
  is stated as laws in the locales \<open>ttl_host\<close>, \<open>token_client\<close>, \<open>live_token\<close>, \<open>hosted\<close> and
  \<open>crowd_host\<close>. Each is interpreted: the token interface on the repository's two tokens
  (\<open>Mock_Token\<close>, \<open>Abundance\<close>), the hosts on the mock token (\<open>TrustFlow_Scenario\<close>,
  \<open>Crowdfund_Properties\<close>).

  \<^bold>\<open>The theories.\<close>
  \<^item> \<open>Prelude\<close>, \<open>Host\<close>, \<open>Token_Interface\<close>: arithmetic, results, environment, interfaces.
  \<^item> \<open>trustflow/src/lib.rs\<close>: \<open>TrustFlow_State\<close> (keys, records, errors, events, TTL helpers,
    pause check), \<open>TrustFlow_Fee\<close> (\<open>cumulative_fee\<close>, the snapshot, \<open>try_token_transfer\<close>),
    \<open>TrustFlow_Admin\<close> (initialisation, settings, circuit breaker), \<open>TrustFlow_Stake\<close>,
    \<open>TrustFlow_Escrow\<close> (creation and release), \<open>TrustFlow_Dispute\<close> (raising, voting, tally,
    slashing, settlement), \<open>TrustFlow_Ttl\<close> (the escrow keeper). Each operation is one
    definition, and a lemma \<open>..._Ok\<close> says what its success means.
  \<^item> \<open>TrustFlow_System\<close>: the state machine of a deployment, with calls by anyone, time, and moves of
    the rest of the world that do not spend the contract's tokens. \<open>TrustFlow_Invariants\<close> and
    \<open>TrustFlow_Preservation\<close>: its invariant (settings, stakes, escrow accounting, disputes and
    votes, funds) and that every call keeps it. \<open>TrustFlow_History\<close>: what no call can undo, and
    the fees in the event log. \<open>TrustFlow_Scenario\<close>: scripts of calls on the mock token, the
    concrete states of the witnesses.
  \<^item> The guarantees: \<open>TrustFlow_Properties\<close> (solvency, accounting, dispute protocol, fee split),
    \<open>TrustFlow_Lifecycle\<close> (every call implements one step of an abstract escrow; the round trip
    of a vote; well-formed states), \<open>TrustFlow_Votes\<close> (binding commitments, disjoint windows, the
    outcome of a resolution), \<open>TrustFlow_Progress\<close> (what must go through), \<open>TrustFlow_Authority\<close>
    (who can do what), \<open>TrustFlow_Calls\<close> (single calls to the unit), \<open>TrustFlow_Deadlock\<close> and
    \<open>TrustFlow_Evasion\<close> (what the code lets happen although it should not).
  \<^item> \<open>TrustFlow_Tests\<close>, \<open>TrustFlow_Tests_Disputes\<close>, \<open>TrustFlow_Tests_Escrows\<close>: the unit tests of the
    escrow contract as scripts of calls, errors and assertions, evaluated on the model from a
    fresh deployment; the lemmas \<open>..._tests_pass\<close> say that the model behaves as the tests expect.
  \<^item> \<open>Mock_Token\<close>, \<open>Abundance\<close>, \<open>Token_Properties\<close>: the two tokens; supply, authority over
    balances, allowances, and that both transfer alike. \<open>TrustFlow_On_Abundance\<close>: the escrow
    contract and the Abundance token composed.
  \<^item> \<open>Crowdfund\<close>, \<open>Crowdfund_System\<close>, \<open>Crowdfund_Properties\<close>: the campaign, its state machine
    and invariant; covered deposits, phases, refunds, the claim, and how an expired campaign
    can turn into a successful one.
  \<^item> \<open>Core\<close>, \<open>Core_Properties\<close>: the core crate; its operations as a step relation; disputes are
    raised once in all later states, the fee function agrees with the one of the escrow contract,
    the settlement checks nothing but the escrow's existence and status.

  \<^bold>\<open>Bounds.\<close> No definition needs fuel: every loop of the source runs over a finite vector
  and is a structural recursion. A vector has at most \<open>u32::MAX\<close> elements, which the host's
  decoding of arguments enforces (\<open>decodes\<close>); a resolution that must go through is stated for
  fewer than \<open>2 ^ 32\<close> voters.

  \<^bold>\<open>Assumptions.\<close> The token follows the interface: a transfer that returns moved exactly
  the amount, which was not negative and covered. Soroban forbids re-entry, so a token call does
  not change the calling contract's own storage. No call from outside carries the contract's
  own signature.
  The state machine of the escrow contract excludes a second \<open>initialize\<close>, which the code allows
  to anyone and which breaks what the contract guarantees: one property shows what it does, and
  the others speak of a contract initialised once. Properties of a single call, of the fees and
  the slash, and of the other contracts do not need this.

  \<^bold>\<open>Not modelled.\<close> The archival of expired entries: a call on an archived entry fails in the host
  before the contract runs, so the model reads entries as live and proves how long the code
  keeps them alive. The cost model and the transaction format; the \<open>contractmeta\<close> and
  the SDK's generated clients. \<open>balance\<close> of a token is a pure observation for its client,
  although Abundance also refreshes the entry's life. \<open>contracts/src/events.rs\<close> declares event types
  no code uses. In the escrow contract's unit tests the mock token stands for the Stellar asset
  contract and \<open>sample_hash\<close> for SHA-256. The other tests, the scripts and the TypeScript stubs have no contract logic.
\<close>

end
